(* ===== verification/Prelude.thy ===== *)
theory Prelude
  imports Main "HOL-Library.AList"
begin

text \<open>
  Shared vocabulary of the development: results of fallible Rust code (\<open>Inl\<close> an abort,
  \<open>Inr\<close> a value) with the \<open>?\<close> operator as \<open>bind_res\<close>; the checked machine arithmetic of a
  build with \<^verbatim>\<open>overflow-checks = true\<close>, as in the profiles \<^verbatim>\<open>test-release\<close> and \<^verbatim>\<open>reproducible\<close>
  of \<^verbatim>\<open>Cargo.toml\<close> (a build of the profile \<^verbatim>\<open>release-contract\<close>, which does not set the option, wraps
  around where the model aborts); ordered maps as association lists with distinct keys;
  and the generic facts on lists that several components use.
\<close>

named_theorems res_simps \<open>equations that take a successful result apart\<close>
named_theorems op_defs \<open>definitions of the state-changing operations\<close>

section \<open>Results\<close>

definition bind_res :: "'e + 'a \<Rightarrow> ('a \<Rightarrow> 'e + 'b) \<Rightarrow> 'e + 'b" where
  "bind_res m f = (case m of Inl e \<Rightarrow> Inl e | Inr x \<Rightarrow> f x)"

definition ensure :: "bool \<Rightarrow> 'e \<Rightarrow> 'e + unit" where
  "ensure b e = (if b then Inr () else Inl e)"

definition ok_or :: "'a option \<Rightarrow> 'e \<Rightarrow> 'e + 'a" where
  "ok_or x e = (case x of None \<Rightarrow> Inl e | Some a \<Rightarrow> Inr a)"

definition is_ok :: "'e + 'a \<Rightarrow> bool" where
  "is_ok m = (case m of Inl _ \<Rightarrow> False | Inr _ \<Rightarrow> True)"

lemma bind_res_Inl [simp]: "bind_res (Inl e) f = Inl e"
  by (simp add: bind_res_def)

lemma bind_res_Inr [simp]: "bind_res (Inr x) f = f x"
  by (simp add: bind_res_def)

lemma bind_res_eq_Inr [res_simps]: "bind_res m f = Inr y \<longleftrightarrow> (\<exists>x. m = Inr x \<and> f x = Inr y)"
  by (cases m) auto

lemma bind_res_eq_Inl: "bind_res m f = Inl e \<longleftrightarrow> m = Inl e \<or> (\<exists>x. m = Inr x \<and> f x = Inl e)"
  by (cases m) auto

lemma if_Inl_eq_Inr: "(if b then Inl e else m) = Inr y \<longleftrightarrow> \<not> b \<and> m = Inr y"
  by simp

lemma ensure_eq_Inr [simp]: "ensure b e = Inr u \<longleftrightarrow> b"
  by (simp add: ensure_def)

lemma ensure_eq_Inl [simp]: "ensure b e = Inl e' \<longleftrightarrow> \<not> b \<and> e' = e"
  by (auto simp: ensure_def)

lemma ensure_True [simp]: "ensure True e = Inr ()"
  by (simp add: ensure_def)

lemma ensure_False [simp]: "ensure False e = Inl e"
  by (simp add: ensure_def)

lemma ok_or_eq_Inr [simp]: "ok_or x e = Inr a \<longleftrightarrow> x = Some a"
  by (auto simp: ok_or_def split: option.splits)

lemma ok_or_eq_Inl [simp]: "ok_or x e = Inl e' \<longleftrightarrow> x = None \<and> e' = e"
  by (auto simp: ok_or_def split: option.splits)

lemma ok_or_simps [simp]: "ok_or (Some a) e = Inr a" "ok_or None e = Inl e"
  by (simp_all add: ok_or_def)

lemma is_ok_simps [simp]: "is_ok (Inr x)" "\<not> is_ok (Inl e)"
  by (simp_all add: is_ok_def)

lemma is_ok_iff: "is_ok m \<longleftrightarrow> (\<exists>x. m = Inr x)"
  by (cases m) auto

section \<open>Checked machine integers\<close>

text \<open>
  An unsigned integer of width \<open>w\<close> is a natural number below \<open>2 ^ w\<close>. Addition, subtraction and
  multiplication abort where the Rust operator panics in a build with overflow checks.
\<close>

definition checked_add :: "nat \<Rightarrow> nat \<Rightarrow> nat \<Rightarrow> nat option" where
  "checked_add w a b = (if a + b < 2 ^ w then Some (a + b) else None)"

definition checked_sub :: "nat \<Rightarrow> nat \<Rightarrow> nat option" where
  "checked_sub a b = (if b \<le> a then Some (a - b) else None)"

definition checked_mul :: "nat \<Rightarrow> nat \<Rightarrow> nat \<Rightarrow> nat option" where
  "checked_mul w a b = (if a * b < 2 ^ w then Some (a * b) else None)"

definition saturating_mul :: "nat \<Rightarrow> nat \<Rightarrow> nat \<Rightarrow> nat" where
  "saturating_mul w a b = min (a * b) (2 ^ w - 1)"

definition div_ceil :: "nat \<Rightarrow> nat \<Rightarrow> nat" where
  "div_ceil a b = (a + (b - 1)) div b"

lemma checked_add_Some [simp]: "checked_add w a b = Some c \<longleftrightarrow> a + b < 2 ^ w \<and> c = a + b"
  by (auto simp: checked_add_def)

lemma checked_sub_Some [simp]: "checked_sub a b = Some c \<longleftrightarrow> b \<le> a \<and> c = a - b"
  by (auto simp: checked_sub_def)

lemma checked_mul_Some [simp]: "checked_mul w a b = Some c \<longleftrightarrow> a * b < 2 ^ w \<and> c = a * b"
  by (auto simp: checked_mul_def)

lemma div_ceil_le_iff: "0 < b \<Longrightarrow> div_ceil a b \<le> k \<longleftrightarrow> a \<le> b * k"
proof -
  assume b: "0 < b"
  have "div_ceil a b \<le> k \<longleftrightarrow> (a + (b - 1)) div b < Suc k"
    by (simp add: div_ceil_def less_Suc_eq_le)
  also have "\<dots> \<longleftrightarrow> a + (b - 1) < Suc k * b"
    using b by (simp add: div_less_iff_less_mult)
  also have "\<dots> \<longleftrightarrow> a \<le> b * k"
    using b by (auto simp: algebra_simps)
  finally show ?thesis .
qed

section \<open>Ordered maps\<close>

text \<open>
  The maps of the code (\<^verbatim>\<open>BTreeMap\<close>, \<^verbatim>\<open>IterableMap\<close>, \<^verbatim>\<open>LookupMap\<close>) are association lists whose keys are
  distinct: lookup is \<open>map_of\<close>, insertion \<open>AList.update\<close>, removal \<open>AList.delete\<close>.
\<close>

type_synonym ('k, 'v) amap = "('k \<times> 'v) list"

abbreviation wf_amap :: "('k, 'v) amap \<Rightarrow> bool" where
  "wf_amap m \<equiv> distinct (map fst m)"

abbreviation am_insert :: "'k \<Rightarrow> 'v \<Rightarrow> ('k, 'v) amap \<Rightarrow> ('k, 'v) amap" where
  "am_insert \<equiv> AList.update"

abbreviation am_remove :: "'k \<Rightarrow> ('k, 'v) amap \<Rightarrow> ('k, 'v) amap" where
  "am_remove \<equiv> AList.delete"

text \<open>The number of keys that map to a value: \<^verbatim>\<open>m.values().filter(|x| x == v).count()\<close>.\<close>

definition count_value :: "'v \<Rightarrow> ('k, 'v) amap \<Rightarrow> nat" where
  "count_value v m = length (filter (\<lambda>e. snd e = v) m)"

lemma lookup_insert [simp]: "map_of (am_insert k v m) k' = (if k' = k then Some v else map_of m k')"
  by (simp add: update_conv')

lemma lookup_remove [simp]: "map_of (am_remove k m) k' = (if k' = k then None else map_of m k')"
  by (simp add: delete_conv)

lemma wf_am_insert [simp]: "wf_amap m \<Longrightarrow> wf_amap (am_insert k v m)"
  by (simp add: distinct_update)

lemma wf_am_remove [simp]: "wf_amap m \<Longrightarrow> wf_amap (am_remove k m)"
  by (simp add: distinct_delete)

lemma keys_am_insert [simp]: "fst ` set (am_insert k v m) = insert k (fst ` set m)"
  by (simp add: dom_update)

lemma in_set_conv_lookup: "wf_amap m \<Longrightarrow> (k, v) \<in> set m \<longleftrightarrow> map_of m k = Some v"
  by (metis map_of_eq_Some_iff)

lemma length_filter_amap:
  assumes "wf_amap m"
  shows "length (filter P m) = card {k. \<exists>v. map_of m k = Some v \<and> P (k, v)}"
proof -
  have "distinct m" "inj_on fst (set m)"
    using assms by (simp_all add: distinct_map)
  then have "length (filter P m) = card (fst ` set (filter P m))"
    using distinct_card [OF distinct_filter, of m P]
    by (subst card_image) (auto intro: inj_on_subset)
  also have "fst ` set (filter P m) = {k. \<exists>v. map_of m k = Some v \<and> P (k, v)}"
  proof (intro set_eqI iffI)
    fix k assume "k \<in> {k. \<exists>v. map_of m k = Some v \<and> P (k, v)}"
    then obtain v where "(k, v) \<in> set (filter P m)" using map_of_SomeD by fastforce
    then show "k \<in> fst ` set (filter P m)" by (rule rev_image_eqI) simp
  qed (use assms in auto)
  finally show ?thesis .
qed

lemma count_value_eq_card: "wf_amap m \<Longrightarrow> count_value v m = card {k. map_of m k = Some v}"
  by (simp add: count_value_def length_filter_amap)

lemma finite_lookup_eq [simp]: "finite {k. map_of m k = Some v}"
proof (rule finite_subset)
  show "{k. map_of m k = Some v} \<subseteq> fst ` set m"
    by (metis (mono_tags) map_of_SomeD mem_Collect_eq image_eqI fst_conv subsetI)
qed simp

section \<open>Lists\<close>

lemma find_Some_in: "find P xs = Some x \<Longrightarrow> x \<in> set xs \<and> P x"
  by (metis find_Some_iff nth_mem)

lemma find_None_ex: "find P xs = None \<longleftrightarrow> (\<forall>x \<in> set xs. \<not> P x)"
  by (auto simp: find_None_iff)

lemma find_append_Some: "find P xs = Some x \<Longrightarrow> find P (xs @ ys) = Some x"
  by (induction xs) (auto split: if_splits)

lemma find_unique:
  assumes "distinct (map f xs)" and "x \<in> set xs"
  shows "find (\<lambda>y. f y = f x) xs = Some x"
  using assms by (induction xs) (auto simp: image_iff)

lemma card_eq_length_iff: "card (set xs) = length xs \<longleftrightarrow> distinct xs"
  by (metis card_distinct distinct_card)

text \<open>The position of the last element with a property: \<^verbatim>\<open>iter().rposition(p)\<close>.\<close>

fun rposition :: "('a \<Rightarrow> bool) \<Rightarrow> 'a list \<Rightarrow> nat option" where
  "rposition P [] = None"
| "rposition P (x # xs) =
     (case rposition P xs of Some i \<Rightarrow> Some (Suc i) | None \<Rightarrow> if P x then Some 0 else None)"

lemma rposition_None: "rposition P xs = None \<longleftrightarrow> (\<forall>x \<in> set xs. \<not> P x)"
  by (induction xs) (auto split: option.splits)

lemma rposition_Some:
  "rposition P xs = Some i \<Longrightarrow>
     i < length xs \<and> P (xs ! i) \<and> (\<forall>j. i < j \<and> j < length xs \<longrightarrow> \<not> P (xs ! j))"
proof (induction xs arbitrary: i)
  case (Cons x xs)
  show ?case
  proof (cases "rposition P xs")
    case None
    with Cons.prems have "i = 0" "P x" "\<forall>y \<in> set xs. \<not> P y"
      by (auto split: if_splits simp: rposition_None)
    then show ?thesis
      by (auto simp: nth_Cons')
  next
    case (Some k)
    with Cons.prems have "i = Suc k" by simp
    with Cons.IH [OF Some] show ?thesis
      by (auto simp: nth_Cons' less_Suc_eq_0_disj)
  qed
qed simp

text \<open>\<^verbatim>\<open>iter().min_by_key(f)\<close>: the first of the elements with the least key.\<close>

fun min_by_key :: "('a \<Rightarrow> nat) \<Rightarrow> 'a list \<Rightarrow> 'a option" where
  "min_by_key f [] = None"
| "min_by_key f (x # xs) =
     (case min_by_key f xs of None \<Rightarrow> Some x | Some y \<Rightarrow> if f y < f x then Some y else Some x)"

lemma min_by_key_None [simp]: "min_by_key f xs = None \<longleftrightarrow> xs = []"
  by (cases xs) (auto split: option.splits)

lemma min_by_key_Some: "min_by_key f xs = Some x \<Longrightarrow> x \<in> set xs \<and> (\<forall>y \<in> set xs. f x \<le> f y)"
  by (induction xs arbitrary: x) (force split: option.splits if_splits)+

section \<open>Executions\<close>

text \<open>
  A step relation with an invariant, and a preorder on states that every step from a state with the
  invariant respects: both carry over to executions.
\<close>

locale evolution =
  fixes step :: "'s \<Rightarrow> 's \<Rightarrow> bool" and inv :: "'s \<Rightarrow> bool" and rel :: "'s \<Rightarrow> 's \<Rightarrow> bool"
  assumes inv_step: "step s s' \<Longrightarrow> inv s \<Longrightarrow> inv s'"
    and rel_step: "step s s' \<Longrightarrow> inv s \<Longrightarrow> rel s s'"
    and rel_refl: "rel s s"
    and rel_trans: "rel s s' \<Longrightarrow> rel s' s'' \<Longrightarrow> rel s s''"
begin

lemma run_inv: "step\<^sup>*\<^sup>* s s' \<Longrightarrow> inv s \<Longrightarrow> inv s'"
  by (induction rule: rtranclp_induct) (auto intro: inv_step)

lemma run_rel: "step\<^sup>*\<^sup>* s s' \<Longrightarrow> inv s \<Longrightarrow> rel s s'"
proof (induction rule: rtranclp_induct)
  case (step t u)
  with run_inv [OF step(1)] show ?case by (blast intro: rel_step rel_trans)
qed (rule rel_refl)

end

end
