(* ===== verification/Host.thy ===== *)
theory Host
  imports Prelude "HOL-Library.Word"
begin

text \<open>
  What the contract shares with the NEAR runtime and with its callers: identifiers and keys, the
  errors of \<^verbatim>\<open>crates/contract/src/errors.rs\<close>, and the host environment \<^verbatim>\<open>near_sdk::env\<close> that a call
  reads.

  A method that returns an error or panics is rolled back by the runtime, so an abort carries no
  state. A panic is told apart from an error value.
\<close>

section \<open>Identifiers and keys\<close>

type_synonym account_id = string
type_synonym byte = "8 word"

datatype curve_type = ED25519 | SECP256K1

datatype near_public_key = NearPublicKey (curve_type_of: curve_type) (key_data: "byte list")

text \<open>The domain purposes and schemes occur in errors, so they are declared here.\<close>

datatype domain_purpose = Sign | ForeignTx | CKD

datatype signature_scheme = Secp256k1 | Ed25519 | Bls12381 | V2Secp256k1

datatype foreign_chain =
  Solana | Bitcoin | Ethereum | Base | Bnb | Arbitrum | Abstract | Starknet

section \<open>Errors\<close>

datatype node_migration_error = MigrationNotFound | AccountPublicKeyMismatch | KeysetMismatch

datatype tee_error = TeeValidationFailed

datatype request_error = Timeout

datatype sign_error = PayloadCollision | UnsupportedKeyVersion

datatype respond_error =
  InvalidSignature | SignatureSchemeMismatch | RespondDomainNotFound | RespondTweakNotOnCurve

datatype public_key_error =
  DerivedKeyConversionFailed | PublicKeyDomainNotFound | PublicKeyTweakNotOnCurve

datatype key_event_error = KeyEventIdMismatch | ActiveKeyEvent | NoActiveKeyEvent

datatype vote_error =
  VoterNotParticipant | VoterNotParticipantNorProposedParticipant
| ParticipantVoteAlreadyRegistered | VoterNotLeader | InconsistentVotingState
| VoterAlreadyAborted | VoteAlreadySubmitted | VoterPending

datatype invalid_parameters =
  MalformedPayload | InsufficientDeposit | InsufficientGas | RequestNotFound | UpdateNotFound
| ParticipantAlreadyInSet | ParticipantAlreadyUsed
| DomainNotFound nat
| EpochMismatch nat nat
| NextDomainIdMismatch | InvalidDomainId
| WrongDomainPurpose nat domain_purpose domain_purpose
| InvalidTeeRemoteAttestation | InvalidAppPublicKey | InvalidTlsPublicKey | CallerNotSigner
| ChainNotInPolicy foreign_chain

datatype invalid_state =
  ProtocolStateNotRunning | ProtocolStateNotResharing | ProtocolStateNotInitializing
| ProtocolStateNotRunningNorResharing | UnexpectedProtocolState | ContractStateIsMissing
| ParticipantIndexOutOfRange | NotParticipant

datatype invalid_threshold =
  MinAbsRequirementFailed | MinRelRequirementFailed | MaxRequirementFailed | DKGThresholdFailed

datatype invalid_candidate_set =
  InsufficientOldParticipants | IncoherentParticipantIds | NewParticipantIdsNotContiguous
| NewParticipantIdsTooHigh | InvalidParticipantsTeeQuote

datatype conversion_error = DataConversion

datatype domain_error =
  NoSuchDomain | NewDomainIdsNotContiguous nat | AddDomainsMustAddAtLeastOneDomain
| InvalidDomains | DomainsMismatch
| InvalidSchemePurposeCombination signature_scheme domain_purpose

text \<open>The attached message of an error (\<^verbatim>\<open>ErrorRepr::Message\<close>) is not kept, only its kind.\<close>

datatype error_kind =
  SignError sign_error
| RespondError respond_error
| PublicKeyError public_key_error
| VoteError vote_error
| InvalidParameters invalid_parameters
| InvalidState invalid_state
| ConversionError conversion_error
| InvalidThreshold invalid_threshold
| InvalidCandidateSet invalid_candidate_set
| KeyEventError key_event_error
| DomainError domain_error
| TeeError tee_error
| NodeMigrationError node_migration_error

text \<open>
  A panic names its cause: \<^verbatim>\<open>env::panic_str\<close> with an error's text, an arithmetic overflow, an
  index out of bounds, an \<^verbatim>\<open>unwrap\<close> or \<^verbatim>\<open>expect\<close> on the wrong variant, a failed assertion, or
  \<^verbatim>\<open>env::panic_str\<close> with a literal text.
\<close>

datatype panic_reason =
  PanicError error_kind | PanicRequest request_error | Overflow | IndexOutOfBounds
| UnwrapFailed | AssertFailed | PanicText

datatype abort = Err error_kind | Panic panic_reason

type_synonym 'a res = "abort + 'a"

definition add_u :: "nat \<Rightarrow> nat \<Rightarrow> nat \<Rightarrow> nat res" where
  "add_u w a b = ok_or (checked_add w a b) (Panic Overflow)"

definition sub_u :: "nat \<Rightarrow> nat \<Rightarrow> nat res" where
  "sub_u a b = ok_or (checked_sub a b) (Panic Overflow)"

definition mul_u :: "nat \<Rightarrow> nat \<Rightarrow> nat \<Rightarrow> nat res" where
  "mul_u w a b = ok_or (checked_mul w a b) (Panic Overflow)"

lemma add_u_Inr [simp]: "add_u w a b = Inr c \<longleftrightarrow> a + b < 2 ^ w \<and> c = a + b"
  by (auto simp: add_u_def)

lemma sub_u_Inr [simp]: "sub_u a b = Inr c \<longleftrightarrow> b \<le> a \<and> c = a - b"
  by (auto simp: sub_u_def)

lemma mul_u_Inr [simp]: "mul_u w a b = Inr c \<longleftrightarrow> a * b < 2 ^ w \<and> c = a * b"
  by (auto simp: mul_u_def)

lemma add_u_ok: "a + b < 2 ^ w \<Longrightarrow> add_u w a b = Inr (a + b)"
  by simp

lemma sub_u_ok: "b \<le> a \<Longrightarrow> sub_u a b = Inr (a - b)"
  by simp

lemma mul_u_ok: "a * b < 2 ^ w \<Longrightarrow> mul_u w a b = Inr (a * b)"
  by simp

section \<open>The host environment of a call\<close>

text \<open>
  \<open>env_data_id\<close> is the identifier the runtime writes to the register when the call yields. The runtime
  changes \<^verbatim>\<open>env::storage_usage()\<close> only at a storage write; the state of the contract is written once,
  after the method returned, so two readings in a method that touches no stored collection agree.
\<close>

record env =
  env_signer_account_id :: account_id
  env_signer_account_pk :: near_public_key
  env_predecessor_account_id :: account_id
  env_current_account_id :: account_id
  env_block_height :: nat
  env_block_timestamp :: nat
  env_attached_deposit :: nat
  env_prepaid_gas :: nat
  env_storage_byte_cost :: nat
  env_storage_usage :: nat
  env_data_id :: "byte list"

text \<open>A call signed by \<open>a\<close> at block height \<open>h\<close>, to evaluate definitions on.\<close>

definition ex_env :: "account_id \<Rightarrow> nat \<Rightarrow> env" where
  "ex_env a h =
     \<lparr>env_signer_account_id = a, env_signer_account_pk = NearPublicKey ED25519 [],
      env_predecessor_account_id = a, env_current_account_id = ''mpc'', env_block_height = h,
      env_block_timestamp = h * 10 ^ 9, env_attached_deposit = 1, env_prepaid_gas = 10 ^ 15,
      env_storage_byte_cost = 1, env_storage_usage = 1000, env_data_id = replicate 32 (of_nat h)\<rparr>"

section \<open>Tokens and gas\<close>

text \<open>
  \<^verbatim>\<open>Gas::from_tgas\<close> multiplies a \<^verbatim>\<open>u64\<close>, \<^verbatim>\<open>NearToken::saturating_mul\<close> saturates at \<^verbatim>\<open>u128\<close>.
\<close>

definition gas_from_tgas :: "nat \<Rightarrow> nat res" where
  "gas_from_tgas tgas = mul_u 64 tgas (10 ^ 12)"

definition token_saturating_mul :: "nat \<Rightarrow> nat \<Rightarrow> nat" where
  "token_saturating_mul token n = saturating_mul 128 token n"

text \<open>\<^verbatim>\<open>NearToken::checked_sub\<close>, and the refund of what exceeds a required deposit.\<close>

definition token_checked_sub :: "nat \<Rightarrow> nat \<Rightarrow> nat option" where
  "token_checked_sub a b = checked_sub a b"

end
