(* ===== verification/Participants.thy ===== *)
theory Participants
  imports Host
begin

text \<open>
  The participant set of \<^verbatim>\<open>crates/contract/src/primitives/participants.rs\<close>: a list of
  (account, participant id, info) with the next unused id. The invariant of the set is
  \<open>wf_participants\<close>; \<open>participants_validate\<close> is proved to decide exactly that invariant.
\<close>

section \<open>Data and operations\<close>

record participant_info =
  pi_url :: string
  pi_sign_pk :: near_public_key

type_synonym participant_entry = "account_id \<times> nat \<times> participant_info"

abbreviation entry_account :: "participant_entry \<Rightarrow> account_id" where
  "entry_account e \<equiv> fst e"

abbreviation entry_id :: "participant_entry \<Rightarrow> nat" where
  "entry_id e \<equiv> fst (snd e)"

abbreviation entry_info :: "participant_entry \<Rightarrow> participant_info" where
  "entry_info e \<equiv> snd (snd e)"

record participants =
  ps_next_id :: nat
  ps_participants :: "participant_entry list"

definition participants_new :: participants where
  "participants_new = \<lparr>ps_next_id = 0, ps_participants = []\<rparr>"

definition participants_init :: "nat \<Rightarrow> participant_entry list \<Rightarrow> participants" where
  "participants_init next_id es = \<lparr>ps_next_id = next_id, ps_participants = es\<rparr>"

definition participants_len :: "participants \<Rightarrow> nat" where
  "participants_len ps = length (ps_participants ps)"

definition participants_insert_with_id ::
  "participants \<Rightarrow> account_id \<Rightarrow> participant_info \<Rightarrow> nat \<Rightarrow> participants res" where
  "participants_insert_with_id ps account_id info pid =
     (if list_ex (\<lambda>e. entry_account e = account_id \<or> entry_id e = pid) (ps_participants ps)
      then Inl (Err (InvalidParameters ParticipantAlreadyInSet))
      else if pid < ps_next_id ps
      then Inl (Err (InvalidParameters ParticipantAlreadyUsed))
      else bind_res (add_u 32 pid 1) (\<lambda>next_id.
        Inr \<lparr>ps_next_id = next_id,
             ps_participants = ps_participants ps @ [(account_id, pid, info)]\<rparr>))"

definition participants_insert ::
  "participants \<Rightarrow> account_id \<Rightarrow> participant_info \<Rightarrow> participants res" where
  "participants_insert ps account_id info =
     participants_insert_with_id ps account_id info (ps_next_id ps)"

text \<open>The loop of \<^verbatim>\<open>validate\<close>, with the two sets it fills.\<close>

fun validate_loop ::
  "nat \<Rightarrow> participant_entry list \<Rightarrow> nat set \<Rightarrow> account_id set \<Rightarrow> (nat set \<times> account_id set) res"
where
  "validate_loop next_id [] ids accounts = Inr (ids, accounts)"
| "validate_loop next_id (e # es) ids accounts =
     (let accounts' = insert (entry_account e) accounts;
          ids' = insert (entry_id e) ids
      in if next_id \<le> entry_id e
         then Inl (Err (InvalidCandidateSet IncoherentParticipantIds))
         else validate_loop next_id es ids' accounts')"

definition participants_validate :: "participants \<Rightarrow> unit res" where
  "participants_validate ps =
     bind_res (validate_loop (ps_next_id ps) (ps_participants ps) {} {}) (\<lambda>(ids, accounts).
     if card ids \<noteq> participants_len ps
     then Inl (Err (InvalidCandidateSet IncoherentParticipantIds))
     else if card accounts \<noteq> participants_len ps
     then Inl (Err (InvalidCandidateSet IncoherentParticipantIds))
     else Inr ())"

definition is_participant_given_account_id :: "participants \<Rightarrow> account_id \<Rightarrow> bool" where
  "is_participant_given_account_id ps account_id =
     list_ex (\<lambda>e. entry_account e = account_id) (ps_participants ps)"

definition is_participant_given_participant_id :: "participants \<Rightarrow> nat \<Rightarrow> bool" where
  "is_participant_given_participant_id ps pid =
     list_ex (\<lambda>e. entry_id e = pid) (ps_participants ps)"

definition participants_info :: "participants \<Rightarrow> account_id \<Rightarrow> participant_info option" where
  "participants_info ps account_id =
     map_option entry_info (find (\<lambda>e. entry_account e = account_id) (ps_participants ps))"

text \<open>\<^verbatim>\<open>update_info\<close> overwrites the first entry of the account and returns.\<close>

fun update_info_loop ::
  "account_id \<Rightarrow> participant_info \<Rightarrow> participant_entry list \<Rightarrow> participant_entry list res"
where
  "update_info_loop account_id new_info [] = Inl (Err (InvalidState NotParticipant))"
| "update_info_loop account_id new_info (e # es) =
     (if entry_account e = account_id then Inr ((entry_account e, entry_id e, new_info) # es)
      else bind_res (update_info_loop account_id new_info es) (\<lambda>es'. Inr (e # es')))"

definition participants_update_info ::
  "participants \<Rightarrow> account_id \<Rightarrow> participant_info \<Rightarrow> participants res" where
  "participants_update_info ps account_id new_info =
     bind_res (update_info_loop account_id new_info (ps_participants ps)) (\<lambda>es.
     Inr (ps\<lparr>ps_participants := es\<rparr>))"

section \<open>Invariant\<close>

definition accounts_of :: "participants \<Rightarrow> account_id set" where
  "accounts_of ps = entry_account ` set (ps_participants ps)"

definition ids_of :: "participants \<Rightarrow> nat set" where
  "ids_of ps = entry_id ` set (ps_participants ps)"

definition wf_participants :: "participants \<Rightarrow> bool" where
  "wf_participants ps \<longleftrightarrow>
     distinct (map entry_account (ps_participants ps)) \<and>
     distinct (map entry_id (ps_participants ps)) \<and>
     list_all (\<lambda>e. entry_id e < ps_next_id ps) (ps_participants ps)"

text \<open>The next id is a \<^verbatim>\<open>u32\<close>.\<close>

definition u32_participants :: "participants \<Rightarrow> bool" where
  "u32_participants ps \<longleftrightarrow> ps_next_id ps < 2 ^ 32"

lemma accounts_of_intro [intro]: "(a, i, info) \<in> set (ps_participants ps) \<Longrightarrow> a \<in> accounts_of ps"
  unfolding accounts_of_def by (metis fst_conv imageI)

lemma entry_account_mem [intro]: "e \<in> set (ps_participants ps) \<Longrightarrow> entry_account e \<in> accounts_of ps"
  unfolding accounts_of_def by (rule imageI)

lemma entry_id_mem [intro]: "e \<in> set (ps_participants ps) \<Longrightarrow> entry_id e \<in> ids_of ps"
  unfolding ids_of_def by (rule imageI)

lemma finite_accounts_of [simp]: "finite (accounts_of ps)"
  by (simp add: accounts_of_def)

lemma finite_ids_of [simp]: "finite (ids_of ps)"
  by (simp add: ids_of_def)

lemma accounts_of_obtain:
  assumes "a \<in> accounts_of ps"
  obtains e where "e \<in> set (ps_participants ps)" "entry_account e = a"
  using assms unfolding accounts_of_def by blast

lemma ids_of_obtain:
  assumes "i \<in> ids_of ps"
  obtains e where "e \<in> set (ps_participants ps)" "entry_id e = i"
  using assms unfolding ids_of_def by blast

lemma ids_of_intro [intro]: "(a, i, info) \<in> set (ps_participants ps) \<Longrightarrow> i \<in> ids_of ps"
  unfolding ids_of_def by (metis fst_conv snd_conv imageI)

lemma find_account_None [simp]:
  "find (\<lambda>e. entry_account e = a) (ps_participants ps) = None \<longleftrightarrow> a \<notin> accounts_of ps"
  unfolding find_None_ex accounts_of_def by blast

lemma list_ex_account [simp]:
  "list_ex (\<lambda>e. entry_account e = a) (ps_participants ps) \<longleftrightarrow> a \<in> accounts_of ps"
  "list_ex (\<lambda>e. a = entry_account e) (ps_participants ps) \<longleftrightarrow> a \<in> accounts_of ps"
  unfolding list_ex_iff accounts_of_def by blast+

lemma is_participant_iff [simp]:
  "is_participant_given_account_id ps a \<longleftrightarrow> a \<in> accounts_of ps"
  by (auto simp: is_participant_given_account_id_def list_ex_iff accounts_of_def)

lemma is_participant_id_iff [simp]:
  "is_participant_given_participant_id ps p \<longleftrightarrow> p \<in> ids_of ps"
  by (auto simp: is_participant_given_participant_id_def list_ex_iff ids_of_def)

lemma wf_participantsD:
  assumes "wf_participants ps"
  shows "distinct (map entry_account (ps_participants ps))"
    and "distinct (map entry_id (ps_participants ps))"
    and "\<And>e. e \<in> set (ps_participants ps) \<Longrightarrow> entry_id e < ps_next_id ps"
  using assms by (auto simp: wf_participants_def list_all_iff)

lemma ids_of_less: "wf_participants ps \<Longrightarrow> i \<in> ids_of ps \<Longrightarrow> i < ps_next_id ps"
  by (metis ids_of_obtain wf_participantsD(3))

lemma card_accounts [simp]: "wf_participants ps \<Longrightarrow> card (accounts_of ps) = participants_len ps"
  using distinct_card [of "map entry_account (ps_participants ps)"]
  by (simp add: wf_participants_def participants_len_def accounts_of_def)

lemma card_ids [simp]: "wf_participants ps \<Longrightarrow> card (ids_of ps) = participants_len ps"
  using distinct_card [of "map entry_id (ps_participants ps)"]
  by (simp add: wf_participants_def participants_len_def ids_of_def)

lemma entry_by_account:
  assumes "wf_participants ps" "e \<in> set (ps_participants ps)" "e' \<in> set (ps_participants ps)"
    and "entry_account e = entry_account e'"
  shows "e = e'"
  using assms by (metis wf_participantsD(1) distinct_map inj_onD)

lemma entry_by_id:
  assumes "wf_participants ps" "e \<in> set (ps_participants ps)" "e' \<in> set (ps_participants ps)"
    and "entry_id e = entry_id e'"
  shows "e = e'"
  using assms by (metis wf_participantsD(2) distinct_map inj_onD)

lemma wf_participants_filter:
  assumes "wf_participants ps"
  shows "wf_participants (participants_init (ps_next_id ps) (filter P (ps_participants ps)))"
  using assms by (auto simp: wf_participants_def participants_init_def distinct_map_filter
      list_all_iff)

section \<open>Validation decides the invariant\<close>

lemma validate_loop_eq:
  "validate_loop n es ids accs =
     (if \<forall>e \<in> set es. entry_id e < n
      then Inr (ids \<union> entry_id ` set es, accs \<union> entry_account ` set es)
      else Inl (Err (InvalidCandidateSet IncoherentParticipantIds)))"
  by (induction es arbitrary: ids accs) (auto simp: Let_def not_le)

lemma participants_validate_eq:
  "participants_validate ps =
     (if wf_participants ps then Inr ()
      else Inl (Err (InvalidCandidateSet IncoherentParticipantIds)))"
proof -
  let ?es = "ps_participants ps"
  have ids: "card (entry_id ` set ?es) = length ?es \<longleftrightarrow> distinct (map entry_id ?es)"
    using card_eq_length_iff [of "map entry_id ?es"] by simp
  have accs: "card (entry_account ` set ?es) = length ?es \<longleftrightarrow> distinct (map entry_account ?es)"
    using card_eq_length_iff [of "map entry_account ?es"] by simp
  show ?thesis
    by (auto simp: participants_validate_def validate_loop_eq participants_len_def
        wf_participants_def list_all_iff ids accs)
qed

text \<open>
  C1. \<^verbatim>\<open>Participants::validate\<close> accepts a set exactly when its account ids are unique, its
  participant ids are unique and every participant id is below \<^verbatim>\<open>next_id\<close>; otherwise it returns
  \<^verbatim>\<open>IncoherentParticipantIds\<close>, and it never panics.
\<close>

theorem participants_validate_decides:
  "participants_validate ps =
     (if wf_participants ps then Inr ()
      else Inl (Err (InvalidCandidateSet IncoherentParticipantIds)))"
  by (rule participants_validate_eq)

section \<open>Insertion and update\<close>

lemma wf_participants_new: "wf_participants participants_new"
  by (simp add: wf_participants_def participants_new_def)

lemma insert_with_id_wf:
  assumes "wf_participants ps" "participants_insert_with_id ps a info pid = Inr ps'"
  shows "wf_participants ps' \<and> u32_participants ps'"
  using assms
  by (fastforce simp: participants_insert_with_id_def wf_participants_def u32_participants_def
      list_ex_iff list_all_iff res_simps split: if_splits)

lemma participants_info_wf:
  assumes "wf_participants ps" "e \<in> set (ps_participants ps)"
  shows "participants_info ps (entry_account e) = Some (entry_info e)"
  using find_unique [OF wf_participantsD(1) [OF assms(1)] assms(2)]
  by (simp add: participants_info_def)

lemma participants_info_None: "participants_info ps a = None \<longleftrightarrow> a \<notin> accounts_of ps"
  by (auto simp: participants_info_def find_None_ex accounts_of_def)

lemma update_info_loop_ok:
  "update_info_loop a i es = Inr es' \<Longrightarrow>
     map entry_account es' = map entry_account es \<and> map entry_id es' = map entry_id es"
  by (induction es arbitrary: es') (auto simp: res_simps split: if_splits)

lemma update_info_loop_lookup:
  "update_info_loop a i es = Inr es' \<Longrightarrow>
     map_option entry_info (find (\<lambda>e. entry_account e = b) es') =
       (if b = a then Some i else map_option entry_info (find (\<lambda>e. entry_account e = b) es))"
  by (induction es arbitrary: es') (auto simp: res_simps split: if_splits)

lemma update_info_loop_total:
  "(\<exists>es'. update_info_loop a i es = Inr es') \<longleftrightarrow> a \<in> entry_account ` set es"
  by (induction es) (auto simp: res_simps)

lemma map_eq_list_all:
  assumes "map f xs = map f ys"
  shows "list_all (\<lambda>x. P (f x)) xs = list_all (\<lambda>x. P (f x)) ys"
proof -
  have "list_all P (map f xs) = list_all P (map f ys)"
    by (simp only: assms)
  then show ?thesis by (simp add: list.pred_map comp_def)
qed

lemma map_eq_image: "map f xs = map f ys \<Longrightarrow> f ` set xs = f ` set ys"
  by (metis list.set_map)

lemma update_info_wf:
  assumes "participants_update_info ps a i = Inr ps'"
  shows "wf_participants ps' = wf_participants ps" and "ps_next_id ps' = ps_next_id ps"
    and "accounts_of ps' = accounts_of ps" and "ids_of ps' = ids_of ps"
    and "participants_len ps' = participants_len ps"
    and "participants_info ps' b = (if b = a then Some i else participants_info ps b)"
proof -
  from assms obtain es where es: "update_info_loop a i (ps_participants ps) = Inr es"
    and ps': "ps' = ps\<lparr>ps_participants := es\<rparr>"
    by (auto simp: participants_update_info_def res_simps)
  note m = update_info_loop_ok [OF es]
  have ids: "list_all (\<lambda>e. entry_id e < ps_next_id ps) es =
      list_all (\<lambda>e. entry_id e < ps_next_id ps) (ps_participants ps)"
    using map_eq_list_all [of entry_id es "ps_participants ps" "\<lambda>x. x < ps_next_id ps"] m by simp
  show "wf_participants ps' = wf_participants ps"
    using m ids by (simp add: wf_participants_def ps')
  show "ps_next_id ps' = ps_next_id ps"
    by (simp add: ps')
  show "accounts_of ps' = accounts_of ps" "ids_of ps' = ids_of ps"
    using map_eq_image [OF conjunct1 [OF m]] map_eq_image [OF conjunct2 [OF m]]
    by (simp_all add: ps' accounts_of_def ids_of_def)
  show "participants_len ps' = participants_len ps"
    using arg_cong [OF conjunct1 [OF m], of length] by (simp add: participants_len_def ps')
  show "participants_info ps' b = (if b = a then Some i else participants_info ps b)"
    using update_info_loop_lookup [OF es, of b] by (simp add: participants_info_def ps')
qed

end
