(* ===== verification/Thresholds.thy ===== *)
theory Thresholds
  imports Participants
begin

text \<open>
  Thresholds and threshold parameters of \<^verbatim>\<open>crates/contract/src/primitives/thresholds.rs\<close>. The
  checks are characterised by what they accept: a threshold of at least two and at least 60% of the
  shares, so that two quorums always share participants, and proposals that keep old participants
  as they are and number the new ones contiguously.
\<close>

section \<open>Data and operations\<close>

abbreviation MIN_THRESHOLD_ABSOLUTE :: nat where
  "MIN_THRESHOLD_ABSOLUTE \<equiv> 2"

definition u32_max :: nat where
  "u32_max = 2 ^ 32 - 1"

record threshold_parameters =
  tp_participants :: participants
  tp_threshold :: nat

definition validate_threshold :: "nat \<Rightarrow> nat \<Rightarrow> unit res" where
  "validate_threshold n_shares k =
     (if n_shares < k then Inl (Err (InvalidThreshold MaxRequirementFailed))
      else if k < MIN_THRESHOLD_ABSOLUTE then Inl (Err (InvalidThreshold MinAbsRequirementFailed))
      else bind_res (mul_u 64 3 n_shares) (\<lambda>m.
        let percentage_bound = div_ceil m 5
        in if k < percentage_bound then Inl (Err (InvalidThreshold MinRelRequirementFailed))
           else Inr ()))"

definition threshold_parameters_new :: "participants \<Rightarrow> nat \<Rightarrow> threshold_parameters res" where
  "threshold_parameters_new ps k =
     bind_res (validate_threshold (participants_len ps) k) (\<lambda>_.
     Inr \<lparr>tp_participants = ps, tp_threshold = k\<rparr>)"

definition threshold_parameters_validate :: "threshold_parameters \<Rightarrow> unit res" where
  "threshold_parameters_validate tp =
     bind_res (validate_threshold (participants_len (tp_participants tp)) (tp_threshold tp)) (\<lambda>_.
     participants_validate (tp_participants tp))"

text \<open>The first loop of \<^verbatim>\<open>validate_incoming_proposal\<close> fills two maps, later entries winning.\<close>

fun index_old ::
  "participant_entry list \<Rightarrow> (nat \<rightharpoonup> account_id) \<Rightarrow> (account_id \<rightharpoonup> nat \<times> participant_info)
     \<Rightarrow> (nat \<rightharpoonup> account_id) \<times> (account_id \<rightharpoonup> nat \<times> participant_info)"
where
  "index_old [] by_id by_acc = (by_id, by_acc)"
| "index_old (e # es) by_id by_acc =
     index_old es (by_id(entry_id e \<mapsto> entry_account e))
       (by_acc(entry_account e \<mapsto> (entry_id e, entry_info e)))"

text \<open>The second loop; its state is \<^verbatim>\<open>(new_min_id, new_max_id, n_old)\<close>.\<close>

fun scan_new ::
  "(account_id \<rightharpoonup> nat \<times> participant_info) \<Rightarrow> (nat \<rightharpoonup> account_id) \<Rightarrow> participant_entry list
     \<Rightarrow> nat \<times> nat \<times> nat \<Rightarrow> (nat \<times> nat \<times> nat) res"
where
  "scan_new by_acc by_id [] st = Inr st"
| "scan_new by_acc by_id (e # es) (new_min, new_max, n_old) =
     (case by_acc (entry_account e) of
        Some (old_id, old_info) \<Rightarrow>
          if entry_id e \<noteq> old_id
          then Inl (Err (InvalidCandidateSet IncoherentParticipantIds))
          else if entry_info e \<noteq> old_info
          then Inl (Err (InvalidCandidateSet IncoherentParticipantIds))
          else bind_res (add_u 64 n_old 1) (\<lambda>n_old'.
            scan_new by_acc by_id es (new_min, new_max, n_old'))
      | None \<Rightarrow>
          if by_id (entry_id e) \<noteq> None
          then Inl (Err (InvalidCandidateSet IncoherentParticipantIds))
          else scan_new by_acc by_id es
                 (min new_min (entry_id e), max new_max (entry_id e), n_old))"

definition validate_incoming_proposal ::
  "threshold_parameters \<Rightarrow> threshold_parameters \<Rightarrow> unit res" where
  "validate_incoming_proposal self proposal =
     bind_res (threshold_parameters_validate proposal) (\<lambda>_.
     case index_old (ps_participants (tp_participants self)) Map.empty Map.empty of
       (old_by_id, old_by_acc) \<Rightarrow>
     bind_res (scan_new old_by_acc old_by_id (ps_participants (tp_participants proposal))
                 (u32_max, 0, 0)) (\<lambda>(new_min, new_max, n_old).
     if n_old < tp_threshold self
     then Inl (Err (InvalidCandidateSet InsufficientOldParticipants))
     else bind_res (sub_u (participants_len (tp_participants proposal)) n_old) (\<lambda>n_new.
     if 0 < n_new then
       bind_res (sub_u n_new 1) (\<lambda>m.
       bind_res (sub_u new_max new_min) (\<lambda>d.
       if m \<noteq> d then Inl (Err (InvalidCandidateSet NewParticipantIdsNotContiguous))
       else if new_min \<noteq> ps_next_id (tp_participants self)
       then Inl (Err (InvalidCandidateSet NewParticipantIdsNotContiguous))
       else bind_res (add_u 32 new_max 1) (\<lambda>next_id.
         if next_id \<noteq> ps_next_id (tp_participants proposal)
         then Inl (Err (InvalidCandidateSet NewParticipantIdsTooHigh))
         else Inr ())))
     else Inr ())))"

definition threshold_parameters_update_info ::
  "threshold_parameters \<Rightarrow> account_id \<Rightarrow> participant_info \<Rightarrow> threshold_parameters res" where
  "threshold_parameters_update_info tp account_id new_info =
     bind_res (participants_update_info (tp_participants tp) account_id new_info) (\<lambda>ps.
     Inr (tp\<lparr>tp_participants := ps\<rparr>))"

abbreviation tp_len :: "threshold_parameters \<Rightarrow> nat" where
  "tp_len tp \<equiv> participants_len (tp_participants tp)"

abbreviation tp_accounts :: "threshold_parameters \<Rightarrow> account_id set" where
  "tp_accounts tp \<equiv> accounts_of (tp_participants tp)"

abbreviation tp_entries :: "threshold_parameters \<Rightarrow> participant_entry list" where
  "tp_entries tp \<equiv> ps_participants (tp_participants tp)"

section \<open>What the checks accept\<close>

lemma validate_threshold_iff:
  "validate_threshold n k = Inr u \<longleftrightarrow> 2 \<le> k \<and> k \<le> n \<and> 3 * n \<le> 5 * k \<and> 3 * n < 2 ^ 64"
proof -
  have "\<not> k < div_ceil (3 * n) 5 \<longleftrightarrow> 3 * n \<le> 5 * k"
    using div_ceil_le_iff [of 5 "3 * n" k] by linarith
  then show ?thesis
    by (auto simp: validate_threshold_def res_simps Let_def)
qed

definition wf_parameters :: "threshold_parameters \<Rightarrow> bool" where
  "wf_parameters tp \<longleftrightarrow>
     wf_participants (tp_participants tp) \<and> u32_participants (tp_participants tp) \<and>
     2 \<le> tp_threshold tp \<and> tp_threshold tp \<le> tp_len tp \<and>
     3 * tp_len tp \<le> 5 * tp_threshold tp \<and> 3 * tp_len tp < 2 ^ 64"

lemma threshold_parameters_validate_iff:
  "u32_participants (tp_participants tp) \<Longrightarrow>
     threshold_parameters_validate tp = Inr u \<longleftrightarrow> wf_parameters tp"
  by (auto simp: threshold_parameters_validate_def res_simps validate_threshold_iff
      participants_validate_eq wf_parameters_def split: if_splits)

lemma wf_parametersD:
  assumes "wf_parameters tp"
  shows "wf_participants (tp_participants tp)" "u32_participants (tp_participants tp)"
    "2 \<le> tp_threshold tp" "tp_threshold tp \<le> tp_len tp"
    "3 * tp_len tp \<le> 5 * tp_threshold tp" "3 * tp_len tp < 2 ^ 64"
  using assms by (auto simp: wf_parameters_def)

text \<open>
  C2. \<^verbatim>\<open>validate_threshold\<close> makes quorums overlap: when it accepts a threshold for a set of
  participants, any two sets of at least \<open>threshold\<close> participants share at least a fifth of all
  participants, and so at least one.
\<close>

theorem validate_threshold_quorum_intersection:
  assumes "validate_threshold (card U) k = Inr ()"
    and "Q1 \<subseteq> U" and "Q2 \<subseteq> U" and "finite U" and "k \<le> card Q1" and "k \<le> card Q2"
  shows "card U \<le> 5 * card (Q1 \<inter> Q2) \<and> Q1 \<inter> Q2 \<noteq> {}"
proof -
  from assms(1) have k: "2 \<le> k" "k \<le> card U" "3 * card U \<le> 5 * k"
    by (simp_all add: validate_threshold_iff)
  from assms have fin: "finite Q1" "finite Q2" by (auto intro: finite_subset)
  have "card (Q1 \<union> Q2) \<le> card U" using assms by (intro card_mono) auto
  then have "card Q1 + card Q2 \<le> card U + card (Q1 \<inter> Q2)"
    using card_Un_Int [OF fin] by simp
  with assms(5,6) k have *: "card U \<le> 5 * card (Q1 \<inter> Q2)" by linarith
  with k have "Q1 \<inter> Q2 \<noteq> {}" by auto
  with * show ?thesis by blast
qed

theorem validate_threshold_quorum_intersection_witness:
  "card {0::nat, 1, 2} \<le> 5 * card ({0, 1} \<inter> {1, 2::nat}) \<and> {0, 1} \<inter> {1, 2::nat} \<noteq> {}"
proof -
  have "validate_threshold (card {0::nat, 1, 2}) 2 = Inr ()"
    by (simp add: validate_threshold_iff)
  from validate_threshold_quorum_intersection [OF this, of "{0, 1}" "{1, 2}"] show ?thesis
    by simp
qed

section \<open>Proposals\<close>

lemma index_old_eq:
  assumes "distinct (map entry_account es)" "distinct (map entry_id es)"
    and "\<And>e. e \<in> set es \<Longrightarrow> by_id (entry_id e) = None \<and> by_acc (entry_account e) = None"
  shows "fst (index_old es by_id by_acc) i = None \<longleftrightarrow> by_id i = None \<and> i \<notin> entry_id ` set es"
    and "snd (index_old es by_id by_acc) a = Some (i, info) \<longleftrightarrow>
           by_acc a = Some (i, info) \<or> (a, i, info) \<in> set es"
  using assms
proof (induction es arbitrary: by_id by_acc)
  case (Cons e es)
  have fresh: "(by_id(entry_id e \<mapsto> entry_account e)) (entry_id e') = None \<and>
      (by_acc(entry_account e \<mapsto> (entry_id e, entry_info e))) (entry_account e') = None"
    if d: "distinct (map entry_account (e # es))" "distinct (map entry_id (e # es))"
      and n: "\<And>e'. e' \<in> set (e # es) \<Longrightarrow>
        by_id (entry_id e') = None \<and> by_acc (entry_account e') = None"
      and e': "e' \<in> set es" for e' by_id by_acc
  proof -
    from e' have "entry_id e' \<in> entry_id ` set es" "entry_account e' \<in> entry_account ` set es"
      by (rule imageI)+
    moreover have "entry_id e \<notin> entry_id ` set es" "entry_account e \<notin> entry_account ` set es"
      using d by simp_all
    ultimately have "entry_id e' \<noteq> entry_id e" "entry_account e' \<noteq> entry_account e" by metis+
    with n [of e'] e' show ?thesis by simp
  qed
  {
    case 1
    have "fst (index_old es (by_id(entry_id e \<mapsto> entry_account e))
        (by_acc(entry_account e \<mapsto> (entry_id e, entry_info e)))) i = None \<longleftrightarrow>
        (by_id(entry_id e \<mapsto> entry_account e)) i = None \<and> i \<notin> entry_id ` set es"
      by (rule Cons.IH(1)) (use 1(1,2) fresh [where by_id = by_id and by_acc = by_acc, OF 1] in auto)
    then show ?case by auto
  next
    case 2
    have "snd (index_old es (by_id(entry_id e \<mapsto> entry_account e))
        (by_acc(entry_account e \<mapsto> (entry_id e, entry_info e)))) a = Some (i, info) \<longleftrightarrow>
        (by_acc(entry_account e \<mapsto> (entry_id e, entry_info e))) a = Some (i, info) \<or>
        (a, i, info) \<in> set es"
      by (rule Cons.IH(2)) (use 2(1,2) fresh [where by_id = by_id and by_acc = by_acc, OF 2] in auto)
    moreover have "by_acc (entry_account e) = None" using 2 by simp
    moreover have "(a, i, info) \<in> set es \<Longrightarrow> a \<noteq> entry_account e"
      using 2(1) by (force simp: image_iff)
    ultimately show ?case
      by (cases e) auto
  }
qed auto

lemma scan_new_eq:
  assumes "n_old + length es < 2 ^ 64"
  shows "scan_new by_acc by_id es (mn, mx, n_old) = Inr r \<longleftrightarrow>
    (\<forall>e \<in> set es. case by_acc (entry_account e) of
        Some (i, info) \<Rightarrow> entry_id e = i \<and> entry_info e = info
      | None \<Rightarrow> by_id (entry_id e) = None) \<and>
    r = (let fresh = map entry_id (filter (\<lambda>e. by_acc (entry_account e) = None) es)
         in (fold min fresh mn, fold max fresh mx,
             n_old + length (filter (\<lambda>e. by_acc (entry_account e) \<noteq> None) es)))"
  using assms
proof (induction es arbitrary: mn mx n_old)
  case (Cons e es)
  show ?case
  proof (cases "by_acc (entry_account e)")
    case None
    with Cons.IH [of n_old "min mn (entry_id e)" "max mx (entry_id e)"] Cons.prems show ?thesis
      by (auto simp: Let_def min.commute max.commute)
  next
    case (Some p)
    then obtain i info where "by_acc (entry_account e) = Some (i, info)" by (cases p) auto
    with Cons.IH [of "Suc n_old" mn mx] Cons.prems show ?thesis
      by (auto simp: Let_def add_u_ok res_simps)
  qed
qed auto

lemma fold_min_eq: "fold min xs (a::nat) = Min (insert a (set xs))"
  using Min.set_eq_fold [of a xs] by simp

lemma fold_max_eq: "fold max xs (a::nat) = Max (insert a (set xs))"
  using Max.set_eq_fold [of a xs] by simp

text \<open>A set of numbers is an interval when it is as large as the gap between its ends.\<close>

lemma contiguous_iff:
  fixes A :: "nat set"
  assumes "finite A" "A \<noteq> {}"
  shows "card A - 1 = Max A - Min A \<and> Min A = lo \<and> Suc (Max A) = hi \<longleftrightarrow> A = {lo..<hi}"
proof
  assume h: "card A - 1 = Max A - Min A \<and> Min A = lo \<and> Suc (Max A) = hi"
  have sub: "A \<subseteq> {lo..<hi}"
    using assms h by (auto simp: less_Suc_eq_le)
  have "0 < card A" using assms by (simp add: card_gt_0_iff)
  moreover have "Min A \<le> Max A" using assms by simp
  ultimately have "card A = card {lo..<hi}" using h by auto
  with sub show "A = {lo..<hi}" by (simp add: card_subset_eq)
next
  assume A: "A = {lo..<hi}"
  with assms have "lo < hi" by auto
  then have "Min A = lo" "Max A = hi - 1"
    unfolding A by (auto intro!: Min_eqI Max_eqI)
  with A \<open>lo < hi\<close> show "card A - 1 = Max A - Min A \<and> Min A = lo \<and> Suc (Max A) = hi"
    by simp
qed

text \<open>The participant ids a proposal gives to accounts that are not participants yet.\<close>

definition fresh_ids :: "threshold_parameters \<Rightarrow> threshold_parameters \<Rightarrow> nat set" where
  "fresh_ids old new = entry_id ` {e \<in> set (tp_entries new). entry_account e \<notin> tp_accounts old}"

lemma fresh_ids_less: "wf_participants (tp_participants new) \<Longrightarrow> i \<in> fresh_ids old new \<Longrightarrow>
    i < ps_next_id (tp_participants new)"
  by (auto simp: fresh_ids_def dest: wf_participantsD(3))

lemma finite_fresh_ids [simp]: "finite (fresh_ids old new)"
  by (simp add: fresh_ids_def)

lemma length_filter_old:
  assumes "wf_participants (tp_participants new)"
  shows "length (filter (\<lambda>e. entry_account e \<in> A) (tp_entries new)) = card (tp_accounts new \<inter> A)"
proof -
  have "distinct (map entry_account (filter (\<lambda>e. entry_account e \<in> A) (tp_entries new)))"
    using assms by (simp add: wf_participants_def distinct_map_filter)
  then have "length (filter (\<lambda>e. entry_account e \<in> A) (tp_entries new)) =
      card (entry_account ` set (filter (\<lambda>e. entry_account e \<in> A) (tp_entries new)))"
    using distinct_card by (metis length_map list.set_map)
  also have "entry_account ` set (filter (\<lambda>e. entry_account e \<in> A) (tp_entries new)) =
      tp_accounts new \<inter> A"
    by (auto simp: accounts_of_def)
  finally show ?thesis .
qed

lemma card_fresh_ids:
  assumes "wf_participants (tp_participants new)"
  shows "tp_len new - card (tp_accounts new \<inter> tp_accounts old) = card (fresh_ids old new)"
proof -
  let ?F = "{e \<in> set (tp_entries new). entry_account e \<notin> tp_accounts old}"
  have inj: "inj_on entry_account (set (tp_entries new))" "inj_on entry_id (set (tp_entries new))"
    using assms by (auto simp: wf_participants_def distinct_map)
  have "card (fresh_ids old new) = card ?F"
    unfolding fresh_ids_def using inj(2) by (intro card_image inj_on_subset [OF inj(2)]) auto
  also have "\<dots> = card (entry_account ` ?F)"
    using inj(1) by (intro card_image [symmetric] inj_on_subset [OF inj(1)]) auto
  also have "entry_account ` ?F = tp_accounts new - tp_accounts new \<inter> tp_accounts old"
    by (auto simp: accounts_of_def)
  also have "card \<dots> = card (tp_accounts new) - card (tp_accounts new \<inter> tp_accounts old)"
    by (rule card_Diff_subset) auto
  finally show ?thesis using assms by simp
qed

text \<open>What the two loops of the check compute for a well-formed old set.\<close>

lemma scan_proposal_eq:
  assumes wf: "wf_participants (tp_participants old)" and wn: "wf_parameters new"
    and idx: "index_old (tp_entries old) Map.empty Map.empty = (by_id, by_acc)"
  shows "scan_new by_acc by_id (tp_entries new) (u32_max, 0, 0) = Inr r \<longleftrightarrow>
    (\<forall>e \<in> set (tp_entries new).
       if entry_account e \<in> tp_accounts old then e \<in> set (tp_entries old)
       else entry_id e \<notin> ids_of (tp_participants old)) \<and>
    r = (Min (insert u32_max (fresh_ids old new)), Max (insert 0 (fresh_ids old new)),
         card (tp_accounts new \<inter> tp_accounts old))"
proof -
  note d = wf_participantsD(1,2) [OF wf]
  have id_None: "by_id i = None \<longleftrightarrow> i \<notin> ids_of (tp_participants old)" for i
    using index_old_eq(1) [OF d, of Map.empty Map.empty i] idx by (simp add: ids_of_def)
  have acc_Some: "by_acc a = Some (i, info) \<longleftrightarrow> (a, i, info) \<in> set (tp_entries old)" for a i info
    using index_old_eq(2) [OF d, of Map.empty Map.empty a i info] idx by simp
  have acc_None: "by_acc a = None \<longleftrightarrow> a \<notin> tp_accounts old" for a
  proof -
    have "by_acc a \<noteq> None \<longleftrightarrow> (\<exists>i info. by_acc a = Some (i, info))" by auto
    also have "\<dots> \<longleftrightarrow> (\<exists>i info. (a, i, info) \<in> set (tp_entries old))" by (simp only: acc_Some)
    also have "\<dots> \<longleftrightarrow> a \<in> tp_accounts old" 
      unfolding accounts_of_def image_iff by (metis fst_conv prod.collapse)
    finally show ?thesis by blast
  qed
  have len: "0 + length (tp_entries new) < 2 ^ 64"
    using wf_parametersD(6) [OF wn] by (simp add: participants_len_def)
  have coh: "(case by_acc (entry_account e) of
        Some (i, info) \<Rightarrow> entry_id e = i \<and> entry_info e = info
      | None \<Rightarrow> by_id (entry_id e) = None) \<longleftrightarrow>
      (if entry_account e \<in> tp_accounts old then e \<in> set (tp_entries old)
       else entry_id e \<notin> ids_of (tp_participants old))" for e
  proof (cases "by_acc (entry_account e)")
    case None
    with iffD1 [OF acc_None None] show ?thesis by (simp add: id_None)
  next
    case (Some p)
    then obtain i info where p: "by_acc (entry_account e) = Some (i, info)" by (cases p) auto
    then have m: "(entry_account e, i, info) \<in> set (tp_entries old)" using acc_Some by blast
    have "e \<in> set (tp_entries old) \<longleftrightarrow> entry_id e = i \<and> entry_info e = info"
      using entry_by_account [OF wf _ m, of e] m by (cases e) auto
    moreover have "entry_account e \<in> tp_accounts old"
      using m by (rule accounts_of_intro)
    ultimately show ?thesis using p by simp
  qed
  have fresh: "set (map entry_id (filter (\<lambda>e. by_acc (entry_account e) = None) (tp_entries new))) =
      fresh_ids old new"
    by (simp add: acc_None fresh_ids_def)
  have n: "length (filter (\<lambda>e. by_acc (entry_account e) \<noteq> None) (tp_entries new)) =
      card (tp_accounts new \<inter> tp_accounts old)"
    using length_filter_old [OF wf_parametersD(1) [OF wn], of "tp_accounts old"]
    by (simp add: acc_None)
  show ?thesis
    unfolding scan_new_eq [OF len] coh Let_def fold_min_eq fold_max_eq fresh n by simp
qed

lemma validate_incoming_proposal_eq:
  assumes wf: "wf_participants (tp_participants old)"
    and u: "u32_participants (tp_participants new)"
  shows "validate_incoming_proposal old new = Inr () \<longleftrightarrow>
    wf_parameters new \<and>
    (\<forall>e \<in> set (tp_entries new). entry_account e \<in> tp_accounts old \<longrightarrow> e \<in> set (tp_entries old)) \<and>
    tp_threshold old \<le> card (tp_accounts new \<inter> tp_accounts old) \<and>
    (fresh_ids old new = {} \<or>
     fresh_ids old new = {ps_next_id (tp_participants old)..<ps_next_id (tp_participants new)})"
    (is "_ \<longleftrightarrow> ?spec")
proof (cases "wf_parameters new")
  case False
  then show ?thesis
    using threshold_parameters_validate_iff [OF u]
    by (auto simp: validate_incoming_proposal_def res_simps)
next
  case True
  obtain by_id by_acc where idx: "index_old (tp_entries old) Map.empty Map.empty = (by_id, by_acc)"
    by fastforce
  let ?F = "fresh_ids old new" and ?n = "card (tp_accounts new \<inter> tp_accounts old)"
  let ?lo = "ps_next_id (tp_participants old)" and ?hi = "ps_next_id (tp_participants new)"
  let ?mn = "Min (insert u32_max ?F)" and ?mx = "Max (insert 0 ?F)"
  have v: "threshold_parameters_validate new = Inr ()"
    using threshold_parameters_validate_iff [OF u] True by simp
  have sub: "tp_len new - ?n = card ?F" and le: "?n \<le> tp_len new"
    using card_fresh_ids [OF wf_parametersD(1) [OF True], of old]
      card_mono [of "tp_accounts new" "tp_accounts new \<inter> tp_accounts old"]
      wf_parametersD(1) [OF True] by auto
  have bnd: "i < u32_max" if "i \<in> ?F" for i
    using fresh_ids_less [OF wf_parametersD(1) [OF True] that] u
    by (simp add: u32_participants_def u32_max_def)
  have ends: "?F \<noteq> {} \<Longrightarrow> ?mn = Min ?F \<and> ?mx = Max ?F"
    using bnd by (auto intro!: min_absorb2 less_imp_le simp: Min_le_iff)
  have coh: "(\<forall>e \<in> set (tp_entries new).
       if entry_account e \<in> tp_accounts old then e \<in> set (tp_entries old)
       else entry_id e \<notin> ids_of (tp_participants old)) \<longleftrightarrow>
     (\<forall>e \<in> set (tp_entries new). entry_account e \<in> tp_accounts old \<longrightarrow> e \<in> set (tp_entries old)) \<and>
     ?F \<inter> ids_of (tp_participants old) = {}"
    by (auto simp: fresh_ids_def)
  have tail: "(if 0 < card ?F then
       bind_res (sub_u (card ?F) 1) (\<lambda>m.
       bind_res (sub_u ?mx ?mn) (\<lambda>d.
       if m \<noteq> d then Inl (Err (InvalidCandidateSet NewParticipantIdsNotContiguous))
       else if ?mn \<noteq> ?lo then Inl (Err (InvalidCandidateSet NewParticipantIdsNotContiguous))
       else bind_res (add_u 32 ?mx 1) (\<lambda>next_id.
         if next_id \<noteq> ?hi then Inl (Err (InvalidCandidateSet NewParticipantIdsTooHigh))
         else Inr ())))
     else Inr ()) = Inr () \<longleftrightarrow> ?F = {} \<or> ?F = {?lo..<?hi}"
  proof (cases "?F = {}")
    case False
    then have "?mn = Min ?F" "?mx = Max ?F" "0 < card ?F" "Min ?F \<le> Max ?F"
      using ends by (simp_all add: card_gt_0_iff)
    moreover have "Suc (Max ?F) < 2 ^ 32"
      using bnd [of "Max ?F"] False by (simp add: u32_max_def)
    ultimately show ?thesis
      using False contiguous_iff [OF finite_fresh_ids False, of ?lo ?hi]
      by (auto simp: res_simps split: if_splits)
  qed simp
  show ?thesis
    using True le
    by (auto simp: validate_incoming_proposal_def v idx res_simps sub
        scan_proposal_eq [OF wf True idx] coh tail dest: ids_of_less [OF wf]
        split: if_splits)
qed

text \<open>
  C3. \<^verbatim>\<open>validate_incoming_proposal\<close> accepts a proposal exactly when the proposal's own parameters
  are valid, every current participant it keeps is kept with its participant id and info, at least
  \<open>threshold\<close> current participants are kept, and the ids of the new participants (if any) are all
  the ids from the current \<^verbatim>\<open>next_id\<close> up to the proposal's \<^verbatim>\<open>next_id\<close>.
\<close>

theorem validate_incoming_proposal_iff:
  assumes wf: "wf_participants (tp_participants old)"
    and u: "u32_participants (tp_participants new)"
  shows "validate_incoming_proposal old new = Inr () \<longleftrightarrow>
    wf_parameters new \<and>
    (\<forall>e \<in> set (tp_entries new). entry_account e \<in> tp_accounts old \<longrightarrow> e \<in> set (tp_entries old)) \<and>
    tp_threshold old \<le> card (tp_accounts new \<inter> tp_accounts old) \<and>
    (fresh_ids old new = {} \<or>
     fresh_ids old new = {ps_next_id (tp_participants old)..<ps_next_id (tp_participants new)})"
  by (rule validate_incoming_proposal_eq [OF wf u])

section \<open>Concrete data for witnesses\<close>

text \<open>Participants \<open>a\<close>, \<open>b\<close>, \<open>c\<close>, \<open>d\<close>, each with a TLS key that carries its id.\<close>

definition ex_entry :: "account_id \<Rightarrow> nat \<Rightarrow> participant_entry" where
  "ex_entry a i = (a, i, \<lparr>pi_url = a, pi_sign_pk = NearPublicKey ED25519 [of_nat i]\<rparr>)"

definition ex_abc :: threshold_parameters where
  "ex_abc = \<lparr>tp_participants = \<lparr>ps_next_id = 3,
     ps_participants = [ex_entry ''a'' 0, ex_entry ''b'' 1, ex_entry ''c'' 2]\<rparr>, tp_threshold = 2\<rparr>"

definition ex_bcd :: threshold_parameters where
  "ex_bcd = \<lparr>tp_participants = \<lparr>ps_next_id = 4,
     ps_participants = [ex_entry ''b'' 1, ex_entry ''c'' 2, ex_entry ''d'' 3]\<rparr>, tp_threshold = 2\<rparr>"

lemmas ex_params_defs = ex_entry_def ex_abc_def ex_bcd_def

lemma ex_wf: "wf_parameters ex_abc" "wf_parameters ex_bcd"
  by (simp_all add: wf_parameters_def wf_participants_def u32_participants_def
      participants_len_def ex_params_defs)

lemma ex_valid: "validate_incoming_proposal ex_abc ex_bcd = Inr ()"
  by (simp add: validate_incoming_proposal_def threshold_parameters_validate_def
      participants_validate_eq wf_participants_def participants_len_def u32_max_def
      validate_threshold_def div_ceil_def
      add_u_ok sub_u_ok mul_u_ok ex_params_defs)

theorem validate_incoming_proposal_iff_witness:
  "validate_incoming_proposal ex_abc ex_bcd = Inr () \<and> wf_parameters ex_bcd \<and>
   tp_threshold ex_abc \<le> card (tp_accounts ex_bcd \<inter> tp_accounts ex_abc) \<and>
   (fresh_ids ex_abc ex_bcd = {} \<or> fresh_ids ex_abc ex_bcd = {3..<4})"
proof -
  have "ps_next_id (tp_participants ex_abc) = 3" "ps_next_id (tp_participants ex_bcd) = 4"
    by (simp_all add: ex_params_defs)
  with ex_valid validate_incoming_proposal_iff [OF wf_parametersD(1) [OF ex_wf(1)]
      wf_parametersD(2) [OF ex_wf(2)]] show ?thesis by simp
qed

definition ex_ab :: threshold_parameters where
  "ex_ab = \<lparr>tp_participants = \<lparr>ps_next_id = 2,
     ps_participants = [ex_entry ''a'' 0, ex_entry ''b'' 1]\<rparr>, tp_threshold = 2\<rparr>"

definition ex_abd :: threshold_parameters where
  "ex_abd = \<lparr>tp_participants = \<lparr>ps_next_id = 3,
     ps_participants = [ex_entry ''a'' 0, ex_entry ''b'' 1, ex_entry ''d'' 2]\<rparr>, tp_threshold = 2\<rparr>"

text \<open>
  A participant id can be handed to another account. A proposal without new participants is
  free to choose its \<^verbatim>\<open>next_id\<close>: from \<open>a, b, c\<close> with ids 0, 1, 2 the proposal \<open>a, b\<close> with \<^verbatim>\<open>next_id\<close> 2 is
  accepted, and after it the proposal that gives id 2 to \<open>d\<close>. Insertion, by contrast, refuses every id
  below \<^verbatim>\<open>next_id\<close> as already used, and the test of the function states that \<^verbatim>\<open>next_id\<close> should only be
  one more than the largest id.
\<close>

lemma participant_id_reassigned:
  "validate_incoming_proposal ex_abc ex_ab = Inr () \<and> validate_incoming_proposal ex_ab ex_abd = Inr () \<and>
   (\<exists>c d. c \<in> set (tp_entries ex_abc) \<and> d \<in> set (tp_entries ex_abd) \<and>
      entry_id c = entry_id d \<and> entry_account c \<noteq> entry_account d)"
proof (intro conjI exI)
  show "validate_incoming_proposal ex_abc ex_ab = Inr ()" "validate_incoming_proposal ex_ab ex_abd = Inr ()"
    by (simp_all add: validate_incoming_proposal_def threshold_parameters_validate_def
        participants_validate_eq wf_participants_def participants_len_def u32_max_def
        validate_threshold_def div_ceil_def
        add_u_ok sub_u_ok mul_u_ok ex_params_defs ex_ab_def ex_abd_def)
  show "ex_entry ''c'' 2 \<in> set (tp_entries ex_abc)" "ex_entry ''d'' 2 \<in> set (tp_entries ex_abd)"
    by (simp_all add: ex_abc_def ex_abd_def)
qed (simp_all add: ex_entry_def)

end
