(* ===== verification/Votes.thy ===== *)
theory Votes
  imports Thresholds
begin

text \<open>
  Ballots. Several components of the contract keep one ballot per voter in a map and, on each
  vote, replace the voter's ballot and count the equal ones. The locale \<open>vote_ledger\<close> states that
  contract once and derives what a returned count says about the voters; it is interpreted for each
  of those components. The first is \<^verbatim>\<open>ThresholdParametersVotes\<close>
  (\<^verbatim>\<open>crates/contract/src/primitives/votes.rs\<close>), modelled here.
\<close>

section \<open>The ledger interface\<close>

locale vote_ledger =
  fixes cast :: "'voter \<Rightarrow> 'ballot \<Rightarrow> 'ledger \<Rightarrow> 'ledger \<times> nat"
    and ballot :: "'ledger \<Rightarrow> 'voter \<Rightarrow> 'ballot option"
    and wf :: "'ledger \<Rightarrow> bool"
  assumes wf_cast: "wf l \<Longrightarrow> wf (fst (cast v b l))"
    and ballot_cast: "wf l \<Longrightarrow> ballot (fst (cast v b l)) = (ballot l)(v \<mapsto> b)"
    and tally_cast: "wf l \<Longrightarrow> snd (cast v b l) = card {u. ((ballot l)(v \<mapsto> b)) u = Some b}"
    and finite_voters: "finite (dom (ballot l))"
begin

lemma finite_supporters: "finite {u. ((ballot l)(v \<mapsto> b)) u = Some b}"
proof (rule finite_subset)
  show "{u. ((ballot l)(v \<mapsto> b)) u = Some b} \<subseteq> insert v (dom (ballot l))" by auto
qed (simp add: finite_voters)

text \<open>The voter's own ballot is always counted.\<close>

lemma tally_positive: "wf l \<Longrightarrow> 0 < snd (cast v b l)"
  using finite_supporters [of l v b] by (auto simp: tally_cast card_gt_0_iff split: if_splits)

text \<open>Casting the same ballot twice changes neither the ballots nor the count.\<close>

lemma recast:
  assumes "wf l"
  shows "ballot (fst (cast v b (fst (cast v b l)))) = ballot (fst (cast v b l))"
    and "snd (cast v b (fst (cast v b l))) = snd (cast v b l)"
  using assms by (simp_all add: ballot_cast tally_cast wf_cast)

text \<open>
  When only members of \<open>V\<close> vote for a proposal, a count of \<open>card V\<close> is unanimity: every member of
  \<open>V\<close> has a ballot for the proposal.
\<close>

lemma unanimous_iff:
  assumes "wf l" "finite V" "\<And>u. ballot l u = Some b \<Longrightarrow> u \<in> V" "v \<in> V"
  shows "snd (cast v b l) = card V \<longleftrightarrow> (\<forall>u \<in> V. ballot (fst (cast v b l)) u = Some b)"
proof -
  let ?S = "{u. ((ballot l)(v \<mapsto> b)) u = Some b}"
  have "?S \<subseteq> V" using assms(3,4) by (auto split: if_splits)
  then have "card ?S = card V \<longleftrightarrow> ?S = V"
    using assms(2) card_subset_eq by blast
  also have "?S = V \<longleftrightarrow> (\<forall>u \<in> V. ((ballot l)(v \<mapsto> b)) u = Some b)"
    using \<open>?S \<subseteq> V\<close> by blast
  finally show ?thesis using assms(1) by (simp add: tally_cast ballot_cast)
qed

text \<open>
  A count of \<open>t\<close> is backed by \<open>t\<close> voters, however many of them are still entitled to vote.
\<close>

lemma tally_supporters:
  assumes "wf l"
  shows "\<exists>Q. card Q = snd (cast v b l) \<and> v \<in> Q \<and> (\<forall>u \<in> Q. ballot (fst (cast v b l)) u = Some b)"
  using assms
  by (intro exI [of _ "{u. ((ballot l)(v \<mapsto> b)) u = Some b}"]) (simp add: tally_cast ballot_cast)

end

section \<open>Votes for threshold parameters\<close>

record threshold_parameters_votes =
  tpv_proposal_by_account :: "(account_id, threshold_parameters) amap"

definition threshold_parameters_votes_default :: threshold_parameters_votes where
  "threshold_parameters_votes_default = \<lparr>tpv_proposal_by_account = []\<rparr>"

definition tpv_n_votes ::
  "threshold_parameters_votes \<Rightarrow> threshold_parameters \<Rightarrow> participants \<Rightarrow> nat" where
  "tpv_n_votes votes proposal ps =
     length (filter (\<lambda>(acc, prop).
         list_ex (\<lambda>e. acc = entry_account e) (ps_participants ps) \<and> prop = proposal)
       (tpv_proposal_by_account votes))"

definition tpv_vote ::
  "account_id \<Rightarrow> threshold_parameters \<Rightarrow> threshold_parameters_votes \<Rightarrow>
     threshold_parameters_votes \<times> nat" where
  "tpv_vote participant proposal votes =
     (let m = am_insert participant proposal (tpv_proposal_by_account votes)
      in (votes\<lparr>tpv_proposal_by_account := m\<rparr>, count_value proposal m))"

abbreviation wf_tpv :: "threshold_parameters_votes \<Rightarrow> bool" where
  "wf_tpv votes \<equiv> wf_amap (tpv_proposal_by_account votes)"

abbreviation tpv_ballot :: "threshold_parameters_votes \<Rightarrow> account_id \<Rightarrow> threshold_parameters option"
  where "tpv_ballot votes \<equiv> map_of (tpv_proposal_by_account votes)"

lemma tpv_ballot_vote: "tpv_ballot (fst (tpv_vote v b l)) = (tpv_ballot l)(v \<mapsto> b)"
  by (auto simp: tpv_vote_def Let_def)

lemma wf_tpv_default [simp]: "wf_tpv threshold_parameters_votes_default"
  by (simp add: threshold_parameters_votes_default_def)

interpretation tpv: vote_ledger tpv_vote tpv_ballot wf_tpv
proof unfold_locales
  fix l v b
  assume wf: "wf_tpv l"
  show "wf_tpv (fst (tpv_vote v b l))" "tpv_ballot (fst (tpv_vote v b l)) = (tpv_ballot l)(v \<mapsto> b)"
    using wf by (auto simp: tpv_vote_def Let_def)
  show "snd (tpv_vote v b l) = card {u. ((tpv_ballot l)(v \<mapsto> b)) u = Some b}"
    using wf count_value_eq_card [OF wf_am_insert [OF wf, of v b], of b]
    by (simp add: tpv_vote_def Let_def)
qed (simp add: finite_dom_map_of)

text \<open>The votes of the participants \<open>ps\<close> for a proposal, counted by \<^verbatim>\<open>n_votes\<close>.\<close>

lemma tpv_n_votes_eq:
  assumes "wf_tpv votes"
  shows "tpv_n_votes votes proposal ps =
    card {a \<in> accounts_of ps. tpv_ballot votes a = Some proposal}"
proof -
  have mem: "list_ex (\<lambda>e. a = entry_account e) (ps_participants ps) \<longleftrightarrow> a \<in> accounts_of ps" for a
    by simp
  show ?thesis
    unfolding tpv_n_votes_def mem length_filter_amap [OF assms]
    by (rule arg_cong [where f = card]) auto
qed

end
