(* ===== verification/Domains.thy ===== *)
theory Domains
  imports Votes
begin

text \<open>
  Domains and their registry (\<^verbatim>\<open>crates/contract/src/primitives/domain.rs\<close>): the identifiers, the
  admissible scheme and purpose pairs, the append-only registry with its \<^verbatim>\<open>next_domain_id\<close>, and the
  votes to add domains. The registry invariant is that ids increase strictly and stay below
  \<^verbatim>\<open>next_domain_id\<close>.
\<close>

section \<open>Domains\<close>

type_synonym domain_id = nat

abbreviation legacy_ecdsa_id :: domain_id where
  "legacy_ecdsa_id \<equiv> 0"

fun is_valid_scheme_for_purpose :: "domain_purpose \<Rightarrow> signature_scheme \<Rightarrow> bool" where
  "is_valid_scheme_for_purpose Sign Secp256k1 = True"
| "is_valid_scheme_for_purpose Sign V2Secp256k1 = True"
| "is_valid_scheme_for_purpose Sign Ed25519 = True"
| "is_valid_scheme_for_purpose ForeignTx Secp256k1 = True"
| "is_valid_scheme_for_purpose CKD Bls12381 = True"
| "is_valid_scheme_for_purpose _ _ = False"

record domain_config =
  dc_id :: domain_id
  dc_scheme :: signature_scheme
  dc_purpose :: domain_purpose

section \<open>The registry\<close>

record domain_registry =
  dr_domains :: "domain_config list"
  dr_next_domain_id :: nat

definition domain_registry_default :: domain_registry where
  "domain_registry_default = \<lparr>dr_domains = [], dr_next_domain_id = 0\<rparr>"

definition add_domain ::
  "domain_registry \<Rightarrow> signature_scheme \<Rightarrow> domain_purpose \<Rightarrow> (domain_registry \<times> domain_id) res" where
  "add_domain reg scheme purpose =
     (let domain = \<lparr>dc_id = dr_next_domain_id reg, dc_scheme = scheme, dc_purpose = purpose\<rparr> in
      bind_res (add_u 64 (dr_next_domain_id reg) 1) (\<lambda>next_id.
      Inr (reg\<lparr>dr_next_domain_id := next_id, dr_domains := dr_domains reg @ [domain]\<rparr>, dc_id domain)))"

definition new_single_ecdsa_key_from_legacy :: "domain_registry res" where
  "new_single_ecdsa_key_from_legacy =
     bind_res (add_domain domain_registry_default Secp256k1 Sign) (\<lambda>(reg, _). Inr reg)"

fun add_domains :: "domain_registry \<Rightarrow> domain_config list \<Rightarrow> domain_registry res" where
  "add_domains reg [] = Inr reg"
| "add_domains reg (d # ds) =
     bind_res (add_domain reg (dc_scheme d) (dc_purpose d)) (\<lambda>(reg', new_domain_id).
     if new_domain_id \<noteq> dc_id d
     then Inl (Err (DomainError (NewDomainIdsNotContiguous new_domain_id)))
     else add_domains reg' ds)"

definition retain_domains :: "domain_registry \<Rightarrow> nat \<Rightarrow> domain_registry" where
  "retain_domains reg num_domains = reg\<lparr>dr_domains := take num_domains (dr_domains reg)\<rparr>"

definition get_domain_by_index :: "domain_registry \<Rightarrow> nat \<Rightarrow> domain_config option" where
  "get_domain_by_index reg i = (if i < length (dr_domains reg) then Some (dr_domains reg ! i) else None)"

definition get_domain_by_domain_id :: "domain_registry \<Rightarrow> domain_id \<Rightarrow> domain_config option" where
  "get_domain_by_domain_id reg i = find (\<lambda>d. dc_id d = i) (dr_domains reg)"

definition most_recent_domain_for_protocol ::
  "domain_registry \<Rightarrow> signature_scheme \<Rightarrow> domain_id option" where
  "most_recent_domain_for_protocol reg scheme =
     map_option dc_id (find (\<lambda>d. dc_scheme d = scheme) (rev (dr_domains reg)))"

text \<open>The loop over the pairs of neighbours of \<^verbatim>\<open>from_raw_validated\<close>.\<close>

fun neighbours_increase :: "(domain_config \<times> domain_config) list \<Rightarrow> unit res" where
  "neighbours_increase [] = Inr ()"
| "neighbours_increase ((left, right) # ps) =
     (if dc_id right \<le> dc_id left then Inl (Err (DomainError InvalidDomains))
      else neighbours_increase ps)"

definition from_raw_validated :: "domain_config list \<Rightarrow> nat \<Rightarrow> domain_registry res" where
  "from_raw_validated domains next_domain_id =
     (let registry = \<lparr>dr_domains = domains, dr_next_domain_id = next_domain_id\<rparr> in
      bind_res (neighbours_increase (zip domains (drop 1 domains))) (\<lambda>_.
      if domains \<noteq> [] \<and> next_domain_id \<le> dc_id (last domains)
      then Inl (Err (DomainError InvalidDomains))
      else Inr registry))"

subsection \<open>The registry invariant\<close>

abbreviation domain_ids :: "domain_config list \<Rightarrow> domain_id list" where
  "domain_ids ds \<equiv> map dc_id ds"

definition wf_registry :: "domain_registry \<Rightarrow> bool" where
  "wf_registry reg \<longleftrightarrow> sorted_wrt (<) (domain_ids (dr_domains reg)) \<and>
     (\<forall>d \<in> set (dr_domains reg). dc_id d < dr_next_domain_id reg) \<and>
     dr_next_domain_id reg < 2 ^ 64"

lemma wf_registryD:
  assumes "wf_registry reg"
  shows "distinct (domain_ids (dr_domains reg))"
    and "d \<in> set (dr_domains reg) \<Longrightarrow> dc_id d < dr_next_domain_id reg"
  using assms by (auto simp: wf_registry_def strict_sorted_iff)

lemma wf_registry_default: "wf_registry domain_registry_default"
  by (simp add: wf_registry_def domain_registry_default_def)

lemma add_domain_wf:
  assumes "wf_registry reg" "add_domain reg s p = Inr (reg', i)"
  shows "wf_registry reg'"
  using assms
  by (auto simp: add_domain_def wf_registry_def sorted_wrt_append res_simps Let_def less_Suc_eq)

lemma new_single_ecdsa_key_from_legacy_eq:
  "new_single_ecdsa_key_from_legacy =
     Inr \<lparr>dr_domains = [\<lparr>dc_id = legacy_ecdsa_id, dc_scheme = Secp256k1, dc_purpose = Sign\<rparr>],
          dr_next_domain_id = 1\<rparr>"
  by (simp add: new_single_ecdsa_key_from_legacy_def add_domain_def domain_registry_default_def
      add_u_ok)

text \<open>
  \<^verbatim>\<open>add_domains\<close> appends the given domains exactly when their ids count up from \<^verbatim>\<open>next_domain_id\<close>.
\<close>

lemma add_domains_eq:
  assumes "dr_next_domain_id reg < 2 ^ 64"
  shows "add_domains reg ds = Inr reg' \<longleftrightarrow>
    domain_ids ds = [dr_next_domain_id reg ..< dr_next_domain_id reg + length ds] \<and>
    dr_next_domain_id reg + length ds < 2 ^ 64 \<and>
    reg' = \<lparr>dr_domains = dr_domains reg @ ds, dr_next_domain_id = dr_next_domain_id reg + length ds\<rparr>"
  using assms
proof (induction reg ds rule: add_domains.induct)
  case (2 reg d ds)
  let ?n = "dr_next_domain_id reg"
  show ?case
  proof (cases "Suc ?n < 2 ^ 64 \<and> dc_id d = ?n")
    case False
    then show ?thesis by (auto simp: add_domain_def res_simps upt_conv_Cons simp del: upt_Suc)
  next
    case True
    have d: "\<lparr>dc_id = ?n, dc_scheme = dc_scheme d, dc_purpose = dc_purpose d\<rparr> = d"
      using True by simp
    have "add_domain reg (dc_scheme d) (dc_purpose d) =
        Inr (reg\<lparr>dr_next_domain_id := Suc ?n, dr_domains := dr_domains reg @ [d]\<rparr>, ?n)"
      using True by (simp add: add_domain_def add_u_ok d)
    moreover have "add_domains (reg\<lparr>dr_next_domain_id := Suc ?n,
          dr_domains := dr_domains reg @ [d]\<rparr>) ds = Inr reg' \<longleftrightarrow>
        domain_ids ds = [Suc ?n ..< Suc ?n + length ds] \<and> Suc ?n + length ds < 2 ^ 64 \<and>
        reg' = \<lparr>dr_domains = (dr_domains reg @ [d]) @ ds,
                dr_next_domain_id = Suc ?n + length ds\<rparr>"
      using True 2(1) [of ?n "reg\<lparr>dr_next_domain_id := Suc ?n, dr_domains := dr_domains reg @ [d]\<rparr>"]
      by (simp del: upt_Suc)
    ultimately show ?thesis using True by (simp add: upt_conv_Cons del: upt_Suc)
  qed
qed auto

lemma add_domains_wf:
  assumes "wf_registry reg" "add_domains reg ds = Inr reg'"
  shows "wf_registry reg'"
proof -
  have n: "dr_next_domain_id reg < 2 ^ 64" using assms(1) by (simp add: wf_registry_def)
  from assms(2) have ids: "domain_ids ds = [dr_next_domain_id reg ..< dr_next_domain_id reg + length ds]"
    and r: "dr_next_domain_id reg + length ds < 2 ^ 64"
    "reg' = \<lparr>dr_domains = dr_domains reg @ ds, dr_next_domain_id = dr_next_domain_id reg + length ds\<rparr>"
    by (auto simp: add_domains_eq [OF n])
  have "dr_next_domain_id reg \<le> dc_id d \<and> dc_id d < dr_next_domain_id reg + length ds"
    if "d \<in> set ds" for d
    using imageI [OF that, of dc_id] arg_cong [OF ids, of set] by auto
  with assms(1) r show ?thesis
    by (fastforce simp: wf_registry_def sorted_wrt_append ids)
qed

lemma retain_domains_wf: "wf_registry reg \<Longrightarrow> wf_registry (retain_domains reg n)"
  by (auto simp: wf_registry_def retain_domains_def sorted_wrt_take take_map [symmetric]
      dest: in_set_takeD)

lemma neighbours_increase_eq:
  "neighbours_increase (zip ds (drop (Suc 0) ds)) =
     (if sorted_wrt (<) (domain_ids ds) then Inr () else Inl (Err (DomainError InvalidDomains)))"
proof (induction ds)
  case (Cons d ds)
  then show ?case
    by (cases ds) (auto simp: not_le intro: less_trans)
qed simp

lemma from_raw_validated_eq:
  assumes "next_domain_id < 2 ^ 64"
  shows "from_raw_validated ds next_domain_id =
    (if wf_registry \<lparr>dr_domains = ds, dr_next_domain_id = next_domain_id\<rparr>
     then Inr \<lparr>dr_domains = ds, dr_next_domain_id = next_domain_id\<rparr>
     else Inl (Err (DomainError InvalidDomains)))"
proof -
  have "(\<forall>d \<in> set ds. dc_id d < next_domain_id) \<longleftrightarrow> ds = [] \<or> dc_id (last ds) < next_domain_id"
    if "sorted_wrt (<) (domain_ids ds)"
    using that by (cases ds rule: rev_cases) (auto simp: sorted_wrt_append)
  then show ?thesis
    using assms
    by (auto simp: from_raw_validated_def neighbours_increase_eq wf_registry_def not_le)
qed

lemma get_domain_by_domain_id_wf:
  assumes "wf_registry reg"
  shows "get_domain_by_domain_id reg i = Some d \<longleftrightarrow> d \<in> set (dr_domains reg) \<and> dc_id d = i"
proof
  assume "d \<in> set (dr_domains reg) \<and> dc_id d = i"
  then show "get_domain_by_domain_id reg i = Some d"
    using find_unique [OF wf_registryD(1) [OF assms], of d] by (auto simp: get_domain_by_domain_id_def)
qed (auto simp: get_domain_by_domain_id_def dest: find_Some_in)

subsection \<open>Histories of a registry\<close>

text \<open>The registries that sequences of \<^verbatim>\<open>add_domains\<close> and \<^verbatim>\<open>retain_domains\<close> calls produce.\<close>

inductive registry_history :: "domain_registry \<Rightarrow> bool" where
  history_empty: "registry_history domain_registry_default"
| history_add: "registry_history reg \<Longrightarrow> add_domains reg ds = Inr reg' \<Longrightarrow> registry_history reg'"
| history_retain: "registry_history reg \<Longrightarrow> registry_history (retain_domains reg n)"

lemma registry_history_wf: "registry_history reg \<Longrightarrow> wf_registry reg"
  by (induction rule: registry_history.induct)
    (auto intro: wf_registry_default add_domains_wf retain_domains_wf)

lemma wf_registry_history:
  "wf_registry \<lparr>dr_domains = ds, dr_next_domain_id = n\<rparr> \<Longrightarrow>
     registry_history \<lparr>dr_domains = ds, dr_next_domain_id = n\<rparr>"
proof (induction n arbitrary: ds)
  case 0
  then show ?case
    using history_empty by (simp add: wf_registry_def domain_registry_default_def)
next
  case (Suc n)
  show ?case
  proof (cases "\<exists>d \<in> set ds. dc_id d = n")
    case True
    then obtain ds' d where ds: "ds = ds' @ [d]" and d: "dc_id d = n"
    proof (cases ds rule: rev_cases)
      case (snoc ds' d)
      with True Suc.prems have "dc_id d = n"
        by (fastforce simp: wf_registry_def sorted_wrt_append)
      with snoc that show ?thesis by blast
    qed simp
    have "registry_history \<lparr>dr_domains = ds', dr_next_domain_id = n\<rparr>"
      using Suc.prems ds d by (intro Suc.IH) (auto simp: wf_registry_def sorted_wrt_append)
    then show ?thesis
      by (rule history_add [where ds = "[d]"])
        (use Suc.prems ds d in \<open>auto simp: add_domains_eq wf_registry_def simp del: add_domains.simps\<close>)
  next
    case False
    let ?d = "\<lparr>dc_id = n, dc_scheme = Secp256k1, dc_purpose = Sign\<rparr>"
    have "registry_history \<lparr>dr_domains = ds, dr_next_domain_id = n\<rparr>"
      using Suc.prems False by (intro Suc.IH) (fastforce simp: wf_registry_def less_Suc_eq)
    then have "registry_history \<lparr>dr_domains = ds @ [?d], dr_next_domain_id = Suc n\<rparr>"
      by (rule history_add [where ds = "[?d]"])
        (use Suc.prems in \<open>auto simp: add_domains_eq wf_registry_def simp del: add_domains.simps\<close>)
    then show ?thesis
      using history_retain [of _ "length ds"] by (fastforce simp: retain_domains_def)
  qed
qed

text \<open>
  C4. \<^verbatim>\<open>DomainRegistry::from_raw_validated\<close> accepts exactly the registries that some sequence of
  \<^verbatim>\<open>add_domains\<close> and \<^verbatim>\<open>retain_domains\<close> calls produces from the empty registry, as its documentation
  promises; every other pair of fields is refused with \<^verbatim>\<open>InvalidDomains\<close>.
\<close>

theorem from_raw_validated_histories:
  assumes "next_domain_id < 2 ^ 64"
  shows "from_raw_validated ds next_domain_id =
    (if registry_history \<lparr>dr_domains = ds, dr_next_domain_id = next_domain_id\<rparr>
     then Inr \<lparr>dr_domains = ds, dr_next_domain_id = next_domain_id\<rparr>
     else Inl (Err (DomainError InvalidDomains)))"
  using from_raw_validated_eq [OF assms] registry_history_wf wf_registry_history by auto

definition ex_domain :: "nat \<Rightarrow> domain_config" where
  "ex_domain i = \<lparr>dc_id = i, dc_scheme = Secp256k1, dc_purpose = Sign\<rparr>"

theorem from_raw_validated_histories_witness:
  "registry_history \<lparr>dr_domains = [ex_domain 0, ex_domain 3], dr_next_domain_id = 5\<rparr> \<and>
   \<not> registry_history \<lparr>dr_domains = [ex_domain 3, ex_domain 0], dr_next_domain_id = 5\<rparr>"
proof -
  have "from_raw_validated [ex_domain 0, ex_domain 3] 5 =
      Inr \<lparr>dr_domains = [ex_domain 0, ex_domain 3], dr_next_domain_id = 5\<rparr>"
    "from_raw_validated [ex_domain 3, ex_domain 0] 5 = Inl (Err (DomainError InvalidDomains))"
    by (simp_all add: from_raw_validated_def ex_domain_def)
  with from_raw_validated_histories [of 5 "[ex_domain 0, ex_domain 3]"]
    from_raw_validated_histories [of 5 "[ex_domain 3, ex_domain 0]"]
  show ?thesis by (simp split: if_splits)
qed

section \<open>Votes to add domains\<close>

record add_domains_votes =
  adv_proposal_by_account :: "(nat, domain_config list) amap"

definition add_domains_votes_default :: add_domains_votes where
  "add_domains_votes_default = \<lparr>adv_proposal_by_account = []\<rparr>"

definition adv_vote ::
  "nat \<Rightarrow> domain_config list \<Rightarrow> add_domains_votes \<Rightarrow> add_domains_votes \<times> nat" where
  "adv_vote participant proposal votes =
     (let m = am_insert participant proposal (adv_proposal_by_account votes)
      in (votes\<lparr>adv_proposal_by_account := m\<rparr>, count_value proposal m))"

definition adv_get_remaining_votes :: "add_domains_votes \<Rightarrow> participants \<Rightarrow> add_domains_votes" where
  "adv_get_remaining_votes votes ps =
     \<lparr>adv_proposal_by_account =
        filter (\<lambda>(participant_id, _). is_participant_given_participant_id ps participant_id)
          (adv_proposal_by_account votes)\<rparr>"

abbreviation wf_adv :: "add_domains_votes \<Rightarrow> bool" where
  "wf_adv votes \<equiv> wf_amap (adv_proposal_by_account votes)"

abbreviation adv_ballot :: "add_domains_votes \<Rightarrow> nat \<Rightarrow> domain_config list option" where
  "adv_ballot votes \<equiv> map_of (adv_proposal_by_account votes)"

interpretation adv: vote_ledger adv_vote adv_ballot wf_adv
proof unfold_locales
  fix l v b
  assume wf: "wf_adv l"
  show "wf_adv (fst (adv_vote v b l))" "adv_ballot (fst (adv_vote v b l)) = (adv_ballot l)(v \<mapsto> b)"
    using wf by (auto simp: adv_vote_def Let_def)
  show "snd (adv_vote v b l) = card {u. ((adv_ballot l)(v \<mapsto> b)) u = Some b}"
    using count_value_eq_card [OF wf_am_insert [OF wf, of v b], of b]
    by (simp add: adv_vote_def Let_def)
qed (simp add: finite_dom_map_of)

lemma wf_adv_default [simp]: "wf_adv add_domains_votes_default"
  by (simp add: add_domains_votes_default_def)

lemma adv_get_remaining_votes_wf [simp]:
  "wf_adv votes \<Longrightarrow> wf_adv (adv_get_remaining_votes votes ps)"
  by (simp add: adv_get_remaining_votes_def distinct_map_filter)

lemma adv_get_remaining_votes_dom:
  "dom (adv_ballot (adv_get_remaining_votes votes ps)) \<subseteq> ids_of ps"
  by (auto simp: adv_get_remaining_votes_def dom_map_of_conv_image_fst)

end
