(* ===== verification/Crypto.thy ===== *)
theory Crypto
  imports Host
begin

text \<open>
  Keys, signatures and key derivation: \<^verbatim>\<open>crates/contract/src/crypto_shared\<close>, the conversions of
  \<^verbatim>\<open>crates/near-mpc-crypto-types\<close> and \<^verbatim>\<open>crates/near-mpc-signature-verifier\<close>.

  The curve and hash functions come from third-party crates and from the host. They are the fields
  of the record \<open>crypto\<close>, an argument of every definition that uses them; nothing is assumed of
  them beyond the hypotheses a lemma states. A curve point is represented by its encoding.
\<close>

section \<open>Third-party functions\<close>

datatype edwards_point = EdwardsPoint (compress: "byte list")

datatype k256_point = K256Point (k256_encoding: "byte list")

text \<open>
  \<open>cr_k256_decode\<close> is \<^verbatim>\<open>EncodedPoint::from_bytes\<close> followed by \<^verbatim>\<open>PublicKey::from_encoded_point\<close>,
  \<open>cr_k256_encode\<close> the uncompressed SEC1 encoding, \<open>cr_k256_is_identity\<close> the condition under which
  \<^verbatim>\<open>PublicKey::try_from(affine)\<close> fails.
\<close>

record crypto =
  cr_sha3_256 :: "string \<Rightarrow> byte list"
  cr_edwards_from_bytes :: "byte list \<Rightarrow> edwards_point option"
  cr_edwards_add :: "edwards_point \<Rightarrow> edwards_point \<Rightarrow> edwards_point"
  cr_edwards_base_mul :: "nat \<Rightarrow> edwards_point"
  cr_edwards_scalar_mod_order :: "byte list \<Rightarrow> nat"
  cr_k256_scalar_from_repr :: "byte list \<Rightarrow> nat option"
  cr_k256_decode :: "byte list \<Rightarrow> k256_point option"
  cr_k256_encode :: "k256_point \<Rightarrow> byte list"
  cr_k256_base_mul :: "nat \<Rightarrow> k256_point"
  cr_k256_add :: "k256_point \<Rightarrow> k256_point \<Rightarrow> k256_point"
  cr_k256_is_identity :: "k256_point \<Rightarrow> bool"
  cr_ecrecover :: "byte list \<Rightarrow> byte list \<Rightarrow> nat \<Rightarrow> bool \<Rightarrow> byte list option"
  cr_ed25519_verify :: "byte list \<Rightarrow> byte list \<Rightarrow> byte list \<Rightarrow> bool"

section \<open>Public keys\<close>

datatype dto_public_key =
  DtoSecp256k1 "byte list" | DtoEd25519 "byte list" | DtoBls12381 "byte list"

datatype public_key_extended =
  PkSecp256k1 near_public_key
| PkEd25519 near_public_key edwards_point
| PkBls12381 dto_public_key

datatype public_key_conversion_error = PublicKeyLengthMalformed | FailedDecompressingToEdwardsPoint

datatype crypto_conversion_error = UnsupportedCurve | InvalidPublicKey

abbreviation SECP256K1_PUBLIC_KEY_SIZE :: nat where
  "SECP256K1_PUBLIC_KEY_SIZE \<equiv> 64"

abbreviation ED25519_PUBLIC_KEY_SIZE :: nat where
  "ED25519_PUBLIC_KEY_SIZE \<equiv> 32"

text \<open>\<^verbatim>\<open>bytes.copy_from_slice(..)\<close> panics when the lengths differ.\<close>

definition copy_from_slice :: "nat \<Rightarrow> byte list \<Rightarrow> byte list res" where
  "copy_from_slice n bs = (if length bs = n then Inr bs else Inl (Panic IndexOutOfBounds))"

definition dto_of_near :: "near_public_key \<Rightarrow> dto_public_key res" where
  "dto_of_near pk = (case curve_type_of pk of
       SECP256K1 \<Rightarrow> bind_res (copy_from_slice SECP256K1_PUBLIC_KEY_SIZE (key_data pk)) (Inr \<circ> DtoSecp256k1)
     | ED25519 \<Rightarrow> bind_res (copy_from_slice ED25519_PUBLIC_KEY_SIZE (key_data pk)) (Inr \<circ> DtoEd25519))"

definition near_of_secp256k1 :: "byte list \<Rightarrow> near_public_key" where
  "near_of_secp256k1 bs = NearPublicKey SECP256K1 bs"

definition near_of_ed25519 :: "byte list \<Rightarrow> near_public_key" where
  "near_of_ed25519 bs = NearPublicKey ED25519 bs"

text \<open>\<^verbatim>\<open>Secp256k1PublicKey::try_from(&near_public_key)\<close> with the \<^verbatim>\<open>expect\<close> of its callers.\<close>

definition secp256k1_of_near_expect :: "near_public_key \<Rightarrow> byte list res" where
  "secp256k1_of_near_expect pk = (case curve_type_of pk of
       SECP256K1 \<Rightarrow> copy_from_slice SECP256K1_PUBLIC_KEY_SIZE (key_data pk)
     | ED25519 \<Rightarrow> Inl (Panic UnwrapFailed))"

definition k256_of_secp256k1 :: "crypto \<Rightarrow> byte list \<Rightarrow> crypto_conversion_error + k256_point" where
  "k256_of_secp256k1 cr bs = ok_or (cr_k256_decode cr (4 # bs)) InvalidPublicKey"

definition secp256k1_of_k256 :: "crypto \<Rightarrow> k256_point \<Rightarrow> byte list" where
  "secp256k1_of_k256 cr p = drop 1 (cr_k256_encode cr p)"

definition near_of_extended :: "public_key_extended \<Rightarrow> near_public_key res" where
  "near_of_extended pk = (case pk of
       PkSecp256k1 near \<Rightarrow> Inr near
     | PkEd25519 near _ \<Rightarrow> Inr near
     | PkBls12381 _ \<Rightarrow> Inl (Err (ConversionError DataConversion)))"

definition dto_of_extended :: "public_key_extended \<Rightarrow> dto_public_key res" where
  "dto_of_extended pk = (case pk of
       PkSecp256k1 near \<Rightarrow> dto_of_near near
     | PkEd25519 near _ \<Rightarrow> dto_of_near near
     | PkBls12381 public_key \<Rightarrow> Inr public_key)"

definition extended_of_near ::
  "crypto \<Rightarrow> near_public_key \<Rightarrow> public_key_conversion_error + public_key_extended" where
  "extended_of_near cr near = (case curve_type_of near of
       ED25519 \<Rightarrow>
         bind_res (ensure (length (key_data near) = 32) PublicKeyLengthMalformed) (\<lambda>_.
         bind_res (ok_or (cr_edwards_from_bytes cr (key_data near)) FailedDecompressingToEdwardsPoint) (\<lambda>p.
         Inr (PkEd25519 near p)))
     | SECP256K1 \<Rightarrow> Inr (PkSecp256k1 near))"

definition extended_of_dto ::
  "crypto \<Rightarrow> dto_public_key \<Rightarrow> public_key_conversion_error + public_key_extended" where
  "extended_of_dto cr pk = (case pk of
       DtoEd25519 inner \<Rightarrow>
         let near = near_of_ed25519 inner in
         bind_res (ensure (length (key_data near) = 32) PublicKeyLengthMalformed) (\<lambda>_.
         bind_res (ok_or (cr_edwards_from_bytes cr (key_data near)) FailedDecompressingToEdwardsPoint) (\<lambda>p.
         Inr (PkEd25519 near p)))
     | DtoSecp256k1 inner \<Rightarrow> Inr (PkSecp256k1 (near_of_secp256k1 inner))
     | DtoBls12381 inner \<Rightarrow> Inr (PkBls12381 (DtoBls12381 inner)))"

section \<open>Key derivation\<close>

type_synonym tweak = "byte list"

definition TWEAK_DERIVATION_PREFIX :: string where
  "TWEAK_DERIVATION_PREFIX = ''near-mpc-recovery v0.1.0 epsilon derivation:''"

definition APP_ID_DERIVATION_PREFIX :: string where
  "APP_ID_DERIVATION_PREFIX = ''near-mpc v0.1.0 app_id derivation:''"

definition derivation_path :: "string \<Rightarrow> account_id \<Rightarrow> string \<Rightarrow> string" where
  "derivation_path prefix predecessor_id path = prefix @ predecessor_id @ '','' @ path"

definition derive_from_path :: "crypto \<Rightarrow> string \<Rightarrow> account_id \<Rightarrow> string \<Rightarrow> byte list" where
  "derive_from_path cr prefix predecessor_id path =
     cr_sha3_256 cr (derivation_path prefix predecessor_id path)"

definition derive_tweak :: "crypto \<Rightarrow> account_id \<Rightarrow> string \<Rightarrow> tweak" where
  "derive_tweak cr predecessor_id path =
     derive_from_path cr TWEAK_DERIVATION_PREFIX predecessor_id path"

definition derive_app_id :: "crypto \<Rightarrow> account_id \<Rightarrow> string \<Rightarrow> byte list" where
  "derive_app_id cr predecessor_id path =
     derive_from_path cr APP_ID_DERIVATION_PREFIX predecessor_id path"

datatype tweak_error = TweakNotOnCurve

definition derive_key_secp256k1 :: "crypto \<Rightarrow> k256_point \<Rightarrow> tweak \<Rightarrow> tweak_error + byte list" where
  "derive_key_secp256k1 cr public_key tweak =
     bind_res (ok_or (cr_k256_scalar_from_repr cr tweak) TweakNotOnCurve) (\<lambda>t.
     let derived = cr_k256_add cr (cr_k256_base_mul cr t) public_key in
     if cr_k256_is_identity cr derived then Inl TweakNotOnCurve
     else Inr (secp256k1_of_k256 cr derived))"

definition derive_public_key_edwards_point_ed25519 ::
  "crypto \<Rightarrow> edwards_point \<Rightarrow> tweak \<Rightarrow> edwards_point" where
  "derive_public_key_edwards_point_ed25519 cr public_key tweak =
     cr_edwards_add cr public_key (cr_edwards_base_mul cr (cr_edwards_scalar_mod_order cr tweak))"

section \<open>Signatures\<close>

record k256_signature =
  big_r :: "byte list"
  sig_s :: "byte list"
  recovery_id :: nat

datatype signature_response = SigSecp256k1 k256_signature | SigEd25519 "byte list"

definition to_ecrecover_bytes :: "k256_signature \<Rightarrow> byte list" where
  "to_ecrecover_bytes sig = drop 1 (big_r sig) @ sig_s sig"

datatype verification_error =
  VerInvalidSignature | FailedToRecoverSignature | RecoveredPkDoesNotMatchExpectedKey

definition verify_ecdsa_signature ::
  "crypto \<Rightarrow> k256_signature \<Rightarrow> byte list \<Rightarrow> byte list \<Rightarrow> verification_error + unit" where
  "verify_ecdsa_signature cr sig message public_key =
     bind_res (ok_or (cr_ecrecover cr message (to_ecrecover_bytes sig) (recovery_id sig) True)
       FailedToRecoverSignature) (\<lambda>recovered.
     if recovered \<noteq> public_key then Inl RecoveredPkDoesNotMatchExpectedKey else Inr ())"

definition verify_eddsa_signature ::
  "crypto \<Rightarrow> byte list \<Rightarrow> byte list \<Rightarrow> byte list \<Rightarrow> verification_error + unit" where
  "verify_eddsa_signature cr sig message public_key =
     (if cr_ed25519_verify cr sig message public_key then Inr () else Inl VerInvalidSignature)"

lemma verify_ecdsa_ok_iff: "is_ok (verify_ecdsa_signature cr sig m pk) \<longleftrightarrow>
    cr_ecrecover cr m (to_ecrecover_bytes sig) (recovery_id sig) True = Some pk"
  by (auto simp: verify_ecdsa_signature_def is_ok_iff res_simps split: if_splits)

lemma verify_eddsa_ok_iff: "is_ok (verify_eddsa_signature cr sig m pk) \<longleftrightarrow> cr_ed25519_verify cr sig m pk"
  by (simp add: verify_eddsa_signature_def)

section \<open>Conversions\<close>

text \<open>The byte arrays of a \<^verbatim>\<open>dtos::PublicKey\<close> have the size of their type.\<close>

fun sized_dto :: "dto_public_key \<Rightarrow> bool" where
  "sized_dto (DtoSecp256k1 bs) = (length bs = 64)"
| "sized_dto (DtoEd25519 bs) = (length bs = 32)"
| "sized_dto (DtoBls12381 bs) = (length bs = 96)"

text \<open>The invariant the comment on \<^verbatim>\<open>PublicKeyExtended::Ed25519\<close> states.\<close>

fun wf_extended :: "crypto \<Rightarrow> public_key_extended \<Rightarrow> bool" where
  "wf_extended cr (PkSecp256k1 near) = (curve_type_of near = SECP256K1 \<and> length (key_data near) = 64)"
| "wf_extended cr (PkEd25519 near p) =
     (curve_type_of near = ED25519 \<and> length (key_data near) = 32 \<and>
      cr_edwards_from_bytes cr (key_data near) = Some p)"
| "wf_extended cr (PkBls12381 pk) = (\<exists>bs. pk = DtoBls12381 bs \<and> length bs = 96)"

lemmas conversion_defs = extended_of_dto_def extended_of_near_def dto_of_extended_def dto_of_near_def
  near_of_extended_def near_of_ed25519_def near_of_secp256k1_def copy_from_slice_def
 

lemma extended_of_dto_wf:
  "sized_dto pk \<Longrightarrow> extended_of_dto cr pk = Inr e \<Longrightarrow> wf_extended cr e \<and> dto_of_extended e = Inr pk"
  by (cases pk) (auto simp: conversion_defs res_simps)

lemma dto_of_extended_inverse:
  "wf_extended cr e \<Longrightarrow> dto_of_extended e = Inr pk \<Longrightarrow> sized_dto pk \<and> extended_of_dto cr pk = Inr e"
  by (cases e; cases "case e of PkSecp256k1 near \<Rightarrow> near | PkEd25519 near _ \<Rightarrow> near")
    (auto simp: conversion_defs)

text \<open>A small instance of the third-party functions, to evaluate definitions on.\<close>

definition toy_crypto :: crypto where
  "toy_crypto =
     \<lparr>cr_sha3_256 = map of_char,
      cr_edwards_from_bytes = (\<lambda>bs. if hd bs < 128 then Some (EdwardsPoint bs) else None),
      cr_edwards_add = (\<lambda>p q. EdwardsPoint (map2 (+) (compress p) (compress q))),
      cr_edwards_base_mul = (\<lambda>n. EdwardsPoint (replicate 32 (of_nat n))),
      cr_edwards_scalar_mod_order = (\<lambda>bs. length bs),
      cr_k256_scalar_from_repr = (\<lambda>bs. if bs = [] then None else Some (unat (hd bs))),
      cr_k256_decode = (\<lambda>bs. Some (K256Point (tl bs))),
      cr_k256_encode = (\<lambda>p. 4 # k256_encoding p),
      cr_k256_base_mul = (\<lambda>n. K256Point (replicate 64 (of_nat n))),
      cr_k256_add = (\<lambda>p q. K256Point (map2 (+) (k256_encoding p) (k256_encoding q))),
      cr_k256_is_identity = (\<lambda>p. k256_encoding p = replicate 64 0),
      cr_ecrecover = (\<lambda>m sig i flag. Some (take 64 sig)),
      cr_ed25519_verify = (\<lambda>sig m pk. sig = m @ pk)\<rparr>"

text \<open>
  C5. The conversions between the wire format of a public key and the stored \<^verbatim>\<open>PublicKeyExtended\<close>
  are inverse to each other: a key of the right size converts to \<open>e\<close> exactly when \<open>e\<close> satisfies the
  documented invariant (its Edwards point is the decompressed form of the compressed key) and
  converts back to that key.
\<close>

theorem extended_key_roundtrip:
  assumes "sized_dto pk"
  shows "extended_of_dto cr pk = Inr e \<longleftrightarrow> wf_extended cr e \<and> dto_of_extended e = Inr pk"
  using extended_of_dto_wf [OF assms] dto_of_extended_inverse by blast

theorem extended_key_roundtrip_witness:
  "dto_of_extended (PkEd25519 (NearPublicKey ED25519 (replicate 32 7)) (EdwardsPoint (replicate 32 7))) =
     Inr (DtoEd25519 (replicate 32 7))"
  using extended_key_roundtrip [of "DtoEd25519 (replicate 32 7)" toy_crypto
      "PkEd25519 (NearPublicKey ED25519 (replicate 32 7)) (EdwardsPoint (replicate 32 7))"]
  by (simp add: extended_of_dto_def near_of_ed25519_def toy_crypto_def)

section \<open>Derivation separates accounts and paths\<close>

lemma append_comma_inject:
  "CHR '','' \<notin> set a \<Longrightarrow> CHR '','' \<notin> set b \<Longrightarrow> a @ '','' @ p = b @ '','' @ q \<Longrightarrow> a = b \<and> p = q"
proof (induction a arbitrary: b)
  case Nil
  then show ?case by (cases b) auto
next
  case (Cons x a)
  then show ?case by (cases b) auto
qed

lemma derivation_path_inject:
  assumes "CHR '','' \<notin> set a" "CHR '','' \<notin> set b"
  shows "derivation_path prefix a p = derivation_path prefix b q \<longleftrightarrow> a = b \<and> p = q"
  using append_comma_inject [OF assms, of p q] by (auto simp: derivation_path_def)

lemma derivation_prefixes_differ:
  "derivation_path TWEAK_DERIVATION_PREFIX a p \<noteq> derivation_path APP_ID_DERIVATION_PREFIX b q"
  by (simp add: derivation_path_def TWEAK_DERIVATION_PREFIX_def APP_ID_DERIVATION_PREFIX_def)

text \<open>
  C6. Key derivation separates its users. Where the hash does not collide on the inputs at hand,
  two derivations of a tweak agree only for the same account and the same path (account ids contain
  no comma), and a tweak never equals an app id, whatever the accounts and paths.
\<close>

theorem derive_tweak_separates:
  assumes "CHR '','' \<notin> set a" "CHR '','' \<notin> set b"
    and "inj_on (cr_sha3_256 cr)
      {derivation_path TWEAK_DERIVATION_PREFIX a p, derivation_path TWEAK_DERIVATION_PREFIX b q,
       derivation_path APP_ID_DERIVATION_PREFIX b q}"
  shows "(derive_tweak cr a p = derive_tweak cr b q \<longleftrightarrow> a = b \<and> p = q) \<and>
    derive_tweak cr a p \<noteq> derive_app_id cr b q"
  using assms(3) derivation_path_inject [OF assms(1,2), of TWEAK_DERIVATION_PREFIX p q]
    derivation_prefixes_differ [of a p b q]
  by (auto simp: derive_tweak_def derive_app_id_def derive_from_path_def inj_on_def)

theorem derive_tweak_separates_witness:
  "derive_tweak toy_crypto ''alice'' ''x'' \<noteq> derive_tweak toy_crypto ''ali'' ''ce,x''"
proof -
  have "inj_on (cr_sha3_256 toy_crypto)
      {derivation_path TWEAK_DERIVATION_PREFIX ''alice'' ''x'',
       derivation_path TWEAK_DERIVATION_PREFIX ''ali'' ''ce,x'',
       derivation_path APP_ID_DERIVATION_PREFIX ''ali'' ''ce,x''}"
    by (simp add: toy_crypto_def derivation_path_def TWEAK_DERIVATION_PREFIX_def
        APP_ID_DERIVATION_PREFIX_def)
  from derive_tweak_separates [OF _ _ this] show ?thesis by simp
qed

end
