(* ===== verification/KeyState.thy ===== *)
theory KeyState
  imports Domains Crypto
begin

text \<open>
  Epochs, attempts, keysets and authenticated voters (\<^verbatim>\<open>crates/contract/src/primitives/key_state.rs\<close>).
\<close>

type_synonym epoch_id = nat
type_synonym attempt_id = nat

definition epoch_id_next :: "epoch_id \<Rightarrow> epoch_id res" where
  "epoch_id_next e = add_u 64 e 1"

abbreviation attempt_id_new :: attempt_id where
  "attempt_id_new \<equiv> 0"

definition attempt_id_next :: "attempt_id \<Rightarrow> attempt_id res" where
  "attempt_id_next a = add_u 64 a 1"

record key_event_id =
  kei_epoch_id :: epoch_id
  kei_domain_id :: domain_id
  kei_attempt_id :: attempt_id

record key_for_domain =
  kfd_domain_id :: domain_id
  kfd_key :: public_key_extended
  kfd_attempt :: attempt_id

record keyset =
  ks_epoch_id :: epoch_id
  ks_domains :: "key_for_domain list"

definition keyset_public_key :: "keyset \<Rightarrow> domain_id \<Rightarrow> public_key_extended res" where
  "keyset_public_key ks d =
     bind_res (ok_or (find (\<lambda>k. kfd_domain_id k = d) (ks_domains ks)) (Err (DomainError NoSuchDomain)))
       (\<lambda>k. Inr (kfd_key k))"

text \<open>
  \<^verbatim>\<open>AuthenticatedParticipantId::new\<close> and \<^verbatim>\<open>AuthenticatedAccountId::new\<close>: both authenticate the
  signer of the transaction, one by its participant id and one by its account.
\<close>

definition authenticated_participant_id :: "env \<Rightarrow> participants \<Rightarrow> nat res" where
  "authenticated_participant_id env ps =
     ok_or (map_option entry_id
         (find (\<lambda>e. entry_account e = env_signer_account_id env) (ps_participants ps)))
       (Err (InvalidState NotParticipant))"

definition authenticated_account_id :: "env \<Rightarrow> participants \<Rightarrow> account_id res" where
  "authenticated_account_id env ps =
     (if list_ex (\<lambda>e. entry_account e = env_signer_account_id env) (ps_participants ps)
      then Inr (env_signer_account_id env)
      else Inl (Err (InvalidState NotParticipant)))"

section \<open>Authentication\<close>

lemma authenticated_participant_id_Inr:
  "authenticated_participant_id env ps = Inr i \<Longrightarrow>
     \<exists>info. (env_signer_account_id env, i, info) \<in> set (ps_participants ps)"
  by (auto simp: authenticated_participant_id_def dest!: find_Some_in)

lemma authenticated_participant_id_mem:
  "authenticated_participant_id env ps = Inr i \<Longrightarrow>
     i \<in> ids_of ps \<and> env_signer_account_id env \<in> accounts_of ps"
  using authenticated_participant_id_Inr by blast

lemma authenticated_participant_id_Inl:
  "authenticated_participant_id env ps = Inl e \<longleftrightarrow>
     env_signer_account_id env \<notin> accounts_of ps \<and> e = Err (InvalidState NotParticipant)"
  by (auto simp: authenticated_participant_id_def)

lemma authenticated_participant_id_wf:
  assumes "wf_participants ps"
  shows "authenticated_participant_id env ps = Inr i \<longleftrightarrow>
    (\<exists>info. (env_signer_account_id env, i, info) \<in> set (ps_participants ps))"
proof
  assume "\<exists>info. (env_signer_account_id env, i, info) \<in> set (ps_participants ps)"
  then obtain info where e: "(env_signer_account_id env, i, info) \<in> set (ps_participants ps)" ..
  show "authenticated_participant_id env ps = Inr i"
    using find_unique [OF wf_participantsD(1) [OF assms] e]
    by (simp add: authenticated_participant_id_def)
qed (rule authenticated_participant_id_Inr)

lemma authenticated_account_id_Inr [simp]:
  "authenticated_account_id env ps = Inr a \<longleftrightarrow>
     a = env_signer_account_id env \<and> a \<in> accounts_of ps"
  by (auto simp: authenticated_account_id_def)

text \<open>Two signers with the same participant id are the same account.\<close>

lemma authenticated_participant_id_inject:
  assumes "wf_participants ps" "authenticated_participant_id env ps = Inr i"
    "authenticated_participant_id env' ps = Inr i"
  shows "env_signer_account_id env = env_signer_account_id env'"
  using entry_by_id [OF assms(1)] authenticated_participant_id_Inr [OF assms(2)]
    authenticated_participant_id_Inr [OF assms(3)] by fastforce

section \<open>Keysets\<close>

abbreviation keyset_ids :: "keyset \<Rightarrow> domain_id list" where
  "keyset_ids ks \<equiv> map kfd_domain_id (ks_domains ks)"

lemma keyset_public_key_mem:
  assumes "distinct (keyset_ids ks)" "k \<in> set (ks_domains ks)"
  shows "keyset_public_key ks (kfd_domain_id k) = Inr (kfd_key k)"
  using find_unique [OF assms] by (simp add: keyset_public_key_def)

lemma keyset_public_key_Inr:
  "keyset_public_key ks d = Inr pk \<Longrightarrow> \<exists>k \<in> set (ks_domains ks). kfd_domain_id k = d \<and> kfd_key k = pk"
  by (auto simp: keyset_public_key_def res_simps dest!: find_Some_in)

lemma keyset_public_key_defined:
  "(\<exists>pk. keyset_public_key ks d = Inr pk) \<longleftrightarrow> d \<in> set (keyset_ids ks)"
  by (cases "find (\<lambda>k. kfd_domain_id k = d) (ks_domains ks)")
    (auto simp: keyset_public_key_def res_simps dest: find_Some_in iffD1 [OF find_None_ex])

lemma keyset_public_key_prefix:
  "ks_domains ks' = ks_domains ks @ xs \<Longrightarrow> keyset_public_key ks d = Inr pk \<Longrightarrow>
     keyset_public_key ks' d = Inr pk"
  by (auto simp: keyset_public_key_def res_simps find_append_Some)

end
