(* ===== verification/KeyEvents.thy ===== *)
theory KeyEvents
  imports KeyState
begin

text \<open>
  Key events (\<^verbatim>\<open>crates/contract/src/state/key_event.rs\<close>): one key generation or resharing of one
  domain, attempt by attempt. An attempt is started by the leader, collects one success vote per
  participant, and ends with unanimous success, with a disagreement on the public key, with an
  abort vote, or by expiring.
\<close>

section \<open>State\<close>

record key_event_instance =
  kin_attempt_id :: attempt_id
  kin_started_in :: nat
  kin_expires_on :: nat
  kin_completed :: "nat set"
  kin_public_key :: "public_key_extended option"

record key_event =
  ke_epoch_id :: epoch_id
  ke_domain :: domain_config
  ke_parameters :: threshold_parameters
  ke_instance :: "key_event_instance option"
  ke_next_attempt_id :: attempt_id

datatype vote_success_result = Voted nat | PublicKeyDisagreement

section \<open>Operations\<close>

definition key_event_new :: "epoch_id \<Rightarrow> domain_config \<Rightarrow> threshold_parameters \<Rightarrow> key_event" where
  "key_event_new epoch domain params =
     \<lparr>ke_epoch_id = epoch, ke_domain = domain, ke_parameters = params, ke_instance = None,
      ke_next_attempt_id = attempt_id_new\<rparr>"

definition key_event_instance_new :: "env \<Rightarrow> attempt_id \<Rightarrow> nat \<Rightarrow> key_event_instance res" where
  "key_event_instance_new env attempt_id timeout_blocks =
     bind_res (add_u 64 (env_block_height env) 1) (\<lambda>h.
     bind_res (add_u 64 h timeout_blocks) (\<lambda>expires_on.
     Inr \<lparr>kin_attempt_id = attempt_id, kin_started_in = env_block_height env,
          kin_expires_on = expires_on, kin_completed = {}, kin_public_key = None\<rparr>))"

definition instance_active :: "env \<Rightarrow> key_event_instance \<Rightarrow> bool" where
  "instance_active env inst \<longleftrightarrow> env_block_height env < kin_expires_on inst"

definition instance_vote_success ::
  "key_event_instance \<Rightarrow> nat \<Rightarrow> public_key_extended \<Rightarrow>
     (key_event_instance \<times> vote_success_result) res" where
  "instance_vote_success inst candidate public_key =
     (let rest = (\<lambda>inst.
        if candidate \<in> kin_completed inst then Inl (Err (VoteError VoteAlreadySubmitted))
        else let inst' = inst\<lparr>kin_completed := insert candidate (kin_completed inst)\<rparr>
             in Inr (inst', Voted (card (kin_completed inst'))))
      in case kin_public_key inst of
           Some existing \<Rightarrow> if existing \<noteq> public_key then Inr (inst, PublicKeyDisagreement) else rest inst
         | None \<Rightarrow> rest (inst\<lparr>kin_public_key := Some public_key\<rparr>))"

definition cleanup_if_timed_out :: "env \<Rightarrow> key_event \<Rightarrow> key_event" where
  "cleanup_if_timed_out env ke = (case ke_instance ke of
       Some inst \<Rightarrow> if \<not> instance_active env inst then ke\<lparr>ke_instance := None\<rparr> else ke
     | None \<Rightarrow> ke)"

definition verify_leader :: "env \<Rightarrow> key_event \<Rightarrow> unit res" where
  "verify_leader env ke =
     bind_res (ok_or (min_by_key entry_id (tp_entries (ke_parameters ke))) (Panic UnwrapFailed)) (\<lambda>leader.
     if entry_account leader \<noteq> env_signer_account_id env
     then Inl (Err (VoteError VoterNotLeader))
     else Inr ())"

definition key_event_start :: "env \<Rightarrow> key_event \<Rightarrow> key_event_id \<Rightarrow> nat \<Rightarrow> key_event res" where
  "key_event_start env ke0 key_event_id timeout_blocks =
     (let ke = cleanup_if_timed_out env ke0 in
      if ke_instance ke \<noteq> None then Inl (Err (KeyEventError ActiveKeyEvent))
      else let expected = \<lparr>kei_epoch_id = ke_epoch_id ke, kei_domain_id = dc_id (ke_domain ke),
                           kei_attempt_id = ke_next_attempt_id ke\<rparr> in
      if key_event_id \<noteq> expected then Inl (Err (KeyEventError KeyEventIdMismatch))
      else bind_res (verify_leader env ke) (\<lambda>_.
      bind_res (key_event_instance_new env (ke_next_attempt_id ke) timeout_blocks) (\<lambda>inst.
      bind_res (attempt_id_next (ke_next_attempt_id ke)) (\<lambda>next_id.
      Inr (ke\<lparr>ke_instance := Some inst, ke_next_attempt_id := next_id\<rparr>)))))"

definition verify_vote :: "env \<Rightarrow> key_event \<Rightarrow> key_event_id \<Rightarrow> (key_event \<times> nat) res" where
  "verify_vote env ke0 key_event_id =
     bind_res (authenticated_participant_id env (tp_participants (ke_parameters ke0))) (\<lambda>candidate.
     let ke = cleanup_if_timed_out env ke0 in
     bind_res (ok_or (ke_instance ke) (Err (KeyEventError NoActiveKeyEvent))) (\<lambda>inst.
     if kei_epoch_id key_event_id \<noteq> ke_epoch_id ke \<or>
        kei_domain_id key_event_id \<noteq> dc_id (ke_domain ke) \<or>
        kei_attempt_id key_event_id \<noteq> kin_attempt_id inst
     then Inl (Err (KeyEventError KeyEventIdMismatch))
     else Inr (ke, candidate)))"

definition key_event_vote_success ::
  "env \<Rightarrow> key_event \<Rightarrow> key_event_id \<Rightarrow> public_key_extended \<Rightarrow> (key_event \<times> bool) res" where
  "key_event_vote_success env ke0 key_event_id public_key =
     bind_res (verify_vote env ke0 key_event_id) (\<lambda>(ke, candidate).
     bind_res (ok_or (ke_instance ke) (Panic UnwrapFailed)) (\<lambda>inst.
     bind_res (instance_vote_success inst candidate public_key) (\<lambda>(inst', r).
     case r of
       Voted count \<Rightarrow> Inr (ke\<lparr>ke_instance := Some inst'\<rparr>, count = tp_len (ke_parameters ke))
     | PublicKeyDisagreement \<Rightarrow> Inr (ke\<lparr>ke_instance := None\<rparr>, False))))"

definition key_event_vote_abort :: "env \<Rightarrow> key_event \<Rightarrow> key_event_id \<Rightarrow> key_event res" where
  "key_event_vote_abort env ke0 key_event_id =
     bind_res (verify_vote env ke0 key_event_id) (\<lambda>(ke, candidate).
     bind_res (ok_or (ke_instance ke) (Panic UnwrapFailed)) (\<lambda>inst.
     if candidate \<in> kin_completed inst then Inl (Err (VoteError VoteAlreadySubmitted))
     else Inr (ke\<lparr>ke_instance := None\<rparr>)))"

definition current_key_event_id :: "env \<Rightarrow> key_event \<Rightarrow> key_event_id option" where
  "current_key_event_id env ke = (case ke_instance ke of
       None \<Rightarrow> None
     | Some inst \<Rightarrow>
         if kin_expires_on inst \<le> env_block_height env then None
         else Some \<lparr>kei_epoch_id = ke_epoch_id ke, kei_domain_id = dc_id (ke_domain ke),
                    kei_attempt_id = kin_attempt_id inst\<rparr>)"

lemmas key_event_defs = key_event_start_def verify_vote_def key_event_vote_success_def
  key_event_vote_abort_def instance_vote_success_def key_event_instance_new_def verify_leader_def
  attempt_id_next_def

section \<open>Invariant\<close>

definition wf_instance :: "key_event \<Rightarrow> key_event_instance \<Rightarrow> bool" where
  "wf_instance ke inst \<longleftrightarrow>
     kin_attempt_id inst < ke_next_attempt_id ke \<and>
     kin_completed inst \<subset> ids_of (tp_participants (ke_parameters ke)) \<and>
     (kin_public_key inst = None \<longleftrightarrow> kin_completed inst = {})"

definition wf_key_event :: "key_event \<Rightarrow> bool" where
  "wf_key_event ke \<longleftrightarrow> wf_parameters (ke_parameters ke) \<and> (\<forall>inst. ke_instance ke = Some inst \<longrightarrow> wf_instance ke inst)"

abbreviation ke_ids :: "key_event \<Rightarrow> nat set" where
  "ke_ids ke \<equiv> ids_of (tp_participants (ke_parameters ke))"

lemma cleanup_fields [simp]:
  "ke_epoch_id (cleanup_if_timed_out env ke) = ke_epoch_id ke"
  "ke_domain (cleanup_if_timed_out env ke) = ke_domain ke"
  "ke_parameters (cleanup_if_timed_out env ke) = ke_parameters ke"
  "ke_next_attempt_id (cleanup_if_timed_out env ke) = ke_next_attempt_id ke"
  by (simp_all add: cleanup_if_timed_out_def split: option.split)

lemma wf_key_event_new: "wf_parameters params \<Longrightarrow> wf_key_event (key_event_new e d params)"
  by (simp add: wf_key_event_def key_event_new_def)

text \<open>An expired attempt is no attempt: the clean-up only drops what \<^verbatim>\<open>current_key_event_id\<close> ignores.\<close>

lemma cleanup_instance:
  "ke_instance (cleanup_if_timed_out env ke) =
     (case ke_instance ke of Some inst \<Rightarrow> if instance_active env inst then Some inst else None | None \<Rightarrow> None)"
  by (simp add: cleanup_if_timed_out_def split: option.split)

lemma current_cleanup [simp]:
  "current_key_event_id env (cleanup_if_timed_out env ke) = current_key_event_id env ke"
  by (simp add: current_key_event_id_def cleanup_instance instance_active_def split: option.split)

lemma cleanup_active:
  "ke_instance (cleanup_if_timed_out env ke) = Some inst \<Longrightarrow> cleanup_if_timed_out env ke = ke"
  by (auto simp: cleanup_if_timed_out_def split: option.splits if_splits)

lemma cleanup_wf: "wf_key_event ke \<Longrightarrow> wf_key_event (cleanup_if_timed_out env ke)"
  by (auto simp: wf_key_event_def cleanup_if_timed_out_def split: option.split)

section \<open>Starting an attempt\<close>

definition ke_leader :: "key_event \<Rightarrow> account_id option" where
  "ke_leader ke = map_option entry_account (min_by_key entry_id (tp_entries (ke_parameters ke)))"

lemma verify_leader_Inr [simp]: "verify_leader env ke = Inr u \<longleftrightarrow> ke_leader ke = Some (env_signer_account_id env)"
  by (auto simp: verify_leader_def ke_leader_def res_simps split: if_splits)

lemma key_event_start_eq:
  "key_event_start env ke key_event_id timeout_blocks = Inr ke' \<longleftrightarrow>
     current_key_event_id env ke = None \<and>
     key_event_id = \<lparr>kei_epoch_id = ke_epoch_id ke, kei_domain_id = dc_id (ke_domain ke),
                     kei_attempt_id = ke_next_attempt_id ke\<rparr> \<and>
     ke_leader ke = Some (env_signer_account_id env) \<and>
     env_block_height env + 1 + timeout_blocks < 2 ^ 64 \<and> ke_next_attempt_id ke + 1 < 2 ^ 64 \<and>
     ke' = ke\<lparr>ke_instance := Some
           \<lparr>kin_attempt_id = ke_next_attempt_id ke, kin_started_in = env_block_height env,
            kin_expires_on = env_block_height env + 1 + timeout_blocks,
            kin_completed = {}, kin_public_key = None\<rparr>,
         ke_next_attempt_id := ke_next_attempt_id ke + 1\<rparr>"
proof -
  have none: "ke_instance (cleanup_if_timed_out env ke) = None \<longleftrightarrow> current_key_event_id env ke = None"
    by (auto simp: cleanup_instance current_key_event_id_def instance_active_def split: option.splits)
  have upd: "cleanup_if_timed_out env ke\<lparr>ke_instance := x, ke_next_attempt_id := n\<rparr> =
      ke\<lparr>ke_instance := x, ke_next_attempt_id := n\<rparr>" for x n
    by (simp add: cleanup_if_timed_out_def split: option.split)
  have lead: "ke_leader (cleanup_if_timed_out env ke) = ke_leader ke"
    by (simp add: ke_leader_def)
  show ?thesis
    unfolding key_event_start_def Let_def cleanup_fields none upd bind_res_eq_Inr
      if_Inl_eq_Inr verify_leader_Inr lead key_event_instance_new_def attempt_id_next_def add_u_Inr
    by auto
qed

lemma tp_ids_nonempty: "wf_parameters params \<Longrightarrow> ids_of (tp_participants params) \<noteq> {}"
  by (auto simp: wf_parameters_def participants_len_def ids_of_def)

lemma key_event_start_wf:
  assumes "wf_key_event ke" "key_event_start env ke kid t = Inr ke'"
  shows "wf_key_event ke'"
  using assms tp_ids_nonempty [of "ke_parameters ke"]
  by (auto simp: wf_key_event_def wf_instance_def key_event_start_eq)

section \<open>Voting\<close>

lemma verify_vote_eq:
  "verify_vote env ke key_event_id = Inr (ke', candidate) \<longleftrightarrow>
     authenticated_participant_id env (tp_participants (ke_parameters ke)) = Inr candidate \<and>
     current_key_event_id env ke = Some key_event_id \<and> ke' = ke"
proof -
  have "ke_instance (cleanup_if_timed_out env ke) = Some inst \<longleftrightarrow>
      ke_instance ke = Some inst \<and> env_block_height env < kin_expires_on inst" for inst
    by (auto simp: cleanup_instance instance_active_def split: option.splits if_splits)
  moreover have "cleanup_if_timed_out env ke = ke"
    if "ke_instance ke = Some inst" "env_block_height env < kin_expires_on inst" for inst
    using that by (simp add: cleanup_if_timed_out_def instance_active_def)
  ultimately show ?thesis
    unfolding verify_vote_def Let_def
    by (cases key_event_id; cases "ke_instance ke")
      (auto simp: res_simps current_key_event_id_def not_le if_Inl_eq_Inr)
qed

lemma current_key_event_id_SomeD:
  "current_key_event_id env ke = Some kid \<Longrightarrow> \<exists>inst. ke_instance ke = Some inst \<and>
     env_block_height env < kin_expires_on inst \<and> kei_attempt_id kid = kin_attempt_id inst \<and>
     kei_epoch_id kid = ke_epoch_id ke \<and> kei_domain_id kid = dc_id (ke_domain ke)"
  by (auto simp: current_key_event_id_def split: option.splits if_splits)

lemma instance_vote_success_eq:
  "instance_vote_success inst c pk =
     (if kin_public_key inst \<notin> {None, Some pk} then Inr (inst, PublicKeyDisagreement)
      else if c \<in> kin_completed inst then Inl (Err (VoteError VoteAlreadySubmitted))
      else Inr (inst\<lparr>kin_public_key := Some pk, kin_completed := insert c (kin_completed inst)\<rparr>,
                Voted (card (insert c (kin_completed inst)))))"
  by (cases inst; cases "kin_public_key inst") (auto simp: instance_vote_success_def Let_def)

lemma key_event_vote_success_eq:
  assumes inst: "ke_instance ke = Some inst"
  shows "key_event_vote_success env ke kid pk = Inr (ke', b) \<longleftrightarrow>
    (\<exists>c. authenticated_participant_id env (tp_participants (ke_parameters ke)) = Inr c \<and>
     current_key_event_id env ke = Some kid \<and>
     (if kin_public_key inst \<in> {None, Some pk}
      then c \<notin> kin_completed inst \<and>
        ke' = ke\<lparr>ke_instance := Some (inst\<lparr>kin_public_key := Some pk,
           kin_completed := insert c (kin_completed inst)\<rparr>)\<rparr> \<and>
        b = (card (insert c (kin_completed inst)) = tp_len (ke_parameters ke))
      else ke' = ke\<lparr>ke_instance := None\<rparr> \<and> \<not> b))"
proof (cases "verify_vote env ke kid")
  case (Inl e)
  then have "\<not> (authenticated_participant_id env (tp_participants (ke_parameters ke)) = Inr c \<and>
      current_key_event_id env ke = Some kid)" for c
    using verify_vote_eq [of env ke kid ke c] by auto
  with Inl show ?thesis by (auto simp: key_event_vote_success_def)
next
  case (Inr p)
  then obtain c where p: "p = (ke, c)"
    "authenticated_participant_id env (tp_participants (ke_parameters ke)) = Inr c"
    "current_key_event_id env ke = Some kid"
    by (cases p) (auto simp: verify_vote_eq)
  show ?thesis
  proof (cases "kin_public_key inst \<in> {None, Some pk}")
    case True
    then show ?thesis
      using Inr p by (auto simp: key_event_vote_success_def inst instance_vote_success_eq)
  next
    case False
    then show ?thesis
      using Inr p by (auto simp: key_event_vote_success_def inst instance_vote_success_eq)
  qed
qed

lemma key_event_vote_success_active:
  "key_event_vote_success env ke kid pk = Inr (ke', b) \<Longrightarrow>
     \<exists>inst. ke_instance ke = Some inst \<and> env_block_height env < kin_expires_on inst"
  by (auto simp: key_event_vote_success_def res_simps verify_vote_eq dest!: current_key_event_id_SomeD)

lemma completed_all_iff:
  assumes "wf_parameters params" "S \<subseteq> ids_of (tp_participants params)"
  shows "card S = tp_len params \<longleftrightarrow> S = ids_of (tp_participants params)"
  by (metis assms card_ids card_subset_eq finite_ids_of wf_parametersD(1))

text \<open>
  A vote that returns \<open>False\<close> keeps the invariant; one that returns \<open>True\<close> was the last of the
  participants to vote, and all votes were for the same key.
\<close>

lemma key_event_vote_success_wf:
  assumes wf: "wf_key_event ke" and v: "key_event_vote_success env ke kid pk = Inr (ke', False)"
  shows "wf_key_event ke'"
proof -
  obtain inst where inst: "ke_instance ke = Some inst"
    using key_event_vote_success_active [OF v] by blast
  then have wi: "wf_instance ke inst" using wf by (simp add: wf_key_event_def)
  from v obtain c where c: "authenticated_participant_id env (tp_participants (ke_parameters ke)) = Inr c"
    and r: "ke' = ke\<lparr>ke_instance := None\<rparr> \<or>
      ke' = ke\<lparr>ke_instance := Some (inst\<lparr>kin_public_key := Some pk,
           kin_completed := insert c (kin_completed inst)\<rparr>)\<rparr> \<and>
      card (insert c (kin_completed inst)) \<noteq> tp_len (ke_parameters ke)"
    unfolding key_event_vote_success_eq [OF inst] by (auto split: if_splits)
  have "insert c (kin_completed inst) \<subseteq> ke_ids ke"
    using wi authenticated_participant_id_mem [OF c] by (auto simp: wf_instance_def)
  then have "insert c (kin_completed inst) \<subset> ke_ids ke"
    if "card (insert c (kin_completed inst)) \<noteq> tp_len (ke_parameters ke)"
    using that wf completed_all_iff by (auto simp: wf_key_event_def)
  with r show ?thesis
    using wf wi by (elim disjE) (simp_all add: wf_key_event_def wf_instance_def)
qed

lemma key_event_vote_success_True:
  assumes wf: "wf_key_event ke" and v: "key_event_vote_success env ke kid pk = Inr (ke', True)"
  shows "\<exists>inst c. ke_instance ke = Some inst \<and>
    authenticated_participant_id env (tp_participants (ke_parameters ke)) = Inr c \<and>
    current_key_event_id env ke = Some kid \<and>
    c \<notin> kin_completed inst \<and> insert c (kin_completed inst) = ke_ids ke \<and>
    kin_public_key inst \<in> {None, Some pk} \<and>
    ke' = ke\<lparr>ke_instance := Some (inst\<lparr>kin_public_key := Some pk,
       kin_completed := insert c (kin_completed inst)\<rparr>)\<rparr>"
proof -
  obtain inst where inst: "ke_instance ke = Some inst"
    using key_event_vote_success_active [OF v] by blast
  then have wi: "wf_instance ke inst" using wf by (simp add: wf_key_event_def)
  from v obtain c where c: "authenticated_participant_id env (tp_participants (ke_parameters ke)) = Inr c"
    "current_key_event_id env ke = Some kid" "c \<notin> kin_completed inst"
    "kin_public_key inst \<in> {None, Some pk}"
    "ke' = ke\<lparr>ke_instance := Some (inst\<lparr>kin_public_key := Some pk,
           kin_completed := insert c (kin_completed inst)\<rparr>)\<rparr>"
    "card (insert c (kin_completed inst)) = tp_len (ke_parameters ke)"
    unfolding key_event_vote_success_eq [OF inst] by (auto split: if_splits)
  have "insert c (kin_completed inst) \<subseteq> ke_ids ke"
    using wi authenticated_participant_id_mem [OF c(1)] by (auto simp: wf_instance_def)
  then have "insert c (kin_completed inst) = ke_ids ke"
    using wf c(6) completed_all_iff by (simp add: wf_key_event_def)
  with inst c show ?thesis by blast
qed

lemma key_event_vote_success_fields:
  assumes "key_event_vote_success env ke kid pk = Inr (ke', b)"
  shows "ke_epoch_id ke' = ke_epoch_id ke" "ke_domain ke' = ke_domain ke"
    "ke_parameters ke' = ke_parameters ke" "ke_next_attempt_id ke' = ke_next_attempt_id ke"
proof -
  obtain inst where "ke_instance ke = Some inst"
    using key_event_vote_success_active [OF assms] by blast
  from assms [unfolded key_event_vote_success_eq [OF this]] obtain x where "ke' = ke\<lparr>ke_instance := x\<rparr>"
    by (auto split: if_splits)
  then show "ke_epoch_id ke' = ke_epoch_id ke" "ke_domain ke' = ke_domain ke"
    "ke_parameters ke' = ke_parameters ke" "ke_next_attempt_id ke' = ke_next_attempt_id ke"
    by simp_all
qed

lemma key_event_vote_success_cases:
  assumes "ke_instance ke = Some inst" "key_event_vote_success env ke kid pk = Inr (ke', b)"
  shows "\<exists>c. authenticated_participant_id env (tp_participants (ke_parameters ke)) = Inr c \<and>
    (ke_instance ke' = None \<or>
     c \<notin> kin_completed inst \<and> kin_public_key inst \<in> {None, Some pk} \<and>
     ke_instance ke' = Some (inst\<lparr>kin_public_key := Some pk,
         kin_completed := insert c (kin_completed inst)\<rparr>))"
  using assms(2) unfolding key_event_vote_success_eq [OF assms(1)]
  by (cases "kin_public_key inst \<in> {None, Some pk}") (auto cong: conj_cong)

lemma key_event_vote_abort_eq:
  "key_event_vote_abort env ke kid = Inr ke' \<longleftrightarrow>
     (\<exists>c inst. authenticated_participant_id env (tp_participants (ke_parameters ke)) = Inr c \<and>
       current_key_event_id env ke = Some kid \<and> ke_instance ke = Some inst \<and>
       c \<notin> kin_completed inst \<and> ke' = ke\<lparr>ke_instance := None\<rparr>)"
  by (auto simp: key_event_vote_abort_def res_simps verify_vote_eq split: if_splits)

lemma key_event_vote_abort_wf:
  "wf_key_event ke \<Longrightarrow> key_event_vote_abort env ke kid = Inr ke' \<Longrightarrow> wf_key_event ke'"
  by (auto simp: key_event_vote_abort_eq wf_key_event_def)

section \<open>A whole attempt\<close>

text \<open>A sequence of success votes for one key event id, with the answers they get.\<close>

fun vote_run ::
  "key_event \<Rightarrow> key_event_id \<Rightarrow> (env \<times> public_key_extended) list \<Rightarrow> (key_event \<times> bool list) res" where
  "vote_run ke kid [] = Inr (ke, [])"
| "vote_run ke kid ((env, pk) # vs) =
     bind_res (key_event_vote_success env ke kid pk) (\<lambda>(ke', b).
     bind_res (vote_run ke' kid vs) (\<lambda>(ke'', bs). Inr (ke'', b # bs)))"

lemma vote_run_snoc:
  "vote_run ke kid (vs @ [(env, pk)]) = Inr (ke'', bs) \<longleftrightarrow>
     (\<exists>ke' bs' b. vote_run ke kid vs = Inr (ke', bs') \<and>
        key_event_vote_success env ke' kid pk = Inr (ke'', b) \<and> bs = bs' @ [b])"
  by (induction vs arbitrary: ke bs) (auto simp: res_simps)

text \<open>
  The votes an attempt has taken: either it was aborted, or the voters are distinct participants,
  they are the completed ones, and their votes agree with the recorded key.
\<close>

definition votes_recorded :: "key_event \<Rightarrow> (env \<times> public_key_extended) list \<Rightarrow> key_event \<Rightarrow> bool" where
  "votes_recorded ke vs ke' \<longleftrightarrow> ke_parameters ke' = ke_parameters ke \<and>
     (ke_instance ke' = None \<or>
      (\<exists>inst ids. ke_instance ke' = Some inst \<and>
        map (\<lambda>v. authenticated_participant_id (fst v) (tp_participants (ke_parameters ke))) vs = map Inr ids \<and>
        distinct ids \<and> kin_completed inst = set ids \<and>
        (\<forall>v \<in> set vs. kin_public_key inst = Some (snd v))))"

lemma votes_recorded_step:
  assumes r: "votes_recorded ke vs ke'" and v: "key_event_vote_success env ke' kid pk = Inr (ke'', b)"
  shows "votes_recorded ke (vs @ [(env, pk)]) ke''"
proof -
  obtain inst where inst: "ke_instance ke' = Some inst"
    using key_event_vote_success_active [OF v] by blast
  note same = key_event_vote_success_fields(3) [OF v]
  from r inst obtain ids where ids: "ke_parameters ke' = ke_parameters ke"
    "map (\<lambda>v. authenticated_participant_id (fst v) (tp_participants (ke_parameters ke))) vs = map Inr ids"
    "distinct ids" "kin_completed inst = set ids" "\<forall>v \<in> set vs. kin_public_key inst = Some (snd v)"
    by (auto simp: votes_recorded_def)
  from key_event_vote_success_cases [OF inst v] obtain c where
    c: "authenticated_participant_id env (tp_participants (ke_parameters ke)) = Inr c"
    and "ke_instance ke'' = None \<or>
      c \<notin> kin_completed inst \<and> kin_public_key inst \<in> {None, Some pk} \<and>
      ke_instance ke'' = Some (inst\<lparr>kin_public_key := Some pk,
         kin_completed := insert c (kin_completed inst)\<rparr>)"
    using ids(1) by auto
  then show ?thesis
  proof (elim disjE conjE)
    assume "ke_instance ke'' = None"
    then show ?thesis using same ids(1) by (simp add: votes_recorded_def)
  next
    assume n: "c \<notin> kin_completed inst" "kin_public_key inst \<in> {None, Some pk}"
      "ke_instance ke'' = Some (inst\<lparr>kin_public_key := Some pk,
         kin_completed := insert c (kin_completed inst)\<rparr>)"
    then show ?thesis
      unfolding votes_recorded_def using same ids c
      by (intro conjI disjI2 exI [of _ "inst\<lparr>kin_public_key := Some pk,
         kin_completed := insert c (kin_completed inst)\<rparr>"] exI [of _ "ids @ [c]"]) auto
  qed
qed

lemma vote_run_recorded:
  assumes "votes_recorded ke [] ke"
  shows "vote_run ke kid vs = Inr (ke', bs) \<Longrightarrow> votes_recorded ke vs ke'"
proof (induction vs arbitrary: ke' bs rule: rev_induct)
  case (snoc v vs)
  obtain env pk where v: "v = (env, pk)" by (cases v)
  from snoc.prems [unfolded v vote_run_snoc] obtain ke1 bs1 b where
    "vote_run ke kid vs = Inr (ke1, bs1)" "key_event_vote_success env ke1 kid pk = Inr (ke', b)"
    by blast
  with snoc.IH votes_recorded_step show ?case unfolding v by blast
qed (use assms in simp)

lemma voters_cover:
  assumes wf: "wf_participants ps" and ids: "set ids = ids_of ps" "distinct ids"
    and m: "map (\<lambda>v. authenticated_participant_id (fst v) ps) vs = map Inr ids"
  shows "distinct (map (\<lambda>v. env_signer_account_id (fst v)) vs) \<and>
    set (map (\<lambda>v. env_signer_account_id (fst v)) vs) = accounts_of ps"
proof -
  let ?s = "\<lambda>v. env_signer_account_id (fst v)" and ?p = "\<lambda>v. authenticated_participant_id (fst v) ps"
  have d: "distinct (map ?p vs)" using ids(2) m by (simp add: distinct_map)
  have fn: "?p v = ?p w" if "?s v = ?s w" for v w
    using that by (simp add: authenticated_participant_id_def)
  have inj: "distinct vs" "inj_on ?p (set vs)"
    using d by (simp_all add: distinct_map)
  have "inj_on ?s (set vs)"
    by (rule inj_onI) (rule inj_onD [OF inj(2)], rule fn)
  with inj(1) have dist: "distinct (map ?s vs)"
    by (simp add: distinct_map)
  have "?s v \<in> accounts_of ps" if "v \<in> set vs" for v
  proof -
    have "?p v \<in> set (map Inr ids)" using that unfolding m [symmetric] by simp
    then show ?thesis using authenticated_participant_id_mem by fastforce
  qed
  then have sub: "set (map ?s vs) \<subseteq> accounts_of ps" by auto
  have "card (set (map ?s vs)) = length vs"
    using distinct_card [OF dist] by simp
  also have "\<dots> = length ids" using arg_cong [OF m, of length] by simp
  also have "\<dots> = card (accounts_of ps)"
    using distinct_card [OF ids(2)] ids(1) wf by simp
  finally show ?thesis using dist sub card_subset_eq [OF finite_accounts_of] by blast
qed

lemma vote_run_wf:
  assumes "wf_key_event ke" "vote_run ke kid vs = Inr (ke', bs)" "True \<notin> set bs"
  shows "wf_key_event ke'"
  using assms
proof (induction ke kid vs arbitrary: bs rule: vote_run.induct)
  case (2 ke kid env pk vs)
  from "2.prems" obtain ke1 bs1 where "key_event_vote_success env ke kid pk = Inr (ke1, False)"
    "vote_run ke1 kid vs = Inr (ke', bs1)" "True \<notin> set bs1"
    by (auto simp: res_simps)
  with "2.IH" "2.prems"(1) key_event_vote_success_wf show ?case by blast
qed simp

text \<open>
  C7. A key event succeeds only by unanimous agreement. When a fresh attempt takes a sequence of
  votes of which the last one is the first to be answered with \<open>True\<close>, every participant has voted
  exactly once, nobody else has voted, and all votes were for the same public key.
\<close>

theorem key_event_unanimous:
  assumes wf: "wf_key_event ke" and fresh: "ke_instance ke = Some inst" "kin_completed inst = {}"
    and run: "vote_run ke kid (vs @ [(env, pk)]) = Inr (ke', bs @ [True])" "True \<notin> set bs"
  shows "distinct (map (\<lambda>v. env_signer_account_id (fst v)) (vs @ [(env, pk)])) \<and>
    env_signer_account_id ` fst ` set (vs @ [(env, pk)]) = tp_accounts (ke_parameters ke) \<and>
    (\<forall>v \<in> set vs. snd v = pk)"
proof -
  from run(1) [unfolded vote_run_snoc] obtain ke1 where
    ke1: "vote_run ke kid vs = Inr (ke1, bs)" "key_event_vote_success env ke1 kid pk = Inr (ke', True)"
    by auto
  have r0: "votes_recorded ke [] ke"
    using fresh by (simp add: votes_recorded_def)
  note r1 = vote_run_recorded [OF r0 ke1(1)] and r2 = vote_run_recorded [OF r0 run(1)]
  have p: "ke_parameters ke1 = ke_parameters ke" using r1 by (simp add: votes_recorded_def)
  from key_event_vote_success_True [OF vote_run_wf [OF wf ke1(1) run(2)] ke1(2)] p
  obtain inst' where inst': "ke_instance ke' = Some inst'" "kin_completed inst' = ke_ids ke"
    "kin_public_key inst' = Some pk" by auto
  with r2 obtain ids where "map (\<lambda>v. authenticated_participant_id (fst v)
      (tp_participants (ke_parameters ke))) (vs @ [(env, pk)]) = map Inr ids"
    "distinct ids" "set ids = ke_ids ke" "\<forall>v \<in> set vs. snd v = pk"
    unfolding votes_recorded_def by auto
  with voters_cover [of "tp_participants (ke_parameters ke)" ids "vs @ [(env, pk)]"] wf show ?thesis
    by (simp add: wf_key_event_def wf_parametersD image_image)
qed

text \<open>An attempt of \<open>a\<close>, \<open>b\<close> and \<open>c\<close> on domain \<open>0\<close> in epoch \<open>1\<close>, started at height \<open>10\<close>.\<close>

definition ex_key :: "nat \<Rightarrow> public_key_extended" where
  "ex_key n = PkSecp256k1 (NearPublicKey SECP256K1 (replicate 64 (of_nat n)))"

definition ex_kid :: key_event_id where
  "ex_kid = \<lparr>kei_epoch_id = 1, kei_domain_id = 0, kei_attempt_id = 0\<rparr>"

definition ex_attempt :: key_event where
  "ex_attempt = (key_event_new 1 (ex_domain 0) ex_abc)\<lparr>
     ke_instance := Some \<lparr>kin_attempt_id = 0, kin_started_in = 10, kin_expires_on = 41,
       kin_completed = {}, kin_public_key = None\<rparr>, ke_next_attempt_id := 1\<rparr>"

lemma ex_attempt_start: "key_event_start (ex_env ''a'' 10) (key_event_new 1 (ex_domain 0) ex_abc) ex_kid 30 =
    Inr ex_attempt"
  unfolding key_event_start_eq
  by (simp add: ex_attempt_def key_event_new_def ex_kid_def ex_domain_def
      current_key_event_id_def ke_leader_def ex_env_def ex_params_defs)

lemma ex_attempt_wf: "wf_key_event ex_attempt"
  using key_event_start_wf [OF wf_key_event_new [OF ex_wf(1)] ex_attempt_start] .

lemmas ex_vote_simps = key_event_vote_success_def verify_vote_def authenticated_participant_id_def
  cleanup_if_timed_out_def instance_active_def instance_vote_success_def ex_attempt_def
  key_event_new_def ex_kid_def ex_domain_def ex_env_def ex_params_defs participants_len_def

theorem key_event_unanimous_witness:
  "\<exists>ke'. vote_run ex_attempt ex_kid
       [(ex_env ''b'' 11, ex_key 7), (ex_env ''a'' 12, ex_key 7), (ex_env ''c'' 40, ex_key 7)] =
     Inr (ke', [False, False, True]) \<and>
   env_signer_account_id ` {ex_env ''b'' 11, ex_env ''a'' 12, ex_env ''c'' 40} =
     tp_accounts (ke_parameters ex_attempt)"
proof -
  obtain ke' where run: "vote_run ex_attempt ex_kid
       ([(ex_env ''b'' 11, ex_key 7), (ex_env ''a'' 12, ex_key 7)] @ [(ex_env ''c'' 40, ex_key 7)]) =
     Inr (ke', [False, False] @ [True])"
    by (simp add: ex_vote_simps)
  have "ke_instance ex_attempt = Some \<lparr>kin_attempt_id = 0, kin_started_in = 10,
      kin_expires_on = 41, kin_completed = {}, kin_public_key = None\<rparr>"
    by (simp add: ex_attempt_def)
  from key_event_unanimous [OF ex_attempt_wf this _ run] run show ?thesis by simp
qed

text \<open>
  \<^verbatim>\<open>KeyEvent::start\<close> succeeds exactly for the leader (the account with the least participant id),
  with the next key event id, while no attempt is active; the attempt it creates uses the next
  attempt id, is active for blocks before \<^verbatim>\<open>height + 1 + timeout_blocks\<close> and has no votes, and the
  attempt id is never handed out again.
\<close>

lemma key_event_start_iff:
  "key_event_start env ke kid timeout_blocks = Inr ke' \<longleftrightarrow>
     current_key_event_id env ke = None \<and>
     kid = \<lparr>kei_epoch_id = ke_epoch_id ke, kei_domain_id = dc_id (ke_domain ke),
            kei_attempt_id = ke_next_attempt_id ke\<rparr> \<and>
     ke_leader ke = Some (env_signer_account_id env) \<and>
     env_block_height env + 1 + timeout_blocks < 2 ^ 64 \<and> ke_next_attempt_id ke + 1 < 2 ^ 64 \<and>
     ke' = ke\<lparr>ke_instance := Some
           \<lparr>kin_attempt_id = ke_next_attempt_id ke, kin_started_in = env_block_height env,
            kin_expires_on = env_block_height env + 1 + timeout_blocks,
            kin_completed = {}, kin_public_key = None\<rparr>,
         ke_next_attempt_id := ke_next_attempt_id ke + 1\<rparr>"
  by (rule key_event_start_eq)

text \<open>
  A participant that has voted can still end the attempt: its second vote, for another key, is
  not refused as already submitted but counts as a disagreement and aborts the attempt. The
  comments on \<^verbatim>\<open>KeyEvent::vote_success\<close> and \<^verbatim>\<open>KeyEventInstance::vote_success\<close> say that a vote fails when
  the candidate already voted; that holds only for a second vote for the same key.
\<close>

lemma second_vote_aborts:
  assumes "ke_instance ke = Some inst" "current_key_event_id env ke = Some kid"
    and "authenticated_participant_id env (tp_participants (ke_parameters ke)) = Inr c"
    and "c \<in> kin_completed inst" "kin_public_key inst = Some pk"
  shows "key_event_vote_success env ke kid pk' =
    (if pk' = pk then Inl (Err (VoteError VoteAlreadySubmitted))
     else Inr (ke\<lparr>ke_instance := None\<rparr>, False))"
proof -
  have "verify_vote env ke kid = Inr (ke, c)"
    using assms by (simp add: verify_vote_eq)
  then show ?thesis
    using assms by (auto simp: key_event_vote_success_def instance_vote_success_eq)
qed

end
