(* ===== verification/Running.thy ===== *)
theory Running
  imports KeyEvents
begin

text \<open>
  The three active protocol states as records and the operations of the Running state
  (\<^verbatim>\<open>crates/contract/src/state/running.rs\<close>). An operation returns the updated Running state
  together with the state the caller moves to, if any.
\<close>

section \<open>The protocol states\<close>

record running_state =
  rs_domains :: domain_registry
  rs_keyset :: keyset
  rs_parameters :: threshold_parameters
  rs_parameters_votes :: threshold_parameters_votes
  rs_add_domains_votes :: add_domains_votes
  rs_previously_cancelled_resharing_epoch_id :: "epoch_id option"

record initializing_state =
  is_domains :: domain_registry
  is_epoch_id :: epoch_id
  is_generated_keys :: "key_for_domain list"
  is_generating_key :: key_event
  is_cancel_votes :: "nat set"

record resharing_state =
  ss_previous_running_state :: running_state
  ss_reshared_keys :: "key_for_domain list"
  ss_resharing_key :: key_event
  ss_cancellation_requests :: "account_id set"

section \<open>Operations of the Running state\<close>

definition running_new ::
  "domain_registry \<Rightarrow> keyset \<Rightarrow> threshold_parameters \<Rightarrow> add_domains_votes \<Rightarrow> running_state" where
  "running_new domains ks params votes =
     \<lparr>rs_domains = domains, rs_keyset = ks, rs_parameters = params,
      rs_parameters_votes = threshold_parameters_votes_default,
      rs_add_domains_votes = adv_get_remaining_votes votes (tp_participants params),
      rs_previously_cancelled_resharing_epoch_id = None\<rparr>"

definition running_prospective_epoch_id :: "running_state \<Rightarrow> epoch_id res" where
  "running_prospective_epoch_id r =
     epoch_id_next (case rs_previously_cancelled_resharing_epoch_id r of
         Some cancelled_epoch_id \<Rightarrow> cancelled_epoch_id
       | None \<Rightarrow> ks_epoch_id (rs_keyset r))"

definition transition_to_resharing_no_checks ::
  "running_state \<Rightarrow> threshold_parameters \<Rightarrow> (running_state \<times> resharing_state option) res" where
  "transition_to_resharing_no_checks r proposal =
     (case get_domain_by_index (rs_domains r) 0 of
        Some first_domain \<Rightarrow>
          bind_res (running_prospective_epoch_id r) (\<lambda>epoch_id.
          Inr (r, Some
            \<lparr>ss_previous_running_state =
               running_new (rs_domains r) (rs_keyset r) (rs_parameters r) (rs_add_domains_votes r),
             ss_reshared_keys = [],
             ss_resharing_key = key_event_new epoch_id first_domain proposal,
             ss_cancellation_requests = {}\<rparr>))
      | None \<Rightarrow>
          bind_res (epoch_id_next (ks_epoch_id (rs_keyset r))) (\<lambda>epoch_id.
          Inr (running_new (rs_domains r) \<lparr>ks_epoch_id = epoch_id, ks_domains = []\<rparr> proposal
                 (rs_add_domains_votes r), None)))"

definition process_new_parameters_proposal ::
  "env \<Rightarrow> running_state \<Rightarrow> threshold_parameters \<Rightarrow> (running_state \<times> bool) res" where
  "process_new_parameters_proposal env r proposal =
     bind_res (validate_incoming_proposal (rs_parameters r) proposal) (\<lambda>_.
     bind_res (authenticated_account_id env (tp_participants proposal)) (\<lambda>candidate.
     bind_res (if \<not> is_ok (authenticated_account_id env (tp_participants (rs_parameters r))) then
         let n_votes = tpv_n_votes (rs_parameters_votes r) proposal (tp_participants (rs_parameters r))
         in ensure (\<not> n_votes < tp_threshold (rs_parameters r)) (Err (VoteError VoterPending))
       else Inr ()) (\<lambda>_.
     let (votes, n_votes) = tpv_vote candidate proposal (rs_parameters_votes r)
     in Inr (r\<lparr>rs_parameters_votes := votes\<rparr>, tp_len proposal = n_votes))))"

definition running_vote_new_parameters ::
  "env \<Rightarrow> running_state \<Rightarrow> epoch_id \<Rightarrow> threshold_parameters \<Rightarrow>
     (running_state \<times> resharing_state option) res" where
  "running_vote_new_parameters env r prospective_epoch_id proposal =
     bind_res (running_prospective_epoch_id r) (\<lambda>expected.
     if prospective_epoch_id \<noteq> expected
     then Inl (Err (InvalidParameters (EpochMismatch expected prospective_epoch_id)))
     else bind_res (process_new_parameters_proposal env r proposal) (\<lambda>(r', accepted).
     if accepted then transition_to_resharing_no_checks r' proposal else Inr (r', None)))"

fun check_schemes :: "domain_config list \<Rightarrow> unit res" where
  "check_schemes [] = Inr ()"
| "check_schemes (d # ds) =
     (if \<not> is_valid_scheme_for_purpose (dc_purpose d) (dc_scheme d)
      then Inl (Err (DomainError (InvalidSchemePurposeCombination (dc_scheme d) (dc_purpose d))))
      else check_schemes ds)"

definition running_vote_add_domains ::
  "env \<Rightarrow> running_state \<Rightarrow> domain_config list \<Rightarrow> (running_state \<times> initializing_state option) res" where
  "running_vote_add_domains env r domains =
     (case domains of
        [] \<Rightarrow> Inl (Err (DomainError AddDomainsMustAddAtLeastOneDomain))
      | first # _ \<Rightarrow>
          bind_res (check_schemes domains) (\<lambda>_.
          bind_res (authenticated_participant_id env (tp_participants (rs_parameters r))) (\<lambda>participant.
          let (votes, n_votes) = adv_vote participant domains (rs_add_domains_votes r);
              r' = r\<lparr>rs_add_domains_votes := votes\<rparr>
          in if tp_len (rs_parameters r) = n_votes then
               bind_res (add_domains (rs_domains r) domains) (\<lambda>new_domains.
               Inr (r', Some
                 \<lparr>is_domains = new_domains,
                  is_epoch_id = ks_epoch_id (rs_keyset r),
                  is_generated_keys = ks_domains (rs_keyset r),
                  is_generating_key =
                    key_event_new (ks_epoch_id (rs_keyset r)) first (rs_parameters r),
                  is_cancel_votes = {}\<rparr>))
             else Inr (r', None))))"

definition running_is_participant_given_account_id :: "running_state \<Rightarrow> account_id \<Rightarrow> bool" where
  "running_is_participant_given_account_id r a =
     is_participant_given_account_id (tp_participants (rs_parameters r)) a"

section \<open>Invariants\<close>

text \<open>
  A Running state has a key for each domain, in the order of the registry; its add-domain votes
  belong to participants; a parameters vote belongs to a member of the proposal it is for; and a
  cancelled resharing was for a later epoch.
\<close>

definition wf_running :: "running_state \<Rightarrow> bool" where
  "wf_running r \<longleftrightarrow>
     wf_registry (rs_domains r) \<and>
     keyset_ids (rs_keyset r) = domain_ids (dr_domains (rs_domains r)) \<and>
     wf_parameters (rs_parameters r) \<and>
     wf_tpv (rs_parameters_votes r) \<and>
     (\<forall>a p. tpv_ballot (rs_parameters_votes r) a = Some p \<longrightarrow> a \<in> tp_accounts p) \<and>
     wf_adv (rs_add_domains_votes r) \<and>
     dom (adv_ballot (rs_add_domains_votes r)) \<subseteq> ids_of (tp_participants (rs_parameters r)) \<and>
     (\<forall>e. rs_previously_cancelled_resharing_epoch_id r = Some e \<longrightarrow> ks_epoch_id (rs_keyset r) < e)"

lemma wf_runningD:
  assumes "wf_running r"
  shows "wf_registry (rs_domains r)"
    and "keyset_ids (rs_keyset r) = domain_ids (dr_domains (rs_domains r))"
    and "wf_parameters (rs_parameters r)" and "wf_tpv (rs_parameters_votes r)"
    and "\<And>a p. tpv_ballot (rs_parameters_votes r) a = Some p \<Longrightarrow> a \<in> tp_accounts p"
    and "wf_adv (rs_add_domains_votes r)"
    and "dom (adv_ballot (rs_add_domains_votes r)) \<subseteq> ids_of (tp_participants (rs_parameters r))"
    and "\<And>e. rs_previously_cancelled_resharing_epoch_id r = Some e \<Longrightarrow> ks_epoch_id (rs_keyset r) < e"
  using assms by (simp_all add: wf_running_def)

text \<open>
  What the states that run key events have in common: the keys done so far cover a proper prefix
  of the registry and the key event is for the next domain.
\<close>

definition wf_progress :: "domain_registry \<Rightarrow> key_for_domain list \<Rightarrow> key_event \<Rightarrow> bool" where
  "wf_progress reg keys ke \<longleftrightarrow>
     wf_registry reg \<and> length keys < length (dr_domains reg) \<and>
     map kfd_domain_id keys = take (length keys) (domain_ids (dr_domains reg)) \<and>
     wf_key_event ke \<and> ke_domain ke = dr_domains reg ! length keys"

definition wf_initializing :: "initializing_state \<Rightarrow> bool" where
  "wf_initializing s \<longleftrightarrow>
     wf_progress (is_domains s) (is_generated_keys s) (is_generating_key s) \<and>
     ke_epoch_id (is_generating_key s) = is_epoch_id s \<and>
     is_cancel_votes s \<subseteq> ke_ids (is_generating_key s) \<and>
     card (is_cancel_votes s) < tp_threshold (ke_parameters (is_generating_key s))"

definition wf_resharing :: "resharing_state \<Rightarrow> bool" where
  "wf_resharing s \<longleftrightarrow>
     (let prev = ss_previous_running_state s; n = length (ss_reshared_keys s) in
      wf_running prev \<and>
      wf_progress (rs_domains prev) (ss_reshared_keys s) (ss_resharing_key s) \<and>
      map kfd_key (ss_reshared_keys s) = take n (map kfd_key (ks_domains (rs_keyset prev))) \<and>
      ks_epoch_id (rs_keyset prev) < ke_epoch_id (ss_resharing_key s) \<and>
      rs_previously_cancelled_resharing_epoch_id prev = None \<and>
      tp_threshold (rs_parameters prev) \<le>
        card (tp_accounts (ke_parameters (ss_resharing_key s)) \<inter> tp_accounts (rs_parameters prev)) \<and>
      ss_cancellation_requests s \<subseteq> tp_accounts (rs_parameters prev) \<and>
      card (ss_cancellation_requests s) < tp_threshold (rs_parameters prev))"

lemma running_new_wf:
  assumes "wf_registry domains" "keyset_ids ks = domain_ids (dr_domains domains)"
    and "wf_parameters params" "wf_adv votes"
  shows "wf_running (running_new domains ks params votes)"
  using assms adv_get_remaining_votes_dom
  by (simp add: wf_running_def running_new_def threshold_parameters_votes_default_def)

lemma running_new_fields [simp]:
  "rs_domains (running_new d k p v) = d" "rs_keyset (running_new d k p v) = k"
  "rs_parameters (running_new d k p v) = p"
  "rs_previously_cancelled_resharing_epoch_id (running_new d k p v) = None"
  by (simp_all add: running_new_def)

lemma check_schemes_Inr [simp]: "check_schemes ds = Inr u \<longleftrightarrow>
    (\<forall>d \<in> set ds. is_valid_scheme_for_purpose (dc_purpose d) (dc_scheme d))"
  by (induction ds) auto

lemma prospective_epoch_votes [simp]:
  "running_prospective_epoch_id (r\<lparr>rs_parameters_votes := v\<rparr>) = running_prospective_epoch_id r"
  by (simp add: running_prospective_epoch_id_def split: option.split)

lemma prospective_epoch_later:
  "wf_running r \<Longrightarrow> running_prospective_epoch_id r = Inr e \<Longrightarrow> ks_epoch_id (rs_keyset r) < e"
  by (auto simp: running_prospective_epoch_id_def epoch_id_next_def dest: wf_runningD(8)
      split: option.splits)

section \<open>Voting for new parameters\<close>

lemma transition_wf:
  assumes wf: "wf_running r" and p: "wf_parameters proposal"
    and q: "tp_threshold (rs_parameters r) \<le> card (tp_accounts proposal \<inter> tp_accounts (rs_parameters r))"
    and t: "transition_to_resharing_no_checks r proposal = Inr (r', next)"
  shows "case next of None \<Rightarrow> wf_running r' | Some s \<Rightarrow> r' = r \<and> wf_resharing s"
proof (cases "dr_domains (rs_domains r)")
  case Nil
  with t obtain e where "next = None" "r' = running_new (rs_domains r)
      \<lparr>ks_epoch_id = e, ks_domains = []\<rparr> proposal (rs_add_domains_votes r)"
    by (auto simp: transition_to_resharing_no_checks_def get_domain_by_index_def res_simps)
  then show ?thesis
    using Nil p wf_runningD(1,6) [OF wf] by (simp add: running_new_wf)
next
  case (Cons d ds)
  with t obtain e where e: "running_prospective_epoch_id r = Inr e" "r' = r"
    and s: "next = Some
            \<lparr>ss_previous_running_state =
               running_new (rs_domains r) (rs_keyset r) (rs_parameters r) (rs_add_domains_votes r),
             ss_reshared_keys = [], ss_resharing_key = key_event_new e d proposal,
             ss_cancellation_requests = {}\<rparr>"
    by (auto simp: transition_to_resharing_no_checks_def get_domain_by_index_def res_simps)
  have "2 \<le> tp_threshold (rs_parameters r)"
    using wf_parametersD(3) [OF wf_runningD(3) [OF wf]] .
  then show ?thesis
    using Cons q e wf_runningD [OF wf] prospective_epoch_later [OF wf e(1)]
      wf_key_event_new [OF p, of e d]
    by (simp add: s wf_resharing_def running_new_wf wf_progress_def key_event_new_def Let_def)
qed

lemma process_new_parameters_proposal_Inr:
  assumes wf: "wf_running r" and u: "u32_participants (tp_participants proposal)"
    and v: "process_new_parameters_proposal env r proposal = Inr (r', accepted)"
  shows "validate_incoming_proposal (rs_parameters r) proposal = Inr ()"
    and "env_signer_account_id env \<in> tp_accounts proposal"
    and "env_signer_account_id env \<notin> tp_accounts (rs_parameters r) \<Longrightarrow>
      tp_threshold (rs_parameters r) \<le>
        card {a \<in> tp_accounts (rs_parameters r). tpv_ballot (rs_parameters_votes r) a = Some proposal}"
    and "r' = r\<lparr>rs_parameters_votes :=
      fst (tpv_vote (env_signer_account_id env) proposal (rs_parameters_votes r))\<rparr>"
    and "accepted \<longleftrightarrow> (\<forall>a \<in> tp_accounts proposal. tpv_ballot (rs_parameters_votes r') a = Some proposal)"
proof -
  let ?a = "env_signer_account_id env"
  let ?c = "tpv_vote ?a proposal (rs_parameters_votes r)"
  note wv = wf_runningD(4) [OF wf]
  from v show val: "validate_incoming_proposal (rs_parameters r) proposal = Inr ()"
    by (auto simp: process_new_parameters_proposal_def res_simps)
  from v show mem: "?a \<in> tp_accounts proposal"
    by (auto simp: process_new_parameters_proposal_def res_simps)
  from v show "tp_threshold (rs_parameters r) \<le>
        card {a \<in> tp_accounts (rs_parameters r). tpv_ballot (rs_parameters_votes r) a = Some proposal}"
    if "?a \<notin> tp_accounts (rs_parameters r)"
    using that
    by (auto simp: process_new_parameters_proposal_def res_simps is_ok_iff tpv_n_votes_eq [OF wv]
        not_less)
  from v have r: "r' = r\<lparr>rs_parameters_votes := fst ?c\<rparr>" "accepted = (tp_len proposal = snd ?c)"
    by (auto simp: process_new_parameters_proposal_def res_simps case_prod_beta Let_def)
  then show "r' = r\<lparr>rs_parameters_votes := fst ?c\<rparr>" by simp
  have "wf_parameters proposal"
    using validate_incoming_proposal_eq [OF wf_parametersD(1) [OF wf_runningD(3) [OF wf]] u] val
    by blast
  then have "tp_len proposal = card (tp_accounts proposal)" by (simp add: wf_parametersD)
  then show "accepted \<longleftrightarrow> (\<forall>a \<in> tp_accounts proposal. tpv_ballot (rs_parameters_votes r') a = Some proposal)"
    using tpv.unanimous_iff [OF wv finite_accounts_of wf_runningD(5) [OF wf] mem] r
    by (metis running_state.select_convs(4) running_state.surjective running_state.update_convs(4))
qed

lemma process_new_parameters_proposal_wf:
  assumes wf: "wf_running r" and u: "u32_participants (tp_participants proposal)"
    and v: "process_new_parameters_proposal env r proposal = Inr (r', accepted)"
  shows "wf_running r'" and "wf_parameters proposal"
    and "tp_threshold (rs_parameters r) \<le> card (tp_accounts proposal \<inter> tp_accounts (rs_parameters r))"
proof -
  note p = process_new_parameters_proposal_Inr [OF assms]
  show "wf_parameters proposal"
    "tp_threshold (rs_parameters r) \<le> card (tp_accounts proposal \<inter> tp_accounts (rs_parameters r))"
    using validate_incoming_proposal_eq [OF wf_parametersD(1) [OF wf_runningD(3) [OF wf]] u] p(1)
    by blast+
  have "a \<in> tp_accounts q"
    if "tpv_ballot (fst (tpv_vote (env_signer_account_id env) proposal (rs_parameters_votes r))) a = Some q"
    for a q
    using that p(2) wf_runningD(5) [OF wf] by (simp add: tpv_ballot_vote split: if_splits)
  then show "wf_running r'"
    using wf tpv.wf_cast [OF wf_runningD(4) [OF wf]] unfolding p(4) by (simp add: wf_running_def)
qed

lemma running_vote_new_parameters_Inr:
  assumes "running_vote_new_parameters env r prospective_epoch_id proposal = Inr (r', next)"
  shows "running_prospective_epoch_id r = Inr prospective_epoch_id \<and>
    (\<exists>r1 accepted. process_new_parameters_proposal env r proposal = Inr (r1, accepted) \<and>
      (if accepted then transition_to_resharing_no_checks r1 proposal = Inr (r', next)
       else r' = r1 \<and> next = None))"
proof -
  from assms obtain p where ep: "running_prospective_epoch_id r = Inr prospective_epoch_id"
    and p: "process_new_parameters_proposal env r proposal = Inr p"
    and t: "(if snd p then transition_to_resharing_no_checks (fst p) proposal
      else Inr (fst p, None)) = Inr (r', next)"
    unfolding running_vote_new_parameters_def bind_res_eq_Inr if_Inl_eq_Inr case_prod_beta by blast
  show ?thesis
    using ep p t by (intro conjI exI [of _ "fst p"] exI [of _ "snd p"]) (simp_all split: if_splits)
qed

lemma running_vote_new_parameters_wf:
  assumes wf: "wf_running r" and u: "u32_participants (tp_participants proposal)"
    and v: "running_vote_new_parameters env r e proposal = Inr (r', next)"
  shows "case next of None \<Rightarrow> wf_running r' | Some s \<Rightarrow> wf_resharing s"
proof -
  from running_vote_new_parameters_Inr [OF v] obtain r1 accepted where
    p: "process_new_parameters_proposal env r proposal = Inr (r1, accepted)"
    and t: "if accepted then transition_to_resharing_no_checks r1 proposal = Inr (r', next)
       else r' = r1 \<and> next = None" by blast
  note w = process_new_parameters_proposal_wf [OF wf u p]
  have same: "rs_parameters r1 = rs_parameters r"
    using process_new_parameters_proposal_Inr(4) [OF wf u p] by simp
  show ?thesis
  proof (cases accepted)
    case True
    with t transition_wf [OF w(1,2) w(3) [folded same]] show ?thesis
      by (auto split: option.splits)
  qed (use t w(1) in simp)
qed

section \<open>Voting for new domains\<close>

lemma running_vote_add_domains_Inr:
  assumes wf: "wf_running r" and v: "running_vote_add_domains env r ds = Inr (r', next)"
  obtains i where
    "authenticated_participant_id env (tp_participants (rs_parameters r)) = Inr i"
    "ds \<noteq> []" "\<forall>d \<in> set ds. is_valid_scheme_for_purpose (dc_purpose d) (dc_scheme d)"
    "r' = r\<lparr>rs_add_domains_votes := fst (adv_vote i ds (rs_add_domains_votes r))\<rparr>"
    "if \<forall>j \<in> ids_of (tp_participants (rs_parameters r)).
          adv_ballot (rs_add_domains_votes r') j = Some ds
     then \<exists>reg. add_domains (rs_domains r) ds = Inr reg \<and>
       next = Some \<lparr>is_domains = reg, is_epoch_id = ks_epoch_id (rs_keyset r),
                     is_generated_keys = ks_domains (rs_keyset r),
                     is_generating_key =
                       key_event_new (ks_epoch_id (rs_keyset r)) (hd ds) (rs_parameters r),
                     is_cancel_votes = {}\<rparr>
     else next = None"
proof -
  obtain first rest where ds: "ds = first # rest"
    using v by (cases ds) (auto simp: running_vote_add_domains_def)
  from v obtain i where i: "authenticated_participant_id env (tp_participants (rs_parameters r)) = Inr i"
    and sch: "\<forall>d \<in> set ds. is_valid_scheme_for_purpose (dc_purpose d) (dc_scheme d)"
    by (auto simp: running_vote_add_domains_def ds res_simps simp del: check_schemes.simps)
  have cs: "check_schemes (first # rest) = Inr ()"
    using sch unfolding ds check_schemes_Inr .
  let ?c = "adv_vote i ds (rs_add_domains_votes r)"
  have k: "running_vote_add_domains env r ds =
     (let r' = r\<lparr>rs_add_domains_votes := fst ?c\<rparr> in
      if tp_len (rs_parameters r) = snd ?c then
        bind_res (add_domains (rs_domains r) ds) (\<lambda>new_domains.
        Inr (r', Some \<lparr>is_domains = new_domains, is_epoch_id = ks_epoch_id (rs_keyset r),
                     is_generated_keys = ks_domains (rs_keyset r),
                     is_generating_key =
                       key_event_new (ks_epoch_id (rs_keyset r)) (hd ds) (rs_parameters r),
                     is_cancel_votes = {}\<rparr>))
      else Inr (r', None))"
    unfolding ds
    by (simp add: running_vote_add_domains_def i cs case_prod_beta Let_def
        del: check_schemes.simps add_domains.simps)
  have len: "tp_len (rs_parameters r) = card (ids_of (tp_participants (rs_parameters r)))"
    using wf_parametersD(1) [OF wf_runningD(3) [OF wf]] by simp
  have mem: "j \<in> ids_of (tp_participants (rs_parameters r))"
    if "adv_ballot (rs_add_domains_votes r) j = Some ds" for j
    using that wf_runningD(7) [OF wf] by blast
  have "snd ?c = tp_len (rs_parameters r) \<longleftrightarrow>
      (\<forall>j \<in> ids_of (tp_participants (rs_parameters r)). adv_ballot (fst ?c) j = Some ds)"
    unfolding len
    by (rule adv.unanimous_iff [OF wf_runningD(6) [OF wf] finite_ids_of mem])
      (use authenticated_participant_id_mem [OF i] in auto)
  then show ?thesis
    using v [unfolded k Let_def] that [OF i _ sch] ds by (auto simp: res_simps split: if_splits)
qed

lemma running_vote_add_domains_wf:
  assumes wf: "wf_running r" and v: "running_vote_add_domains env r ds = Inr (r', next)"
  shows "case next of None \<Rightarrow> wf_running r' | Some s \<Rightarrow> wf_initializing s"
  using wf v
proof (rule running_vote_add_domains_Inr)
  fix i
  assume i: "authenticated_participant_id env (tp_participants (rs_parameters r)) = Inr i"
    and ne: "ds \<noteq> []"
    and r': "r' = r\<lparr>rs_add_domains_votes := fst (adv_vote i ds (rs_add_domains_votes r))\<rparr>"
    and nx: "if \<forall>j \<in> ids_of (tp_participants (rs_parameters r)).
          adv_ballot (rs_add_domains_votes r') j = Some ds
     then \<exists>reg. add_domains (rs_domains r) ds = Inr reg \<and>
       next = Some \<lparr>is_domains = reg, is_epoch_id = ks_epoch_id (rs_keyset r),
                     is_generated_keys = ks_domains (rs_keyset r),
                     is_generating_key =
                       key_event_new (ks_epoch_id (rs_keyset r)) (hd ds) (rs_parameters r),
                     is_cancel_votes = {}\<rparr>
     else next = None"
  show ?thesis
  proof (cases "next")
    case None
    have "dom (adv_ballot (fst (adv_vote i ds (rs_add_domains_votes r)))) \<subseteq>
        ids_of (tp_participants (rs_parameters r))"
      using adv.ballot_cast [OF wf_runningD(6) [OF wf]] wf_runningD(7) [OF wf]
        authenticated_participant_id_mem [OF i] by simp
    then show ?thesis
      using wf adv.wf_cast [OF wf_runningD(6) [OF wf]] by (simp add: None r' wf_running_def)
  next
    case (Some s)
    with nx obtain reg where reg: "add_domains (rs_domains r) ds = Inr reg"
      and s: "s = \<lparr>is_domains = reg, is_epoch_id = ks_epoch_id (rs_keyset r),
                     is_generated_keys = ks_domains (rs_keyset r),
                     is_generating_key =
                       key_event_new (ks_epoch_id (rs_keyset r)) (hd ds) (rs_parameters r),
                     is_cancel_votes = {}\<rparr>" by (auto split: if_splits)
    note wr = wf_runningD [OF wf]
    have "dr_next_domain_id (rs_domains r) < 2 ^ 64" using wr(1) by (simp add: wf_registry_def)
    from add_domains_eq [OF this, of ds reg] reg have d: "dr_domains reg = dr_domains (rs_domains r) @ ds"
      by auto
    have len: "length (ks_domains (rs_keyset r)) = length (dr_domains (rs_domains r))"
      using arg_cong [OF wr(2), of length] by simp
    have "2 \<le> tp_threshold (rs_parameters r)" using wf_parametersD(3) [OF wr(3)] .
    then show ?thesis
      using wr(2,3) ne len add_domains_wf [OF wr(1) reg]
      by (simp add: Some s wf_initializing_def wf_progress_def d wf_key_event_new nth_append hd_conv_nth)
        (simp add: key_event_new_def)
  qed
qed

end
