(* ===== verification/KeyRotation.thy ===== *)
theory KeyRotation
  imports Running "HOL-Library.Sublist"
begin

text \<open>
  The Initializing and the Resharing state (\<^verbatim>\<open>crates/contract/src/state/initializing.rs\<close> and
  \<^verbatim>\<open>resharing.rs\<close>). Both work through the domains of a registry one key event at a time and end in
  a Running state; the locale \<open>key_rotation\<close> states that once and both states interpret it.
\<close>

section \<open>Initializing\<close>

definition initializing_start ::
  "env \<Rightarrow> initializing_state \<Rightarrow> key_event_id \<Rightarrow> nat \<Rightarrow> initializing_state res" where
  "initializing_start env s kid timeout_blocks =
     bind_res (key_event_start env (is_generating_key s) kid timeout_blocks) (\<lambda>ke.
     Inr (s\<lparr>is_generating_key := ke\<rparr>))"

definition initializing_vote_pk ::
  "env \<Rightarrow> initializing_state \<Rightarrow> key_event_id \<Rightarrow> public_key_extended \<Rightarrow>
     (initializing_state \<times> running_state option) res" where
  "initializing_vote_pk env s0 kid public_key =
     bind_res (key_event_vote_success env (is_generating_key s0) kid public_key) (\<lambda>(ke, success).
     let s = s0\<lparr>is_generating_key := ke\<rparr> in
     if success then
       let keys = is_generated_keys s @ [\<lparr>kfd_domain_id = kei_domain_id kid, kfd_key = public_key,
                                          kfd_attempt = kei_attempt_id kid\<rparr>];
           s = s\<lparr>is_generated_keys := keys\<rparr>
       in case get_domain_by_index (is_domains s) (length keys) of
            Some next_domain \<Rightarrow>
              Inr (s\<lparr>is_generating_key :=
                 key_event_new (is_epoch_id s) next_domain (ke_parameters (is_generating_key s))\<rparr>, None)
          | None \<Rightarrow>
              Inr (s, Some (running_new (is_domains s) \<lparr>ks_epoch_id = is_epoch_id s, ks_domains = keys\<rparr>
                 (ke_parameters (is_generating_key s)) add_domains_votes_default))
     else Inr (s, None))"

definition initializing_vote_abort ::
  "env \<Rightarrow> initializing_state \<Rightarrow> key_event_id \<Rightarrow> initializing_state res" where
  "initializing_vote_abort env s kid =
     bind_res (key_event_vote_abort env (is_generating_key s) kid) (\<lambda>ke.
     Inr (s\<lparr>is_generating_key := ke\<rparr>))"

definition initializing_vote_cancel ::
  "env \<Rightarrow> initializing_state \<Rightarrow> nat \<Rightarrow> (initializing_state \<times> running_state option) res" where
  "initializing_vote_cancel env s next_domain_id =
     (if next_domain_id \<noteq> dr_next_domain_id (is_domains s)
      then Inl (Err (InvalidParameters NextDomainIdMismatch))
      else
        bind_res (authenticated_participant_id env
            (tp_participants (ke_parameters (is_generating_key s)))) (\<lambda>participant.
        let required_threshold = tp_threshold (ke_parameters (is_generating_key s));
            fresh = (participant \<notin> is_cancel_votes s);
            s' = s\<lparr>is_cancel_votes := insert participant (is_cancel_votes s)\<rparr>
        in if fresh \<and> required_threshold \<le> card (is_cancel_votes s') then
             Inr (s', Some (running_new
               (retain_domains (is_domains s') (length (is_generated_keys s')))
               \<lparr>ks_epoch_id = is_epoch_id s', ks_domains = is_generated_keys s'\<rparr>
               (ke_parameters (is_generating_key s')) add_domains_votes_default))
           else Inr (s', None)))"

definition initializing_is_participant_given_account_id ::
  "initializing_state \<Rightarrow> account_id \<Rightarrow> bool" where
  "initializing_is_participant_given_account_id s a =
     is_participant_given_account_id (tp_participants (ke_parameters (is_generating_key s))) a"

section \<open>Resharing\<close>

definition resharing_previous_keyset :: "resharing_state \<Rightarrow> keyset" where
  "resharing_previous_keyset s = rs_keyset (ss_previous_running_state s)"

definition resharing_prospective_epoch_id :: "resharing_state \<Rightarrow> epoch_id" where
  "resharing_prospective_epoch_id s = ke_epoch_id (ss_resharing_key s)"

definition resharing_vote_new_parameters ::
  "env \<Rightarrow> resharing_state \<Rightarrow> epoch_id \<Rightarrow> threshold_parameters \<Rightarrow>
     (resharing_state \<times> resharing_state option) res" where
  "resharing_vote_new_parameters env s prospective_epoch_id proposal =
     bind_res (epoch_id_next (resharing_prospective_epoch_id s)) (\<lambda>expected.
     if prospective_epoch_id \<noteq> expected
     then Inl (Err (InvalidParameters (EpochMismatch expected prospective_epoch_id)))
     else
       bind_res (process_new_parameters_proposal env (ss_previous_running_state s) proposal)
         (\<lambda>(prev, accepted).
       let s' = s\<lparr>ss_previous_running_state := prev\<rparr> in
       if accepted then
         bind_res (epoch_id_next (resharing_prospective_epoch_id s')) (\<lambda>epoch_id.
         bind_res (ok_or (get_domain_by_index (rs_domains prev) 0) (Panic UnwrapFailed)) (\<lambda>first_domain.
         Inr (s', Some
           \<lparr>ss_previous_running_state = running_new (rs_domains prev) (rs_keyset prev)
              (rs_parameters prev) (rs_add_domains_votes prev),
            ss_reshared_keys = [],
            ss_resharing_key = key_event_new epoch_id first_domain proposal,
            ss_cancellation_requests = {}\<rparr>)))
       else Inr (s', None)))"

definition resharing_start ::
  "env \<Rightarrow> resharing_state \<Rightarrow> key_event_id \<Rightarrow> nat \<Rightarrow> resharing_state res" where
  "resharing_start env s kid timeout_blocks =
     bind_res (key_event_start env (ss_resharing_key s) kid timeout_blocks) (\<lambda>ke.
     Inr (s\<lparr>ss_resharing_key := ke\<rparr>))"

definition resharing_vote_reshared ::
  "env \<Rightarrow> resharing_state \<Rightarrow> key_event_id \<Rightarrow> (resharing_state \<times> running_state option) res" where
  "resharing_vote_reshared env s0 kid =
     (let keyset_domains = ks_domains (resharing_previous_keyset s0);
          n = length (ss_reshared_keys s0) in
      if \<not> n < length keyset_domains then Inl (Panic IndexOutOfBounds)
      else let previous_key = keyset_domains ! n in
      bind_res (key_event_vote_success env (ss_resharing_key s0) kid (kfd_key previous_key))
        (\<lambda>(ke, success).
      let s = s0\<lparr>ss_resharing_key := ke\<rparr> in
      if success then
        let new_key = \<lparr>kfd_domain_id = kei_domain_id kid, kfd_key = kfd_key previous_key,
                       kfd_attempt = kei_attempt_id kid\<rparr>;
            keys = ss_reshared_keys s @ [new_key];
            s = s\<lparr>ss_reshared_keys := keys\<rparr>
        in case get_domain_by_index (rs_domains (ss_previous_running_state s)) (length keys) of
             Some next_domain \<Rightarrow>
               Inr (s\<lparr>ss_resharing_key :=
                  key_event_new (resharing_prospective_epoch_id s) next_domain
                    (ke_parameters (ss_resharing_key s))\<rparr>, None)
           | None \<Rightarrow>
               Inr (s, Some (running_new (rs_domains (ss_previous_running_state s))
                  \<lparr>ks_epoch_id = resharing_prospective_epoch_id s, ks_domains = keys\<rparr>
                  (ke_parameters (ss_resharing_key s))
                  (rs_add_domains_votes (ss_previous_running_state s))))
      else Inr (s, None)))"

definition resharing_vote_abort ::
  "env \<Rightarrow> resharing_state \<Rightarrow> key_event_id \<Rightarrow> resharing_state res" where
  "resharing_vote_abort env s kid =
     bind_res (key_event_vote_abort env (ss_resharing_key s) kid) (\<lambda>ke.
     Inr (s\<lparr>ss_resharing_key := ke\<rparr>))"

definition resharing_vote_cancel_resharing ::
  "env \<Rightarrow> resharing_state \<Rightarrow> (resharing_state \<times> running_state option) res" where
  "resharing_vote_cancel_resharing env s =
     (let prev = ss_previous_running_state s in
      bind_res (authenticated_account_id env (tp_participants (rs_parameters prev))) (\<lambda>candidate.
      let s' = s\<lparr>ss_cancellation_requests := insert candidate (ss_cancellation_requests s)\<rparr>;
          reached = (tp_threshold (rs_parameters prev) \<le> card (ss_cancellation_requests s'))
      in Inr (s', if reached
                  then Some (prev\<lparr>rs_previously_cancelled_resharing_epoch_id :=
                               Some (resharing_prospective_epoch_id s')\<rparr>)
                  else None)))"

definition resharing_is_participant_or_prospective ::
  "resharing_state \<Rightarrow> account_id \<Rightarrow> bool" where
  "resharing_is_participant_or_prospective s a \<longleftrightarrow>
     running_is_participant_given_account_id (ss_previous_running_state s) a \<or>
     is_participant_given_account_id (tp_participants (ke_parameters (ss_resharing_key s))) a"

section \<open>Working through the domains\<close>

text \<open>
  One vote on the current domain: its key event takes the vote; on success the key is recorded
  under the domain and attempt of the key event id, and either the key event of the next domain
  begins or, after the last domain, the keys become a Running state.
\<close>

abbreviation voted_key :: "key_event_id \<Rightarrow> public_key_extended \<Rightarrow> key_for_domain" where
  "voted_key kid pk \<equiv> \<lparr>kfd_domain_id = kei_domain_id kid, kfd_key = pk, kfd_attempt = kei_attempt_id kid\<rparr>"

locale key_rotation =
  fixes vote :: "env \<Rightarrow> 's \<Rightarrow> key_event_id \<Rightarrow> 'a \<Rightarrow> ('s \<times> running_state option) res"
    and registry :: "'s \<Rightarrow> domain_registry"
    and keys :: "'s \<Rightarrow> key_for_domain list"
    and event :: "'s \<Rightarrow> key_event"
    and epoch :: "'s \<Rightarrow> epoch_id"
    and key_of :: "'s \<Rightarrow> 'a \<Rightarrow> public_key_extended option"
  assumes vote_cases: "vote env s kid a = Inr (s', r) \<Longrightarrow>
    \<exists>pk ke b. key_of s a = Some pk \<and> key_event_vote_success env (event s) kid pk = Inr (ke, b) \<and>
      registry s' = registry s \<and>
      (if b then
         keys s' = keys s @ [voted_key kid pk] \<and>
         (if length (keys s') < length (dr_domains (registry s))
          then r = None \<and>
            event s' = key_event_new (epoch s) (dr_domains (registry s) ! length (keys s'))
              (ke_parameters (event s))
          else \<exists>votes. r = Some (running_new (registry s)
              \<lparr>ks_epoch_id = epoch s, ks_domains = keys s'\<rparr> (ke_parameters (event s)) votes))
       else r = None \<and> keys s' = keys s \<and> event s' = ke)"
begin

lemma vote_registry: "vote env s kid a = Inr (s', r) \<Longrightarrow> registry s' = registry s"
  using vote_cases by blast

text \<open>Keys already recorded stay, and at most one is added.\<close>

lemma vote_keys:
  assumes "vote env s kid a = Inr (s', r)"
  shows "\<exists>ks. keys s' = keys s @ ks \<and> length ks \<le> 1"
  using vote_cases [OF assms] by (auto split: if_splits)

text \<open>A recorded key is for the current domain, so the recorded keys cover one domain more.\<close>

lemma vote_success_ids:
  assumes wp: "wf_progress (registry s) (keys s) (event s)"
    and v: "key_event_vote_success env (event s) kid pk = Inr (ke, True)"
  shows "map kfd_domain_id (keys s @ [voted_key kid pk]) =
    take (Suc (length (keys s))) (domain_ids (dr_domains (registry s)))"
proof -
  have "wf_key_event (event s)" and n: "length (keys s) < length (dr_domains (registry s))"
    and dom: "ke_domain (event s) = dr_domains (registry s) ! length (keys s)"
    and ids: "map kfd_domain_id (keys s) = take (length (keys s)) (domain_ids (dr_domains (registry s)))"
    using wp by (simp_all add: wf_progress_def)
  from key_event_vote_success_True [OF this(1) v]
  have "kei_domain_id kid = dc_id (dr_domains (registry s) ! length (keys s))"
    using current_key_event_id_SomeD dom by fastforce
  with ids n show ?thesis
    by (simp add: take_Suc_conv_app_nth)
qed

lemma vote_progress:
  assumes wp: "wf_progress (registry s) (keys s) (event s)" and v: "vote env s kid a = Inr (s', None)"
  shows "wf_progress (registry s') (keys s') (event s')"
proof -
  from vote_cases [OF v] obtain pk ke b where
    k: "key_event_vote_success env (event s) kid pk = Inr (ke, b)" and reg: "registry s' = registry s"
    and c: "if b then
         keys s' = keys s @ [voted_key kid pk] \<and>
         length (keys s') < length (dr_domains (registry s)) \<and>
         event s' = key_event_new (epoch s) (dr_domains (registry s) ! length (keys s'))
              (ke_parameters (event s))
       else keys s' = keys s \<and> event s' = ke"
    by (auto split: if_splits)
  have wk: "wf_key_event (event s)" using wp by (simp add: wf_progress_def)
  show ?thesis
  proof (cases b)
    case True
    with k have k': "key_event_vote_success env (event s) kid pk = Inr (ke, True)" by simp
    have "wf_parameters (ke_parameters (event s))" using wk by (simp add: wf_key_event_def)
    then show ?thesis
      using c True wp vote_success_ids [OF wp k']
      by (auto simp: wf_progress_def reg wf_key_event_new) (simp_all add: key_event_new_def)
  next
    case False
    with k have k': "key_event_vote_success env (event s) kid pk = Inr (ke, False)" by simp
    show ?thesis
      using c False wp key_event_vote_success_wf [OF wk k']
        key_event_vote_success_fields [OF k]
      by (simp add: wf_progress_def reg)
  qed
qed

text \<open>The Running state at the end has exactly one key per domain of the registry, in its order.\<close>

lemma vote_finish:
  assumes wp: "wf_progress (registry s) (keys s) (event s)" and v: "vote env s kid a = Inr (s', Some run)"
  shows "rs_domains run = registry s \<and> rs_parameters run = ke_parameters (event s) \<and>
    ks_epoch_id (rs_keyset run) = epoch s \<and>
    keyset_ids (rs_keyset run) = domain_ids (dr_domains (registry s)) \<and>
    (\<exists>k. ks_domains (rs_keyset run) = keys s @ [k])"
proof -
  from vote_cases [OF v] obtain pk ke votes where
    k: "key_event_vote_success env (event s) kid pk = Inr (ke, True)"
    and c: "keys s' = keys s @ [voted_key kid pk]"
      "\<not> length (keys s') < length (dr_domains (registry s))"
      "run = running_new (registry s) \<lparr>ks_epoch_id = epoch s, ks_domains = keys s'\<rparr>
         (ke_parameters (event s)) votes"
    by (auto split: if_splits)
  with vote_success_ids [OF wp k] show ?thesis by simp
qed

end

lemma get_domain_by_index_cases:
  "(case get_domain_by_index reg n of Some d \<Rightarrow> f d | None \<Rightarrow> g) =
     (if n < length (dr_domains reg) then f (dr_domains reg ! n) else g)"
  by (simp add: get_domain_by_index_def)

interpretation gen: key_rotation initializing_vote_pk is_domains is_generated_keys
  is_generating_key is_epoch_id "\<lambda>s pk. Some pk"
proof
  fix env s kid pk s' r
  assume v: "initializing_vote_pk env s kid pk = Inr (s', r)"
  then obtain ke b where k: "key_event_vote_success env (is_generating_key s) kid pk = Inr (ke, b)"
    by (auto simp: initializing_vote_pk_def res_simps)
  note params = key_event_vote_success_fields(3) [OF k]
  show "\<exists>pk' ke b. Some pk = Some pk' \<and>
      key_event_vote_success env (is_generating_key s) kid pk' = Inr (ke, b) \<and>
      is_domains s' = is_domains s \<and>
      (if b then
         is_generated_keys s' = is_generated_keys s @ [voted_key kid pk'] \<and>
         (if length (is_generated_keys s') < length (dr_domains (is_domains s))
          then r = None \<and>
            is_generating_key s' = key_event_new (is_epoch_id s)
              (dr_domains (is_domains s) ! length (is_generated_keys s'))
              (ke_parameters (is_generating_key s))
          else \<exists>votes. r = Some (running_new (is_domains s)
              \<lparr>ks_epoch_id = is_epoch_id s, ks_domains = is_generated_keys s'\<rparr>
              (ke_parameters (is_generating_key s)) votes))
       else r = None \<and> is_generated_keys s' = is_generated_keys s \<and> is_generating_key s' = ke)"
    using v
    by (intro exI [of _ pk] exI [of _ ke] exI [of _ b] conjI refl)
      (auto simp: initializing_vote_pk_def k params Let_def get_domain_by_index_cases split: if_splits)
qed

interpretation resh: key_rotation "\<lambda>env s kid (_ :: unit). resharing_vote_reshared env s kid"
  "\<lambda>s. rs_domains (ss_previous_running_state s)" ss_reshared_keys ss_resharing_key
  resharing_prospective_epoch_id
  "\<lambda>s _. if length (ss_reshared_keys s) < length (ks_domains (resharing_previous_keyset s))
     then Some (kfd_key (ks_domains (resharing_previous_keyset s) ! length (ss_reshared_keys s)))
     else None"
proof
  fix env s kid s' r
  assume v: "resharing_vote_reshared env s kid = Inr (s', r)"
  let ?n = "length (ss_reshared_keys s)"
  let ?pk = "kfd_key (ks_domains (resharing_previous_keyset s) ! ?n)"
  from v obtain ke b where n: "?n < length (ks_domains (resharing_previous_keyset s))"
    and k: "key_event_vote_success env (ss_resharing_key s) kid ?pk = Inr (ke, b)"
    by (auto simp: resharing_vote_reshared_def res_simps Let_def split: if_splits)
  note params = key_event_vote_success_fields(1,3) [OF k]
  show "\<exists>pk ke b. (if ?n < length (ks_domains (resharing_previous_keyset s))
        then Some ?pk else None) = Some pk \<and>
      key_event_vote_success env (ss_resharing_key s) kid pk = Inr (ke, b) \<and>
      rs_domains (ss_previous_running_state s') = rs_domains (ss_previous_running_state s) \<and>
      (if b then
         ss_reshared_keys s' = ss_reshared_keys s @ [voted_key kid pk] \<and>
         (if length (ss_reshared_keys s') < length (dr_domains (rs_domains (ss_previous_running_state s)))
          then r = None \<and>
            ss_resharing_key s' = key_event_new (resharing_prospective_epoch_id s)
              (dr_domains (rs_domains (ss_previous_running_state s)) ! length (ss_reshared_keys s'))
              (ke_parameters (ss_resharing_key s))
          else \<exists>votes. r = Some (running_new (rs_domains (ss_previous_running_state s))
              \<lparr>ks_epoch_id = resharing_prospective_epoch_id s, ks_domains = ss_reshared_keys s'\<rparr>
              (ke_parameters (ss_resharing_key s)) votes))
       else r = None \<and> ss_reshared_keys s' = ss_reshared_keys s \<and> ss_resharing_key s' = ke)"
    using v n
    by (intro exI [of _ ?pk] exI [of _ ke] exI [of _ b] conjI refl)
      (auto simp: resharing_vote_reshared_def k params Let_def get_domain_by_index_cases
        resharing_prospective_epoch_id_def split: if_splits)
qed

section \<open>The invariant of Initializing\<close>

lemma wf_initializingD:
  assumes "wf_initializing s"
  shows "wf_progress (is_domains s) (is_generated_keys s) (is_generating_key s)"
    and "ke_epoch_id (is_generating_key s) = is_epoch_id s"
    and "is_cancel_votes s \<subseteq> ke_ids (is_generating_key s)"
    and "card (is_cancel_votes s) < tp_threshold (ke_parameters (is_generating_key s))"
    and "wf_key_event (is_generating_key s)" "wf_registry (is_domains s)"
    and "wf_parameters (ke_parameters (is_generating_key s))"
  using assms by (simp_all add: wf_initializing_def wf_progress_def wf_key_event_def)

lemma wf_progress_event:
  "wf_progress reg ks ke \<Longrightarrow> wf_key_event ke' \<Longrightarrow> ke_domain ke' = ke_domain ke \<Longrightarrow> wf_progress reg ks ke'"
  by (simp add: wf_progress_def)

lemma initializing_vote_pk_frame:
  assumes "initializing_vote_pk env s kid pk = Inr (s', r)"
  shows "is_cancel_votes s' = is_cancel_votes s" "is_epoch_id s' = is_epoch_id s"
    "ke_parameters (is_generating_key s') = ke_parameters (is_generating_key s)"
    "ke_epoch_id (is_generating_key s) = is_epoch_id s \<Longrightarrow> ke_epoch_id (is_generating_key s') = is_epoch_id s"
proof -
  from assms obtain ke b where k: "key_event_vote_success env (is_generating_key s) kid pk = Inr (ke, b)"
    by (auto simp: initializing_vote_pk_def res_simps)
  note f = key_event_vote_success_fields [OF k]
  show "is_cancel_votes s' = is_cancel_votes s" "is_epoch_id s' = is_epoch_id s"
    "ke_parameters (is_generating_key s') = ke_parameters (is_generating_key s)"
    "ke_epoch_id (is_generating_key s) = is_epoch_id s \<Longrightarrow> ke_epoch_id (is_generating_key s') = is_epoch_id s"
    using assms f
    by (auto simp: initializing_vote_pk_def k Let_def get_domain_by_index_cases key_event_new_def
        split: if_splits)
qed

lemma initializing_vote_pk_wf:
  assumes wf: "wf_initializing s" and v: "initializing_vote_pk env s kid pk = Inr (s', r)"
  shows "case r of None \<Rightarrow> wf_initializing s' | Some run \<Rightarrow> wf_running run"
proof (cases r)
  case None
  with gen.vote_progress [OF wf_initializingD(1) [OF wf]] v wf_initializingD [OF wf]
  show ?thesis
    by (simp add: wf_initializing_def initializing_vote_pk_frame [OF v])
next
  case (Some run)
  from v Some obtain ks votes where run: "run = running_new (is_domains s)
      \<lparr>ks_epoch_id = is_epoch_id s, ks_domains = ks\<rparr> (ke_parameters (is_generating_key s))
      add_domains_votes_default"
    by (auto simp: initializing_vote_pk_def res_simps Let_def get_domain_by_index_cases
        key_event_vote_success_fields(3) split: if_splits)
  have "keyset_ids (rs_keyset run) = domain_ids (dr_domains (is_domains s))"
    using gen.vote_finish [OF wf_initializingD(1) [OF wf]] v Some by blast
  then show ?thesis
    unfolding Some run using wf_initializingD(6,7) [OF wf] by (simp add: running_new_wf)
qed

lemma initializing_start_wf:
  assumes wf: "wf_initializing s" and v: "initializing_start env s kid t = Inr s'"
  shows "wf_initializing s'"
proof -
  from v obtain ke where k: "key_event_start env (is_generating_key s) kid t = Inr ke"
    and s': "s' = s\<lparr>is_generating_key := ke\<rparr>"
    by (auto simp: initializing_start_def res_simps)
  note w = wf_initializingD [OF wf]
  have f: "ke_domain ke = ke_domain (is_generating_key s)" "ke_epoch_id ke = ke_epoch_id (is_generating_key s)"
    "ke_parameters ke = ke_parameters (is_generating_key s)"
    using k by (auto simp: key_event_start_eq)
  show ?thesis
    using w wf_progress_event [OF w(1) key_event_start_wf [OF w(5) k] f(1)]
    by (simp add: wf_initializing_def s' f)
qed

lemma initializing_vote_abort_wf:
  assumes wf: "wf_initializing s" and v: "initializing_vote_abort env s kid = Inr s'"
  shows "wf_initializing s'"
proof -
  from v obtain ke where k: "key_event_vote_abort env (is_generating_key s) kid = Inr ke"
    and s': "s' = s\<lparr>is_generating_key := ke\<rparr>"
    by (auto simp: initializing_vote_abort_def res_simps)
  note w = wf_initializingD [OF wf]
  have f: "ke_domain ke = ke_domain (is_generating_key s)" "ke_epoch_id ke = ke_epoch_id (is_generating_key s)"
    "ke_parameters ke = ke_parameters (is_generating_key s)"
    using k by (auto simp: key_event_vote_abort_eq)
  show ?thesis
    using w wf_progress_event [OF w(1) key_event_vote_abort_wf [OF w(5) k] f(1)]
    by (simp add: wf_initializing_def s' f)
qed

text \<open>A cancelled key generation keeps the domains that have a key, and no id is given back.\<close>

lemma initializing_vote_cancel_Inr:
  assumes "initializing_vote_cancel env s n = Inr (s', r)"
  obtains i where "n = dr_next_domain_id (is_domains s)"
    "authenticated_participant_id env (tp_participants (ke_parameters (is_generating_key s))) = Inr i"
    "s' = s\<lparr>is_cancel_votes := insert i (is_cancel_votes s)\<rparr>"
    "r = (if i \<notin> is_cancel_votes s \<and>
             tp_threshold (ke_parameters (is_generating_key s)) \<le> card (insert i (is_cancel_votes s))
          then Some (running_new (retain_domains (is_domains s) (length (is_generated_keys s)))
            \<lparr>ks_epoch_id = is_epoch_id s, ks_domains = is_generated_keys s\<rparr>
            (ke_parameters (is_generating_key s)) add_domains_votes_default)
          else None)"
  using assms by (auto simp: initializing_vote_cancel_def res_simps Let_def split: if_splits)

lemma initializing_vote_cancel_wf:
  assumes wf: "wf_initializing s" and v: "initializing_vote_cancel env s n = Inr (s', r)"
  shows "case r of None \<Rightarrow> wf_initializing s' | Some run \<Rightarrow> wf_running run"
  using v
proof (rule initializing_vote_cancel_Inr)
  fix i
  assume i: "authenticated_participant_id env (tp_participants (ke_parameters (is_generating_key s))) = Inr i"
    and s': "s' = s\<lparr>is_cancel_votes := insert i (is_cancel_votes s)\<rparr>"
    and r: "r = (if i \<notin> is_cancel_votes s \<and>
             tp_threshold (ke_parameters (is_generating_key s)) \<le> card (insert i (is_cancel_votes s))
          then Some (running_new (retain_domains (is_domains s) (length (is_generated_keys s)))
            \<lparr>ks_epoch_id = is_epoch_id s, ks_domains = is_generated_keys s\<rparr>
            (ke_parameters (is_generating_key s)) add_domains_votes_default)
          else None)"
  note w = wf_initializingD [OF wf]
  have "keyset_ids \<lparr>ks_epoch_id = is_epoch_id s, ks_domains = is_generated_keys s\<rparr> =
      domain_ids (dr_domains (retain_domains (is_domains s) (length (is_generated_keys s))))"
    using w(1) by (simp add: wf_progress_def retain_domains_def take_map)
  moreover have "card (insert i (is_cancel_votes s)) < tp_threshold (ke_parameters (is_generating_key s))"
    if "r = None"
    using that w(4) unfolding r by (cases "i \<in> is_cancel_votes s") (auto simp: insert_absorb not_le split: if_splits)
  ultimately show ?thesis
    using w authenticated_participant_id_mem [OF i]
    by (cases r) (auto simp: r s' wf_initializing_def running_new_wf retain_domains_wf split: if_splits)
qed

section \<open>The invariant of Resharing\<close>

abbreviation ss_prev :: "resharing_state \<Rightarrow> running_state" where
  "ss_prev s \<equiv> ss_previous_running_state s"

abbreviation ss_proposal :: "resharing_state \<Rightarrow> threshold_parameters" where
  "ss_proposal s \<equiv> ke_parameters (ss_resharing_key s)"

lemma wf_resharingD:
  assumes "wf_resharing s"
  shows "wf_running (ss_prev s)"
    and "wf_progress (rs_domains (ss_prev s)) (ss_reshared_keys s) (ss_resharing_key s)"
    and "map kfd_key (ss_reshared_keys s) =
      take (length (ss_reshared_keys s)) (map kfd_key (ks_domains (rs_keyset (ss_prev s))))"
    and "ks_epoch_id (rs_keyset (ss_prev s)) < ke_epoch_id (ss_resharing_key s)"
    and "rs_previously_cancelled_resharing_epoch_id (ss_prev s) = None"
    and "tp_threshold (rs_parameters (ss_prev s)) \<le>
      card (tp_accounts (ss_proposal s) \<inter> tp_accounts (rs_parameters (ss_prev s)))"
    and "ss_cancellation_requests s \<subseteq> tp_accounts (rs_parameters (ss_prev s))"
    and "card (ss_cancellation_requests s) < tp_threshold (rs_parameters (ss_prev s))"
    and "wf_key_event (ss_resharing_key s)" and "wf_parameters (ss_proposal s)"
    and "length (ss_reshared_keys s) < length (ks_domains (rs_keyset (ss_prev s)))"
proof -
  show "length (ss_reshared_keys s) < length (ks_domains (rs_keyset (ss_prev s)))"
  proof -
    have "length (ks_domains (rs_keyset (ss_prev s))) = length (dr_domains (rs_domains (ss_prev s)))"
      using assms arg_cong [OF wf_runningD(2), of "ss_prev s" length]
      by (simp add: wf_resharing_def Let_def)
    then show ?thesis using assms by (simp add: wf_resharing_def Let_def wf_progress_def)
  qed
qed (use assms in \<open>simp_all add: wf_resharing_def Let_def wf_progress_def wf_key_event_def\<close>)

text \<open>The read of \<^verbatim>\<open>previous_keyset().domains[reshared_keys.len()]\<close> is in bounds.\<close>

lemma resharing_vote_reshared_no_panic:
  "wf_resharing s \<Longrightarrow> resharing_vote_reshared env s kid \<noteq> Inl (Panic IndexOutOfBounds)"
  using wf_resharingD(11) [of s]
  by (auto simp: resharing_vote_reshared_def resharing_previous_keyset_def Let_def bind_res_eq_Inl
      key_event_vote_success_def verify_vote_def authenticated_participant_id_Inl
      instance_vote_success_eq ok_or_def get_domain_by_index_cases
      split: if_splits option.splits vote_success_result.splits)

lemma resharing_vote_reshared_eq:
  assumes wf: "wf_resharing s" and v: "resharing_vote_reshared env s kid = Inr (s', r)"
  obtains ke b where
    "key_event_vote_success env (ss_resharing_key s) kid
       (kfd_key (ks_domains (rs_keyset (ss_prev s)) ! length (ss_reshared_keys s))) = Inr (ke, b)"
    "ss_prev s' = ss_prev s" "ss_cancellation_requests s' = ss_cancellation_requests s"
    "ss_proposal s' = ss_proposal s" "ke_epoch_id (ss_resharing_key s') = ke_epoch_id (ss_resharing_key s)"
    "ss_reshared_keys s' = (if b then ss_reshared_keys s @
       [voted_key kid (kfd_key (ks_domains (rs_keyset (ss_prev s)) ! length (ss_reshared_keys s)))]
       else ss_reshared_keys s)"
    "r = (if b \<and> \<not> length (ss_reshared_keys s') < length (dr_domains (rs_domains (ss_prev s)))
       then Some (running_new (rs_domains (ss_prev s))
         \<lparr>ks_epoch_id = resharing_prospective_epoch_id s, ks_domains = ss_reshared_keys s'\<rparr>
         (ss_proposal s) (rs_add_domains_votes (ss_prev s)))
       else None)"
proof -
  from v obtain ke b where k: "key_event_vote_success env (ss_resharing_key s) kid
       (kfd_key (ks_domains (rs_keyset (ss_prev s)) ! length (ss_reshared_keys s))) = Inr (ke, b)"
    by (auto simp: resharing_vote_reshared_def resharing_previous_keyset_def res_simps Let_def
        split: if_splits)
  note f = key_event_vote_success_fields [OF k]
  show thesis
    using v f wf_resharingD(11) [OF wf]
    by (intro that [OF k])
      (auto simp: resharing_vote_reshared_def resharing_previous_keyset_def k Let_def
        get_domain_by_index_cases resharing_prospective_epoch_id_def key_event_new_def split: if_splits)
qed

lemma resharing_keys_copied:
  assumes "wf_resharing s"
  shows "map kfd_key (ss_reshared_keys s @
      [voted_key kid (kfd_key (ks_domains (rs_keyset (ss_prev s)) ! length (ss_reshared_keys s)))]) =
    take (Suc (length (ss_reshared_keys s))) (map kfd_key (ks_domains (rs_keyset (ss_prev s))))"
  using wf_resharingD(3,11) [OF assms] by (simp add: take_Suc_conv_app_nth)

lemma resharing_vote_reshared_wf:
  assumes wf: "wf_resharing s" and v: "resharing_vote_reshared env s kid = Inr (s', r)"
  shows "case r of None \<Rightarrow> wf_resharing s' | Some run \<Rightarrow> wf_running run"
  using wf v
proof (rule resharing_vote_reshared_eq)
  fix ke b
  assume f: "ss_prev s' = ss_prev s" "ss_cancellation_requests s' = ss_cancellation_requests s"
    "ss_proposal s' = ss_proposal s" "ke_epoch_id (ss_resharing_key s') = ke_epoch_id (ss_resharing_key s)"
    and keys: "ss_reshared_keys s' = (if b then ss_reshared_keys s @
       [voted_key kid (kfd_key (ks_domains (rs_keyset (ss_prev s)) ! length (ss_reshared_keys s)))]
       else ss_reshared_keys s)"
    and r: "r = (if b \<and> \<not> length (ss_reshared_keys s') < length (dr_domains (rs_domains (ss_prev s)))
       then Some (running_new (rs_domains (ss_prev s))
         \<lparr>ks_epoch_id = resharing_prospective_epoch_id s, ks_domains = ss_reshared_keys s'\<rparr>
         (ss_proposal s) (rs_add_domains_votes (ss_prev s)))
       else None)"
  note w = wf_resharingD [OF wf]
  show ?thesis
  proof (cases r)
    case None
    have copied: "map kfd_key (ss_reshared_keys s') =
        take (length (ss_reshared_keys s')) (map kfd_key (ks_domains (rs_keyset (ss_prev s))))"
      using resharing_keys_copied [OF wf, of kid] w(3) by (simp add: keys split: if_splits)
    have "wf_progress (rs_domains (ss_prev s')) (ss_reshared_keys s') (ss_resharing_key s')"
      using resh.vote_progress [OF w(2)] v None by simp
    then show ?thesis
      using w(1,4-8) copied by (simp add: None wf_resharing_def Let_def f)
  next
    case (Some run)
    from resh.vote_finish [OF w(2)] v Some
    have "keyset_ids (rs_keyset run) = domain_ids (dr_domains (rs_domains (ss_prev s)))" by blast
    moreover have "run = running_new (rs_domains (ss_prev s))
         \<lparr>ks_epoch_id = resharing_prospective_epoch_id s, ks_domains = ss_reshared_keys s'\<rparr>
         (ss_proposal s) (rs_add_domains_votes (ss_prev s))"
      using r Some by (simp split: if_splits)
    ultimately show ?thesis
      using w(10) wf_runningD(1,6) [OF w(1)] by (simp add: Some running_new_wf)
  qed
qed

lemma wf_resharing_event:
  assumes wf: "wf_resharing s" and ke: "wf_key_event ke" "ke_domain ke = ke_domain (ss_resharing_key s)"
    "ke_epoch_id ke = ke_epoch_id (ss_resharing_key s)" "ke_parameters ke = ss_proposal s"
  shows "wf_resharing (s\<lparr>ss_resharing_key := ke\<rparr>)"
  using wf_resharingD [OF wf] wf_progress_event [OF wf_resharingD(2) [OF wf] ke(1,2)] ke(3,4)
  by (simp add: wf_resharing_def Let_def)

lemma resharing_start_wf:
  assumes wf: "wf_resharing s" and v: "resharing_start env s kid t = Inr s'"
  shows "wf_resharing s'"
proof -
  from v obtain ke where k: "key_event_start env (ss_resharing_key s) kid t = Inr ke"
    and s': "s' = s\<lparr>ss_resharing_key := ke\<rparr>"
    by (auto simp: resharing_start_def res_simps)
  have "ke_domain ke = ke_domain (ss_resharing_key s)" "ke_epoch_id ke = ke_epoch_id (ss_resharing_key s)"
    "ke_parameters ke = ss_proposal s"
    using k by (auto simp: key_event_start_eq)
  then show ?thesis
    unfolding s' by (rule wf_resharing_event [OF wf key_event_start_wf [OF wf_resharingD(9) [OF wf] k]])
qed

lemma resharing_vote_abort_wf:
  assumes wf: "wf_resharing s" and v: "resharing_vote_abort env s kid = Inr s'"
  shows "wf_resharing s'"
proof -
  from v obtain ke where k: "key_event_vote_abort env (ss_resharing_key s) kid = Inr ke"
    and s': "s' = s\<lparr>ss_resharing_key := ke\<rparr>"
    by (auto simp: resharing_vote_abort_def res_simps)
  have "ke_domain ke = ke_domain (ss_resharing_key s)" "ke_epoch_id ke = ke_epoch_id (ss_resharing_key s)"
    "ke_parameters ke = ss_proposal s"
    using k by (auto simp: key_event_vote_abort_eq)
  then show ?thesis
    unfolding s' by (rule wf_resharing_event [OF wf key_event_vote_abort_wf [OF wf_resharingD(9) [OF wf] k]])
qed

lemma resharing_vote_cancel_resharing_Inr:
  assumes "resharing_vote_cancel_resharing env s = Inr (s', r)"
  shows "env_signer_account_id env \<in> tp_accounts (rs_parameters (ss_prev s))"
    and "s' = s\<lparr>ss_cancellation_requests :=
      insert (env_signer_account_id env) (ss_cancellation_requests s)\<rparr>"
    and "r = (if tp_threshold (rs_parameters (ss_prev s)) \<le>
            card (insert (env_signer_account_id env) (ss_cancellation_requests s))
       then Some ((ss_prev s)\<lparr>rs_previously_cancelled_resharing_epoch_id :=
              Some (resharing_prospective_epoch_id s)\<rparr>)
       else None)"
  using assms
  by (auto simp: resharing_vote_cancel_resharing_def res_simps Let_def resharing_prospective_epoch_id_def)

lemma resharing_vote_cancel_resharing_wf:
  assumes wf: "wf_resharing s" and v: "resharing_vote_cancel_resharing env s = Inr (s', r)"
  shows "case r of None \<Rightarrow> wf_resharing s' | Some run \<Rightarrow> wf_running run"
proof (cases r)
  case None
  note c = resharing_vote_cancel_resharing_Inr [OF v]
  have "card (insert (env_signer_account_id env) (ss_cancellation_requests s)) <
      tp_threshold (rs_parameters (ss_prev s))"
    using c(3) None by (simp add: not_le split: if_splits)
  then show ?thesis
    using wf_resharingD [OF wf] c(1) by (simp add: None c(2) wf_resharing_def Let_def)
next
  case (Some run)
  then have "run = (ss_prev s)\<lparr>rs_previously_cancelled_resharing_epoch_id :=
              Some (resharing_prospective_epoch_id s)\<rparr>"
    using resharing_vote_cancel_resharing_Inr(3) [OF v] by (simp split: if_splits)
  then show ?thesis
    using wf_resharingD(1,4) [OF wf]
    by (simp add: Some wf_running_def resharing_prospective_epoch_id_def)
qed

lemma resharing_vote_new_parameters_Inr:
  assumes "resharing_vote_new_parameters env s e proposal = Inr (s', next)"
  shows "epoch_id_next (resharing_prospective_epoch_id s) = Inr e \<and>
    (\<exists>prev accepted. process_new_parameters_proposal env (ss_prev s) proposal = Inr (prev, accepted) \<and>
       s' = s\<lparr>ss_previous_running_state := prev\<rparr> \<and>
       (if accepted
        then dr_domains (rs_domains prev) \<noteq> [] \<and> next = Some
           \<lparr>ss_previous_running_state = running_new (rs_domains prev) (rs_keyset prev)
              (rs_parameters prev) (rs_add_domains_votes prev),
            ss_reshared_keys = [],
            ss_resharing_key = key_event_new e (hd (dr_domains (rs_domains prev))) proposal,
            ss_cancellation_requests = {}\<rparr>
        else next = None))"
proof -
  from assms obtain p where e: "epoch_id_next (resharing_prospective_epoch_id s) = Inr e"
    and p: "process_new_parameters_proposal env (ss_prev s) proposal = Inr p"
    by (auto simp: resharing_vote_new_parameters_def res_simps split: if_splits)
  obtain prev accepted where pp: "p = (prev, accepted)" by (cases p)
  have "resharing_prospective_epoch_id (s\<lparr>ss_previous_running_state := prev\<rparr>) =
      resharing_prospective_epoch_id s"
    by (simp add: resharing_prospective_epoch_id_def)
  then show ?thesis
    using assms e p
    by (cases "dr_domains (rs_domains prev)")
      (auto simp: resharing_vote_new_parameters_def pp Let_def get_domain_by_index_def
        split: if_splits)
qed

lemma resharing_vote_new_parameters_wf:
  assumes wf: "wf_resharing s" and u: "u32_participants (tp_participants proposal)"
    and v: "resharing_vote_new_parameters env s e proposal = Inr (s', next)"
  shows "case next of None \<Rightarrow> wf_resharing s' | Some s'' \<Rightarrow> wf_resharing s''"
proof -
  note w = wf_resharingD [OF wf]
  from resharing_vote_new_parameters_Inr [OF v] obtain prev accepted where
    e: "epoch_id_next (resharing_prospective_epoch_id s) = Inr e"
    and p: "process_new_parameters_proposal env (ss_prev s) proposal = Inr (prev, accepted)"
    and s': "s' = s\<lparr>ss_previous_running_state := prev\<rparr>"
    and nx: "if accepted
        then dr_domains (rs_domains prev) \<noteq> [] \<and> next = Some
           \<lparr>ss_previous_running_state = running_new (rs_domains prev) (rs_keyset prev)
              (rs_parameters prev) (rs_add_domains_votes prev),
            ss_reshared_keys = [],
            ss_resharing_key = key_event_new e (hd (dr_domains (rs_domains prev))) proposal,
            ss_cancellation_requests = {}\<rparr>
        else next = None" by blast
  note wp = process_new_parameters_proposal_wf [OF w(1) u p]
  have prev: "rs_domains prev = rs_domains (ss_prev s)" "rs_keyset prev = rs_keyset (ss_prev s)"
    "rs_parameters prev = rs_parameters (ss_prev s)"
    "rs_add_domains_votes prev = rs_add_domains_votes (ss_prev s)"
    "rs_previously_cancelled_resharing_epoch_id prev = None"
    using process_new_parameters_proposal_Inr(4) [OF w(1) u p] w(5) by simp_all
  have lt: "ks_epoch_id (rs_keyset (ss_prev s)) < e"
    using w(4) e by (simp add: epoch_id_next_def resharing_prospective_epoch_id_def)
  show ?thesis
  proof (cases accepted)
    case True
    note wr = wf_runningD [OF w(1)]
    have "2 \<le> tp_threshold (rs_parameters (ss_prev s))" using wf_parametersD(3) [OF wr(3)] .
    then show ?thesis
      using nx True wp(2,3) lt wr w(5)
      by (simp add: wf_resharing_def Let_def wf_progress_def running_new_wf wf_key_event_new prev hd_conv_nth)
        (simp add: key_event_new_def)
  next
    case False
    then show ?thesis
      using nx w wp(1) by (simp add: wf_resharing_def Let_def s' prev)
  qed
qed

end
