(* ===== verification/Protocol.thy ===== *)
theory Protocol
  imports KeyRotation
begin

text \<open>
  The protocol state machine (\<^verbatim>\<open>crates/contract/src/state.rs\<close>): the sum of the states, the
  operations that dispatch on it, its invariant, and the step relation of everything that changes
  it, with what holds along every execution.
\<close>

section \<open>States and queries\<close>

datatype protocol_state =
  NotInitialized
| Initializing initializing_state
| Running running_state
| Resharing resharing_state

definition protocol_domain_registry :: "protocol_state \<Rightarrow> domain_registry res" where
  "protocol_domain_registry p = (case p of
       Running r \<Rightarrow> Inr (rs_domains r)
     | Resharing s \<Rightarrow> Inr (rs_domains (ss_previous_running_state s))
     | _ \<Rightarrow> Inl (Err (InvalidState ProtocolStateNotRunningNorResharing)))"

definition protocol_public_key :: "protocol_state \<Rightarrow> domain_id \<Rightarrow> public_key_extended res" where
  "protocol_public_key p d = (case p of
       Running r \<Rightarrow> keyset_public_key (rs_keyset r) d
     | Resharing s \<Rightarrow> keyset_public_key (resharing_previous_keyset s) d
     | _ \<Rightarrow> Inl (Err (InvalidState ProtocolStateNotRunningNorResharing)))"

definition protocol_threshold :: "protocol_state \<Rightarrow> nat res" where
  "protocol_threshold p = (case p of
       Initializing s \<Rightarrow> Inr (tp_threshold (ke_parameters (is_generating_key s)))
     | Running r \<Rightarrow> Inr (tp_threshold (rs_parameters r))
     | Resharing s \<Rightarrow> Inr (tp_threshold (rs_parameters (ss_previous_running_state s)))
     | NotInitialized \<Rightarrow> Inl (Err (InvalidState UnexpectedProtocolState)))"

definition protocol_most_recent_domain_for_protocol ::
  "protocol_state \<Rightarrow> signature_scheme \<Rightarrow> domain_id res" where
  "protocol_most_recent_domain_for_protocol p scheme =
     bind_res (protocol_domain_registry p) (\<lambda>reg.
     ok_or (most_recent_domain_for_protocol reg scheme) (Err (DomainError NoSuchDomain)))"

text \<open>\<open>None\<close> is the error \<^verbatim>\<open>ContractNotInitialized\<close>.\<close>

definition protocol_threshold_parameters :: "protocol_state \<Rightarrow> threshold_parameters option" where
  "protocol_threshold_parameters p = (case p of
       NotInitialized \<Rightarrow> None
     | Initializing s \<Rightarrow> Some (ke_parameters (is_generating_key s))
     | Running r \<Rightarrow> Some (rs_parameters r)
     | Resharing s \<Rightarrow> Some (rs_parameters (ss_previous_running_state s)))"

definition is_running_or_resharing :: "protocol_state \<Rightarrow> bool" where
  "is_running_or_resharing p = (case p of Running _ \<Rightarrow> True | Resharing _ \<Rightarrow> True | _ \<Rightarrow> False)"

definition authenticate_update_vote :: "env \<Rightarrow> protocol_state \<Rightarrow> unit res" where
  "authenticate_update_vote env p =
     (let auth = (\<lambda>ps. bind_res (authenticated_participant_id env ps) (\<lambda>_. Inr ())) in
      case p of
        Initializing s \<Rightarrow> auth (tp_participants (ke_parameters (is_generating_key s)))
      | Running r \<Rightarrow> auth (tp_participants (rs_parameters r))
      | Resharing s \<Rightarrow> auth (tp_participants (rs_parameters (ss_previous_running_state s)))
      | NotInitialized \<Rightarrow> Inl (Err (InvalidState UnexpectedProtocolState)))"

definition active_participants :: "protocol_state \<Rightarrow> participants res" where
  "active_participants p = (case p of
       Initializing s \<Rightarrow> Inr (tp_participants (ke_parameters (is_generating_key s)))
     | Running r \<Rightarrow> Inr (tp_participants (rs_parameters r))
     | Resharing s \<Rightarrow> Inr (tp_participants (ke_parameters (ss_resharing_key s)))
     | NotInitialized \<Rightarrow> Inl (Panic PanicText))"

definition is_existing_or_prospective_participant :: "protocol_state \<Rightarrow> account_id \<Rightarrow> bool res" where
  "is_existing_or_prospective_participant p a = (case p of
       Initializing s \<Rightarrow> Inr (initializing_is_participant_given_account_id s a)
     | Running r \<Rightarrow> Inr (running_is_participant_given_account_id r a)
     | Resharing s \<Rightarrow> Inr (resharing_is_participant_or_prospective s a)
     | NotInitialized \<Rightarrow> Inl (Err (InvalidState UnexpectedProtocolState)))"

section \<open>Operations\<close>

text \<open>
  A method takes the state by mutable reference and may return a new state; its result is the pair
  of both. \<open>commit_state\<close> is the assignment \<^verbatim>\<open>self.protocol_state = new_state\<close> of the callers.
\<close>

definition commit_state :: "protocol_state \<times> protocol_state option \<Rightarrow> protocol_state" where
  "commit_state p = (case snd p of Some new_state \<Rightarrow> new_state | None \<Rightarrow> fst p)"

definition map_states ::
  "('a \<Rightarrow> protocol_state) \<Rightarrow> ('b \<Rightarrow> protocol_state) \<Rightarrow> ('a \<times> 'b option) res \<Rightarrow>
     (protocol_state \<times> protocol_state option) res" where
  "map_states f g r = bind_res r (\<lambda>(x, y). Inr (f x, map_option g y))"

definition protocol_start_keygen_instance ::
  "env \<Rightarrow> protocol_state \<Rightarrow> key_event_id \<Rightarrow> nat \<Rightarrow> protocol_state res" where
  "protocol_start_keygen_instance env p kid timeout_blocks = (case p of
       Initializing s \<Rightarrow> bind_res (initializing_start env s kid timeout_blocks) (Inr \<circ> Initializing)
     | _ \<Rightarrow> Inl (Err (InvalidState ProtocolStateNotInitializing)))"

definition protocol_start_reshare_instance ::
  "env \<Rightarrow> protocol_state \<Rightarrow> key_event_id \<Rightarrow> nat \<Rightarrow> protocol_state res" where
  "protocol_start_reshare_instance env p kid timeout_blocks = (case p of
       Resharing s \<Rightarrow> bind_res (resharing_start env s kid timeout_blocks) (Inr \<circ> Resharing)
     | _ \<Rightarrow> Inl (Err (InvalidState ProtocolStateNotResharing)))"

definition protocol_vote_reshared ::
  "env \<Rightarrow> protocol_state \<Rightarrow> key_event_id \<Rightarrow> (protocol_state \<times> protocol_state option) res" where
  "protocol_vote_reshared env p kid = (case p of
       Resharing s \<Rightarrow> map_states Resharing Running (resharing_vote_reshared env s kid)
     | _ \<Rightarrow> Inl (Err (InvalidState ProtocolStateNotResharing)))"

definition protocol_vote_cancel_resharing ::
  "env \<Rightarrow> protocol_state \<Rightarrow> (protocol_state \<times> protocol_state option) res" where
  "protocol_vote_cancel_resharing env p = (case p of
       Resharing s \<Rightarrow> map_states Resharing Running (resharing_vote_cancel_resharing env s)
     | _ \<Rightarrow> Inl (Err (InvalidState ProtocolStateNotResharing)))"

definition protocol_vote_pk ::
  "env \<Rightarrow> protocol_state \<Rightarrow> key_event_id \<Rightarrow> public_key_extended \<Rightarrow>
     (protocol_state \<times> protocol_state option) res" where
  "protocol_vote_pk env p kid public_key = (case p of
       Initializing s \<Rightarrow> map_states Initializing Running (initializing_vote_pk env s kid public_key)
     | _ \<Rightarrow> Inl (Err (InvalidState ProtocolStateNotInitializing)))"

definition protocol_vote_new_parameters ::
  "env \<Rightarrow> protocol_state \<Rightarrow> epoch_id \<Rightarrow> threshold_parameters \<Rightarrow>
     (protocol_state \<times> protocol_state option) res" where
  "protocol_vote_new_parameters env p prospective_epoch_id proposal = (case p of
       Running r \<Rightarrow>
         map_states Running Resharing (running_vote_new_parameters env r prospective_epoch_id proposal)
     | Resharing s \<Rightarrow>
         map_states Resharing Resharing (resharing_vote_new_parameters env s prospective_epoch_id proposal)
     | _ \<Rightarrow> Inl (Err (InvalidState ProtocolStateNotRunningNorResharing)))"

definition protocol_vote_add_domains ::
  "env \<Rightarrow> protocol_state \<Rightarrow> domain_config list \<Rightarrow> (protocol_state \<times> protocol_state option) res" where
  "protocol_vote_add_domains env p domains = (case p of
       Running r \<Rightarrow> map_states Running Initializing (running_vote_add_domains env r domains)
     | _ \<Rightarrow> Inl (Err (InvalidState ProtocolStateNotRunning)))"

definition protocol_vote_abort_key_event_instance ::
  "env \<Rightarrow> protocol_state \<Rightarrow> key_event_id \<Rightarrow> protocol_state res" where
  "protocol_vote_abort_key_event_instance env p kid = (case p of
       Resharing s \<Rightarrow> bind_res (resharing_vote_abort env s kid) (Inr \<circ> Resharing)
     | Initializing s \<Rightarrow> bind_res (initializing_vote_abort env s kid) (Inr \<circ> Initializing)
     | _ \<Rightarrow> Inl (Err (InvalidState ProtocolStateNotRunningNorResharing)))"

definition protocol_vote_cancel_keygen ::
  "env \<Rightarrow> protocol_state \<Rightarrow> nat \<Rightarrow> (protocol_state \<times> protocol_state option) res" where
  "protocol_vote_cancel_keygen env p next_domain_id = (case p of
       Initializing s \<Rightarrow>
         map_states Initializing Running (initializing_vote_cancel env s next_domain_id)
     | _ \<Rightarrow> Inl (Err (InvalidState ProtocolStateNotInitializing)))"

section \<open>The step relation\<close>

text \<open>
  Everything the contract does to its protocol state: the operations above, the resharing that
  \<^verbatim>\<open>verify_tee\<close> forces on a subset of the participants, and the update of a participant's info at
  the end of a node migration.
\<close>

inductive protocol_step :: "protocol_state \<Rightarrow> protocol_state \<Rightarrow> bool" where
  step_vote_new_parameters:
    "protocol_vote_new_parameters env p e proposal = Inr res \<Longrightarrow>
     u32_participants (tp_participants proposal) \<Longrightarrow> protocol_step p (commit_state res)"
| step_vote_add_domains:
    "protocol_vote_add_domains env p ds = Inr res \<Longrightarrow> protocol_step p (commit_state res)"
| step_start_keygen:
    "protocol_start_keygen_instance env p kid t = Inr p' \<Longrightarrow> protocol_step p p'"
| step_vote_pk:
    "protocol_vote_pk env p kid pk = Inr res \<Longrightarrow> protocol_step p (commit_state res)"
| step_start_reshare:
    "protocol_start_reshare_instance env p kid t = Inr p' \<Longrightarrow> protocol_step p p'"
| step_vote_reshared:
    "protocol_vote_reshared env p kid = Inr res \<Longrightarrow> protocol_step p (commit_state res)"
| step_vote_cancel_resharing:
    "protocol_vote_cancel_resharing env p = Inr res \<Longrightarrow> protocol_step p (commit_state res)"
| step_vote_cancel_keygen:
    "protocol_vote_cancel_keygen env p n = Inr res \<Longrightarrow> protocol_step p (commit_state res)"
| step_vote_abort:
    "protocol_vote_abort_key_event_instance env p kid = Inr p' \<Longrightarrow> protocol_step p p'"
| step_tee_resharing:
    "validate_incoming_proposal (rs_parameters r) proposal = Inr () \<Longrightarrow>
     u32_participants (tp_participants proposal) \<Longrightarrow>
     transition_to_resharing_no_checks r proposal = Inr res \<Longrightarrow>
     protocol_step (Running r)
       (case res of (r', Some s) \<Rightarrow> Resharing s | (r', None) \<Rightarrow> Running r')"
| step_update_info:
    "threshold_parameters_update_info (rs_parameters r) a info = Inr params \<Longrightarrow>
     protocol_step (Running r) (Running (r\<lparr>rs_parameters := params\<rparr>))"

section \<open>Invariant\<close>

fun wf_protocol :: "protocol_state \<Rightarrow> bool" where
  "wf_protocol NotInitialized = True"
| "wf_protocol (Initializing s) = wf_initializing s"
| "wf_protocol (Running r) = wf_running r"
| "wf_protocol (Resharing s) = wf_resharing s"

lemmas protocol_op_defs = protocol_vote_new_parameters_def protocol_vote_add_domains_def
  protocol_start_keygen_instance_def protocol_vote_pk_def protocol_start_reshare_instance_def
  protocol_vote_reshared_def protocol_vote_cancel_resharing_def protocol_vote_cancel_keygen_def
  protocol_vote_abort_key_event_instance_def

lemma map_states_Inr:
  "map_states f g m = Inr res \<longleftrightarrow> (\<exists>x y. m = Inr (x, y) \<and> res = (f x, map_option g y))"
  by (auto simp: map_states_def res_simps)

lemma commit_state_simps [simp]:
  "commit_state (f x, map_option g y) = (case y of None \<Rightarrow> f x | Some z \<Rightarrow> g z)"
  by (simp add: commit_state_def split: option.split)

text \<open>A step is an operation of the state it starts in.\<close>

lemma protocol_stepE [consumes 1]:
  assumes "protocol_step p p'"
  obtains
    (params) env r e proposal r' nx where "p = Running r"
      "running_vote_new_parameters env r e proposal = Inr (r', nx)"
      "u32_participants (tp_participants proposal)"
      "p' = (case nx of None \<Rightarrow> Running r' | Some s \<Rightarrow> Resharing s)"
  | (reparams) env s e proposal s' nx where "p = Resharing s"
      "resharing_vote_new_parameters env s e proposal = Inr (s', nx)"
      "u32_participants (tp_participants proposal)"
      "p' = (case nx of None \<Rightarrow> Resharing s' | Some s'' \<Rightarrow> Resharing s'')"
  | (domains) env r ds r' nx where "p = Running r" "running_vote_add_domains env r ds = Inr (r', nx)"
      "p' = (case nx of None \<Rightarrow> Running r' | Some s \<Rightarrow> Initializing s)"
  | (keygen) env s kid t s' where "p = Initializing s" "initializing_start env s kid t = Inr s'"
      "p' = Initializing s'"
  | (pk) env s kid pk s' nx where "p = Initializing s" "initializing_vote_pk env s kid pk = Inr (s', nx)"
      "p' = (case nx of None \<Rightarrow> Initializing s' | Some r \<Rightarrow> Running r)"
  | (reshare) env s kid t s' where "p = Resharing s" "resharing_start env s kid t = Inr s'"
      "p' = Resharing s'"
  | (reshared) env s kid s' nx where "p = Resharing s" "resharing_vote_reshared env s kid = Inr (s', nx)"
      "p' = (case nx of None \<Rightarrow> Resharing s' | Some r \<Rightarrow> Running r)"
  | (cancel_resharing) env s s' nx where "p = Resharing s"
      "resharing_vote_cancel_resharing env s = Inr (s', nx)"
      "p' = (case nx of None \<Rightarrow> Resharing s' | Some r \<Rightarrow> Running r)"
  | (cancel_keygen) env s n s' nx where "p = Initializing s"
      "initializing_vote_cancel env s n = Inr (s', nx)"
      "p' = (case nx of None \<Rightarrow> Initializing s' | Some r \<Rightarrow> Running r)"
  | (abort_keygen) env s kid s' where "p = Initializing s" "initializing_vote_abort env s kid = Inr s'"
      "p' = Initializing s'"
  | (abort_resharing) env s kid s' where "p = Resharing s" "resharing_vote_abort env s kid = Inr s'"
      "p' = Resharing s'"
  | (tee) r proposal r' nx where "p = Running r"
      "validate_incoming_proposal (rs_parameters r) proposal = Inr ()"
      "u32_participants (tp_participants proposal)"
      "transition_to_resharing_no_checks r proposal = Inr (r', nx)"
      "p' = (case nx of None \<Rightarrow> Running r' | Some s \<Rightarrow> Resharing s)"
  | (info) r a i params where "p = Running r"
      "threshold_parameters_update_info (rs_parameters r) a i = Inr params"
      "p' = Running (r\<lparr>rs_parameters := params\<rparr>)"
  using assms
proof cases
  case (step_vote_new_parameters env e proposal res)
  then show thesis
    by (cases p) (auto simp: protocol_vote_new_parameters_def map_states_Inr intro: params reparams)
next
  case (step_vote_add_domains env ds res)
  then show thesis
    by (cases p) (auto simp: protocol_vote_add_domains_def map_states_Inr intro: domains)
next
  case (step_start_keygen env kid t)
  then show thesis
    by (cases p) (auto simp: protocol_start_keygen_instance_def res_simps intro: keygen)
next
  case (step_vote_pk env kid pk' res)
  then show thesis
    by (cases p) (auto simp: protocol_vote_pk_def map_states_Inr intro: pk)
next
  case (step_start_reshare env kid t)
  then show thesis
    by (cases p) (auto simp: protocol_start_reshare_instance_def res_simps intro: reshare)
next
  case (step_vote_reshared env kid res)
  then show thesis
    by (cases p) (auto simp: protocol_vote_reshared_def map_states_Inr intro: reshared)
next
  case (step_vote_cancel_resharing env res)
  then show thesis
    by (cases p) (auto simp: protocol_vote_cancel_resharing_def map_states_Inr intro: cancel_resharing)
next
  case (step_vote_cancel_keygen env n res)
  then show thesis
    by (cases p) (auto simp: protocol_vote_cancel_keygen_def map_states_Inr intro: cancel_keygen)
next
  case (step_vote_abort env kid)
  then show thesis
    by (cases p) (auto simp: protocol_vote_abort_key_event_instance_def res_simps
        intro: abort_keygen abort_resharing)
next
  case (step_tee_resharing r proposal res)
  then show thesis
    by (cases res) (auto intro: tee split: option.splits)
next
  case (step_update_info r a i params)
  then show thesis by (auto intro: info)
qed

section \<open>The invariant is preserved\<close>

lemma update_info_parameters:
  assumes "threshold_parameters_update_info tp a i = Inr tp'"
  shows "tp_threshold tp' = tp_threshold tp" "tp_accounts tp' = tp_accounts tp"
    "ids_of (tp_participants tp') = ids_of (tp_participants tp)" "tp_len tp' = tp_len tp"
    "wf_parameters tp' = wf_parameters tp"
    "ps_next_id (tp_participants tp') = ps_next_id (tp_participants tp)"
proof -
  from assms obtain ps where ps: "participants_update_info (tp_participants tp) a i = Inr ps"
    "tp' = tp\<lparr>tp_participants := ps\<rparr>"
    by (auto simp: threshold_parameters_update_info_def res_simps)
  note u = update_info_wf [OF ps(1)]
  show "tp_threshold tp' = tp_threshold tp" "tp_accounts tp' = tp_accounts tp"
    "ids_of (tp_participants tp') = ids_of (tp_participants tp)" "tp_len tp' = tp_len tp"
    "wf_parameters tp' = wf_parameters tp"
    "ps_next_id (tp_participants tp') = ps_next_id (tp_participants tp)"
    using u by (simp_all add: ps(2) wf_parameters_def u32_participants_def)
qed

lemma tee_transition_wf:
  assumes wf: "wf_running r" and u: "u32_participants (tp_participants proposal)"
    and v: "validate_incoming_proposal (rs_parameters r) proposal = Inr ()"
    and t: "transition_to_resharing_no_checks r proposal = Inr (r', nx)"
  shows "case nx of None \<Rightarrow> wf_running r' | Some s \<Rightarrow> wf_resharing s"
proof -
  from validate_incoming_proposal_eq [OF wf_parametersD(1) [OF wf_runningD(3) [OF wf]] u] v
  have "wf_parameters proposal"
    "tp_threshold (rs_parameters r) \<le> card (tp_accounts proposal \<inter> tp_accounts (rs_parameters r))"
    by blast+
  from transition_wf [OF wf this t] show ?thesis by (auto split: option.splits)
qed

lemmas wf_step_facts = running_vote_new_parameters_wf resharing_vote_new_parameters_wf
  running_vote_add_domains_wf initializing_start_wf initializing_vote_pk_wf resharing_start_wf
  resharing_vote_reshared_wf resharing_vote_cancel_resharing_wf initializing_vote_cancel_wf
  initializing_vote_abort_wf resharing_vote_abort_wf tee_transition_wf

lemma protocol_step_wf: "protocol_step p p' \<Longrightarrow> wf_protocol p \<Longrightarrow> wf_protocol p'"
proof (induction rule: protocol_stepE)
  case (info r a i params)
  then show ?case by (simp add: wf_running_def update_info_parameters)
qed (auto split: option.splits dest: wf_step_facts)

section \<open>Keys are permanent\<close>

text \<open>The keys a state holds, with the Running keys of a Resharing state and the generated ones so far.\<close>

fun protocol_keys :: "protocol_state \<Rightarrow> key_for_domain list" where
  "protocol_keys NotInitialized = []"
| "protocol_keys (Initializing s) = is_generated_keys s"
| "protocol_keys (Running r) = ks_domains (rs_keyset r)"
| "protocol_keys (Resharing s) = ks_domains (rs_keyset (ss_prev s))"

definition lookup_key :: "key_for_domain list \<Rightarrow> domain_id \<Rightarrow> public_key_extended option" where
  "lookup_key ks d = map_of (zip (map kfd_domain_id ks) (map kfd_key ks)) d"

lemma lookup_key_find: "lookup_key ks d = map_option kfd_key (find (\<lambda>k. kfd_domain_id k = d) ks)"
  by (induction ks) (auto simp: lookup_key_def)

lemma lookup_key_append: "lookup_key ks d = Some pk \<Longrightarrow> lookup_key (ks @ ks') d = Some pk"
  by (auto simp: lookup_key_find dest: find_append_Some)

lemma keyset_public_key_lookup:
  "keyset_public_key ks d = ok_or (lookup_key (ks_domains ks) d) (Err (DomainError NoSuchDomain))"
  by (cases "find (\<lambda>k. kfd_domain_id k = d) (ks_domains ks)")
    (simp_all add: keyset_public_key_def lookup_key_find)

lemma transition_keys:
  assumes wf: "wf_running r" and t: "transition_to_resharing_no_checks r proposal = Inr (r', nx)"
  shows "case nx of None \<Rightarrow> ks_domains (rs_keyset r') = ks_domains (rs_keyset r)
    | Some s \<Rightarrow> rs_keyset (ss_prev s) = rs_keyset r"
  using t wf_runningD(2) [OF wf]
  by (auto simp: transition_to_resharing_no_checks_def get_domain_by_index_def res_simps
      split: if_splits)

lemma running_vote_new_parameters_keys:
  assumes wf: "wf_running r" and u: "u32_participants (tp_participants proposal)"
    and v: "running_vote_new_parameters env r e proposal = Inr (r', nx)"
  shows "case nx of None \<Rightarrow> ks_domains (rs_keyset r') = ks_domains (rs_keyset r)
    | Some s \<Rightarrow> rs_keyset (ss_prev s) = rs_keyset r"
proof -
  from running_vote_new_parameters_Inr [OF v] obtain r1 accepted where
    p: "process_new_parameters_proposal env r proposal = Inr (r1, accepted)"
    and t: "if accepted then transition_to_resharing_no_checks r1 proposal = Inr (r', nx)
       else r' = r1 \<and> nx = None" by blast
  have "rs_keyset r1 = rs_keyset r"
    using process_new_parameters_proposal_Inr(4) [OF wf u p] by simp
  with t transition_keys [OF process_new_parameters_proposal_wf(1) [OF wf u p], of proposal r' nx]
  show ?thesis by (cases accepted; cases nx) auto
qed

lemma resharing_vote_new_parameters_prev:
  assumes wf: "wf_resharing s" and u: "u32_participants (tp_participants proposal)"
    and v: "resharing_vote_new_parameters env s e proposal = Inr (s', nx)"
    and t: "t = (case nx of None \<Rightarrow> s' | Some s'' \<Rightarrow> s'')"
  shows "rs_keyset (ss_prev t) = rs_keyset (ss_prev s)" "rs_domains (ss_prev t) = rs_domains (ss_prev s)"
    "rs_parameters (ss_prev t) = rs_parameters (ss_prev s)"
proof -
  from resharing_vote_new_parameters_Inr [OF v] obtain prev accepted where
    p: "process_new_parameters_proposal env (ss_prev s) proposal = Inr (prev, accepted)"
    and k: "ss_prev t = prev \<or> ss_prev t = running_new (rs_domains prev) (rs_keyset prev)
              (rs_parameters prev) (rs_add_domains_votes prev)"
    using t by (auto split: if_splits)
  have "rs_keyset prev = rs_keyset (ss_prev s)" "rs_domains prev = rs_domains (ss_prev s)"
    "rs_parameters prev = rs_parameters (ss_prev s)"
    using process_new_parameters_proposal_Inr(4) [OF wf_resharingD(1) [OF wf] u p] by simp_all
  with k show "rs_keyset (ss_prev t) = rs_keyset (ss_prev s)"
    "rs_domains (ss_prev t) = rs_domains (ss_prev s)"
    "rs_parameters (ss_prev t) = rs_parameters (ss_prev s)" by auto
qed

text \<open>Resharing ends with the same domains and the same public keys it started from.\<close>

lemma resharing_finish_keys:
  assumes wf: "wf_resharing s" and v: "resharing_vote_reshared env s kid = Inr (s', Some run)"
  shows "keyset_ids (rs_keyset run) = keyset_ids (rs_keyset (ss_prev s))"
    and "map kfd_key (ks_domains (rs_keyset run)) = map kfd_key (ks_domains (rs_keyset (ss_prev s)))"
    and "rs_domains run = rs_domains (ss_prev s)" and "rs_parameters run = ss_proposal s"
    and "ks_epoch_id (rs_keyset run) = ke_epoch_id (ss_resharing_key s)"
proof -
  note w = wf_resharingD [OF wf] and f = resh.vote_finish [OF wf_resharingD(2) [OF wf] v]
  show ids: "keyset_ids (rs_keyset run) = keyset_ids (rs_keyset (ss_prev s))"
    using f wf_runningD(2) [OF w(1)] by simp
  show "rs_domains run = rs_domains (ss_prev s)" "rs_parameters run = ss_proposal s"
    "ks_epoch_id (rs_keyset run) = ke_epoch_id (ss_resharing_key s)"
    using f by (simp_all add: resharing_prospective_epoch_id_def)
  show "map kfd_key (ks_domains (rs_keyset run)) = map kfd_key (ks_domains (rs_keyset (ss_prev s)))"
    using wf v
  proof (rule resharing_vote_reshared_eq)
    fix ke b
    assume "ss_reshared_keys s' = (if b then ss_reshared_keys s @
       [voted_key kid (kfd_key (ks_domains (rs_keyset (ss_prev s)) ! length (ss_reshared_keys s)))]
       else ss_reshared_keys s)"
      "Some run = (if b \<and> \<not> length (ss_reshared_keys s') < length (dr_domains (rs_domains (ss_prev s)))
       then Some (running_new (rs_domains (ss_prev s))
         \<lparr>ks_epoch_id = resharing_prospective_epoch_id s, ks_domains = ss_reshared_keys s'\<rparr>
         (ss_proposal s) (rs_add_domains_votes (ss_prev s)))
       else None)"
    then have "map kfd_key (ks_domains (rs_keyset run)) =
        take (length (ks_domains (rs_keyset run))) (map kfd_key (ks_domains (rs_keyset (ss_prev s))))"
      using resharing_keys_copied [OF wf, of kid] by (simp split: if_splits)
    also have "length (ks_domains (rs_keyset run)) = length (ks_domains (rs_keyset (ss_prev s)))"
      using arg_cong [OF ids, of length] by simp
    finally show ?thesis by simp
  qed
qed

lemma protocol_step_keys:
  assumes "protocol_step p p'" "wf_protocol p" "lookup_key (protocol_keys p) d = Some pk"
  shows "lookup_key (protocol_keys p') d = Some pk"
  using assms
proof (induction rule: protocol_stepE)
  case (params env r e proposal r' nx)
  then show ?case using running_vote_new_parameters_keys by (fastforce split: option.splits)
next
  case (reparams env s e proposal s' nx)
  then show ?case using resharing_vote_new_parameters_prev(1) by (fastforce split: option.splits)
next
  case (domains env r ds r' nx)
  have "ks_domains (rs_keyset r') = ks_domains (rs_keyset r) \<and>
      (\<forall>s. nx = Some s \<longrightarrow> is_generated_keys s = ks_domains (rs_keyset r))"
    using domains by (auto elim!: running_vote_add_domains_Inr split: if_splits)
  with domains show ?case by (auto split: option.splits)
next
  case (pk env s kid pk' s' nx)
  have "\<exists>ks. protocol_keys p' = is_generated_keys s @ ks"
    using gen.vote_keys pk gen.vote_finish [OF wf_initializingD(1)]
    by (cases nx) (fastforce split: option.splits)+
  with pk show ?case by (auto intro: lookup_key_append)
next
  case (reshared env s kid s' nx)
  show ?case
  proof (cases nx)
    case None
    with reshared show ?thesis by (auto elim!: resharing_vote_reshared_eq)
  next
    case (Some run)
    with reshared resharing_finish_keys [of s env kid s' run] show ?thesis
      by (simp add: lookup_key_def)
  qed
next
  case (cancel_keygen env s n s' nx)
  then show ?case by (auto elim!: initializing_vote_cancel_Inr split: option.splits if_splits)
next
  case (cancel_resharing env s s' nx)
  then show ?case
    using resharing_vote_cancel_resharing_Inr(2,3) [of env s s' nx] by (auto split: option.splits if_splits)
next
  case (tee r proposal r' nx)
  then show ?case using transition_keys [of r proposal r' nx] by (auto split: option.splits)
qed (auto simp: initializing_start_def resharing_start_def initializing_vote_abort_def
    resharing_vote_abort_def res_simps)

section \<open>Domain ids are never reused\<close>

fun protocol_registry :: "protocol_state \<Rightarrow> domain_registry" where
  "protocol_registry NotInitialized = domain_registry_default"
| "protocol_registry (Initializing s) = is_domains s"
| "protocol_registry (Running r) = rs_domains r"
| "protocol_registry (Resharing s) = rs_domains (ss_prev s)"

lemma transition_frame:
  assumes "transition_to_resharing_no_checks r proposal = Inr (r', nx)"
  shows "case nx of
      None \<Rightarrow> rs_domains r' = rs_domains r \<and> rs_parameters r' = proposal \<and>
        ks_epoch_id (rs_keyset r') = Suc (ks_epoch_id (rs_keyset r))
    | Some s \<Rightarrow> rs_domains (ss_prev s) = rs_domains r \<and> rs_parameters (ss_prev s) = rs_parameters r \<and>
        rs_keyset (ss_prev s) = rs_keyset r"
  using assms
  by (auto simp: transition_to_resharing_no_checks_def res_simps epoch_id_next_def split: option.splits)

lemma running_vote_new_parameters_frame:
  assumes wf: "wf_running r" and u: "u32_participants (tp_participants proposal)"
    and v: "running_vote_new_parameters env r e proposal = Inr (r', nx)"
  shows "case nx of
      None \<Rightarrow> rs_domains r' = rs_domains r \<and>
        (rs_parameters r' = rs_parameters r \<and> rs_keyset r' = rs_keyset r \<or>
         ks_epoch_id (rs_keyset r) < ks_epoch_id (rs_keyset r'))
    | Some s \<Rightarrow> rs_domains (ss_prev s) = rs_domains r \<and> rs_parameters (ss_prev s) = rs_parameters r \<and>
        rs_keyset (ss_prev s) = rs_keyset r"
proof -
  from running_vote_new_parameters_Inr [OF v] obtain r1 accepted where
    p: "process_new_parameters_proposal env r proposal = Inr (r1, accepted)"
    and t: "if accepted then transition_to_resharing_no_checks r1 proposal = Inr (r', nx)
       else r' = r1 \<and> nx = None" by blast
  have "rs_keyset r1 = rs_keyset r" "rs_domains r1 = rs_domains r" "rs_parameters r1 = rs_parameters r"
    using process_new_parameters_proposal_Inr(4) [OF wf u p] by simp_all
  with t transition_frame [of r1 proposal r' nx] show ?thesis
    by (cases accepted; cases nx) auto
qed

lemma running_vote_add_domains_frame:
  assumes wf: "wf_running r" and v: "running_vote_add_domains env r ds = Inr (r', nx)"
  shows "rs_domains r' = rs_domains r" "rs_parameters r' = rs_parameters r" "rs_keyset r' = rs_keyset r"
    and "nx = Some s \<Longrightarrow> add_domains (rs_domains r) ds = Inr (is_domains s) \<and>
      is_epoch_id s = ks_epoch_id (rs_keyset r) \<and> ke_parameters (is_generating_key s) = rs_parameters r"
proof -
  obtain i where r': "r' = r\<lparr>rs_add_domains_votes := fst (adv_vote i ds (rs_add_domains_votes r))\<rparr>"
    and nx: "nx = None \<or> (\<exists>reg. add_domains (rs_domains r) ds = Inr reg \<and>
       nx = Some \<lparr>is_domains = reg, is_epoch_id = ks_epoch_id (rs_keyset r),
                     is_generated_keys = ks_domains (rs_keyset r),
                     is_generating_key =
                       key_event_new (ks_epoch_id (rs_keyset r)) (hd ds) (rs_parameters r),
                     is_cancel_votes = {}\<rparr>)"
  proof (rule running_vote_add_domains_Inr [OF wf v])
    fix i
    assume "r' = r\<lparr>rs_add_domains_votes := fst (adv_vote i ds (rs_add_domains_votes r))\<rparr>"
      "if \<forall>j \<in> ids_of (tp_participants (rs_parameters r)).
          adv_ballot (rs_add_domains_votes r') j = Some ds
     then \<exists>reg. add_domains (rs_domains r) ds = Inr reg \<and>
       nx = Some \<lparr>is_domains = reg, is_epoch_id = ks_epoch_id (rs_keyset r),
                     is_generated_keys = ks_domains (rs_keyset r),
                     is_generating_key =
                       key_event_new (ks_epoch_id (rs_keyset r)) (hd ds) (rs_parameters r),
                     is_cancel_votes = {}\<rparr>
     else nx = None"
    then show thesis by (intro that [of i]) (simp_all split: if_splits)
  qed
  from r' show "rs_domains r' = rs_domains r" "rs_parameters r' = rs_parameters r"
    "rs_keyset r' = rs_keyset r" by simp_all
  from nx show "nx = Some s \<Longrightarrow> add_domains (rs_domains r) ds = Inr (is_domains s) \<and>
      is_epoch_id s = ks_epoch_id (rs_keyset r) \<and> ke_parameters (is_generating_key s) = rs_parameters r"
    by (auto simp: key_event_new_def)
qed

text \<open>A step leaves the registry alone, adds domains at its end, or drops domains from its end.\<close>

lemma protocol_step_registry:
  assumes "protocol_step p p'" "wf_protocol p"
  shows "protocol_registry p' = protocol_registry p \<or>
    (\<exists>ds. add_domains (protocol_registry p) ds = Inr (protocol_registry p')) \<or>
    (\<exists>n. protocol_registry p' = retain_domains (protocol_registry p) n)"
  using assms
proof (induction rule: protocol_stepE)
  case (params env r e proposal r' nx)
  then show ?case using running_vote_new_parameters_frame [of r proposal env e r' nx] by (cases nx) auto
next
  case (reparams env s e proposal s' nx)
  then show ?case
    using resharing_vote_new_parameters_prev(2) [of s proposal env e s' nx] by (cases nx) auto
next
  case (domains env r ds r' nx)
  then show ?case
    using running_vote_add_domains_frame(1,4) [of r env ds r' nx] by (cases nx) auto
next
  case (pk env s kid pk' s' nx)
  then show ?case
    using gen.vote_registry [of env s kid pk' s' nx] gen.vote_finish [OF wf_initializingD(1), of s env kid pk' s']
    by (cases nx) auto
next
  case (reshared env s kid s' nx)
  show ?case
  proof (cases nx)
    case None
    with reshared show ?thesis by (auto elim!: resharing_vote_reshared_eq)
  next
    case (Some run)
    with reshared resharing_finish_keys(3) [of s env kid s' run] show ?thesis by simp
  qed
next
  case (cancel_keygen env s n s' nx)
  then show ?case by (auto elim!: initializing_vote_cancel_Inr split: option.splits if_splits)
next
  case (cancel_resharing env s s' nx)
  then show ?case
    using resharing_vote_cancel_resharing_Inr(2,3) [of env s s' nx] by (auto split: option.splits if_splits)
next
  case (tee r proposal r' nx)
  then show ?case using transition_frame [of r proposal r' nx] by (cases nx) auto
qed (auto simp: initializing_start_def resharing_start_def initializing_vote_abort_def
    resharing_vote_abort_def res_simps)

definition registry_grows :: "protocol_state \<Rightarrow> protocol_state \<Rightarrow> bool" where
  "registry_grows p p' \<longleftrightarrow>
     dr_next_domain_id (protocol_registry p) \<le> dr_next_domain_id (protocol_registry p') \<and>
     (\<forall>d \<in> set (dr_domains (protocol_registry p')).
        d \<in> set (dr_domains (protocol_registry p)) \<or> dr_next_domain_id (protocol_registry p) \<le> dc_id d)"

lemma wf_protocol_registry: "wf_protocol p \<Longrightarrow> wf_registry (protocol_registry p)"
  by (cases p) (auto simp: wf_registry_default dest: wf_initializingD(6) wf_runningD(1) wf_resharingD(1))

lemma protocol_step_registry_grows:
  assumes s: "protocol_step p p'" and wf: "wf_protocol p"
  shows "registry_grows p p'"
  using protocol_step_registry [OF s wf]
proof (elim disjE exE)
  fix ds assume a: "add_domains (protocol_registry p) ds = Inr (protocol_registry p')"
  have "dr_next_domain_id (protocol_registry p) < 2 ^ 64"
    using wf_protocol_registry [OF wf] by (simp add: wf_registry_def)
  from a [unfolded add_domains_eq [OF this]]
  have ids: "domain_ids ds = [dr_next_domain_id (protocol_registry p) ..<
      dr_next_domain_id (protocol_registry p) + length ds]"
    and r: "dr_domains (protocol_registry p') = dr_domains (protocol_registry p) @ ds"
    "dr_next_domain_id (protocol_registry p') = dr_next_domain_id (protocol_registry p) + length ds"
    by simp_all
  have "dr_next_domain_id (protocol_registry p) \<le> dc_id d" if "d \<in> set ds" for d
    using imageI [OF that, of dc_id] arg_cong [OF ids, of set] by auto
  then show ?thesis by (auto simp: registry_grows_def r)
qed (auto simp: registry_grows_def retain_domains_def dest: in_set_takeD)

section \<open>Epochs identify the participants and the threshold\<close>

fun protocol_epoch :: "protocol_state \<Rightarrow> epoch_id" where
  "protocol_epoch NotInitialized = 0"
| "protocol_epoch (Initializing s) = is_epoch_id s"
| "protocol_epoch (Running r) = ks_epoch_id (rs_keyset r)"
| "protocol_epoch (Resharing s) = ks_epoch_id (rs_keyset (ss_prev s))"

text \<open>Who holds key shares: the accounts with their participant ids, and the threshold.\<close>

definition roster :: "threshold_parameters \<Rightarrow> (account_id \<times> nat) list \<times> nat" where
  "roster tp = (map (\<lambda>e. (entry_account e, entry_id e)) (tp_entries tp), tp_threshold tp)"

definition protocol_roster :: "protocol_state \<Rightarrow> ((account_id \<times> nat) list \<times> nat) option" where
  "protocol_roster p = map_option roster (protocol_threshold_parameters p)"

lemma protocol_roster_simps [simp]:
  "protocol_roster (Initializing s) = Some (roster (ke_parameters (is_generating_key s)))"
  "protocol_roster (Running r) = Some (roster (rs_parameters r))"
  "protocol_roster (Resharing t) = Some (roster (rs_parameters (ss_prev t)))"
  by (simp_all add: protocol_roster_def protocol_threshold_parameters_def)

lemma roster_update_info:
  assumes "threshold_parameters_update_info tp a i = Inr tp'"
  shows "roster tp' = roster tp"
proof -
  from assms obtain es where es: "update_info_loop a i (tp_entries tp) = Inr es"
    "tp_entries tp' = es" "tp_threshold tp' = tp_threshold tp"
    by (auto simp: threshold_parameters_update_info_def participants_update_info_def res_simps)
  have zip: "map (\<lambda>e. (entry_account e, entry_id e)) es = zip (map entry_account es) (map entry_id es)"
    for es :: "participant_entry list"
    by (simp add: zip_map_map zip_same_conv_map)
  show ?thesis
    using update_info_loop_ok [OF es(1)] es(2,3) by (simp add: roster_def zip)
qed

definition epoch_advances :: "protocol_state \<Rightarrow> protocol_state \<Rightarrow> bool" where
  "epoch_advances p p' \<longleftrightarrow>
     protocol_epoch p < protocol_epoch p' \<or>
     protocol_epoch p = protocol_epoch p' \<and> protocol_roster p = protocol_roster p'"

lemma protocol_step_epoch:
  assumes "protocol_step p p'" "wf_protocol p"
  shows "epoch_advances p p'"
  using assms
proof (induction rule: protocol_stepE)
  case (params env r e proposal r' nx)
  then show ?case
    using running_vote_new_parameters_frame [of r proposal env e r' nx]
    by (cases nx) (auto simp: epoch_advances_def)
next
  case (reparams env s e proposal s' nx)
  then show ?case
    using resharing_vote_new_parameters_prev(1,3) [of s proposal env e s' nx]
    by (cases nx) (auto simp: epoch_advances_def)
next
  case (domains env r ds r' nx)
  then show ?case
    using running_vote_add_domains_frame [of r env ds r' nx] by (cases nx) (auto simp: epoch_advances_def)
next
  case (pk env s kid pk' s' nx)
  then show ?case
    using gen.vote_finish [OF wf_initializingD(1), of s env kid pk' s']
      initializing_vote_pk_frame(2,3) [of env s kid pk' s' nx]
    by (cases nx) (auto simp: epoch_advances_def)
next
  case (reshared env s kid s' nx)
  show ?case
  proof (cases nx)
    case None
    with reshared show ?thesis by (auto simp: epoch_advances_def elim!: resharing_vote_reshared_eq)
  next
    case (Some run)
    with reshared resharing_finish_keys(5) [of s env kid s' run] wf_resharingD(4) [of s] show ?thesis
      by (simp add: epoch_advances_def)
  qed
next
  case (cancel_keygen env s n s' nx)
  then show ?case
    by (auto simp: epoch_advances_def elim!: initializing_vote_cancel_Inr split: option.splits if_splits)
next
  case (cancel_resharing env s s' nx)
  then show ?case
    using resharing_vote_cancel_resharing_Inr(2,3) [of env s s' nx]
    by (auto simp: epoch_advances_def split: option.splits if_splits)
next
  case (tee r proposal r' nx)
  then show ?case
    using transition_frame [of r proposal r' nx] by (cases nx) (auto simp: epoch_advances_def)
next
  case (info r a i params)
  then show ?case by (simp add: epoch_advances_def roster_update_info)
qed (auto simp: epoch_advances_def initializing_start_def resharing_start_def
    initializing_vote_abort_def resharing_vote_abort_def res_simps key_event_start_eq
    key_event_vote_abort_eq)

section \<open>Executions of the protocol\<close>

interpretation keys_evo: evolution protocol_step wf_protocol
  "\<lambda>p p'. \<forall>d pk. lookup_key (protocol_keys p) d = Some pk \<longrightarrow> lookup_key (protocol_keys p') d = Some pk"
  by unfold_locales (auto dest: protocol_step_wf protocol_step_keys)

interpretation reg_evo: evolution protocol_step wf_protocol registry_grows
proof
  fix p p' p''
  assume "registry_grows p p'" "registry_grows p' p''"
  then show "registry_grows p p''"
    unfolding registry_grows_def by (meson le_trans)
next
  show "registry_grows p p" for p by (simp add: registry_grows_def)
qed (fact protocol_step_wf protocol_step_registry_grows)+

interpretation epoch_evo: evolution protocol_step wf_protocol epoch_advances
  by unfold_locales (auto dest: protocol_step_wf protocol_step_epoch simp: epoch_advances_def)

text \<open>
  C8. Public keys are permanent: in every execution from a well-formed state, the public key of a
  domain in the Running or Resharing state never changes again while the domain can be queried. It
  survives key generation for other domains, resharing to other participants, cancellations,
  attestation-driven resharing and node migration.
\<close>

theorem public_keys_permanent:
  assumes "wf_protocol p" "protocol_step\<^sup>*\<^sup>* p p'"
    and "protocol_public_key p d = Inr pk" "is_running_or_resharing p'"
  shows "protocol_public_key p' d = Inr pk"
proof -
  have eq: "protocol_public_key q d = Inr pk \<longleftrightarrow> lookup_key (protocol_keys q) d = Some pk"
    if "is_running_or_resharing q" for q
    using that
    by (cases q) (simp_all add: is_running_or_resharing_def protocol_public_key_def
        resharing_previous_keyset_def keyset_public_key_lookup)
  have "is_running_or_resharing p"
    using assms(3) by (cases p) (simp_all add: is_running_or_resharing_def protocol_public_key_def)
  with keys_evo.run_rel [OF assms(2,1)] assms(3,4) eq show ?thesis by blast
qed

text \<open>
  C9. Domain ids are never reused: when the same id occurs in the registry at two points of an
  execution, it denotes the same domain, scheme and purpose included, although cancelled domains are
  deleted in between.
\<close>

theorem domain_ids_not_reused:
  assumes wf: "wf_protocol p" and run: "protocol_step\<^sup>*\<^sup>* p p'"
    and d: "d \<in> set (dr_domains (protocol_registry p))" "d' \<in> set (dr_domains (protocol_registry p'))"
    and id: "dc_id d' = dc_id d"
  shows "d' = d"
proof -
  note wr = wf_protocol_registry [OF wf]
  have "d' \<in> set (dr_domains (protocol_registry p)) \<or> dr_next_domain_id (protocol_registry p) \<le> dc_id d'"
    using reg_evo.run_rel [OF run wf] d(2) by (simp add: registry_grows_def)
  moreover have "dc_id d < dr_next_domain_id (protocol_registry p)"
    using wf_registryD(2) [OF wr d(1)] .
  ultimately have "d' \<in> set (dr_domains (protocol_registry p))" using id by simp
  with d(1) id show ?thesis
    using wf_registryD(1) [OF wr] by (metis distinct_map inj_onD)
qed

text \<open>
  C10. An epoch id identifies the holders of the key shares: along an execution the epoch never
  decreases, and as long as it stays the same so do the participants (accounts and ids) and the
  threshold.
\<close>

theorem epoch_identifies_participants:
  assumes "wf_protocol p" "protocol_step\<^sup>*\<^sup>* p p'"
  shows "protocol_epoch p \<le> protocol_epoch p' \<and>
    (protocol_epoch p = protocol_epoch p' \<longrightarrow> protocol_roster p = protocol_roster p')"
  using epoch_evo.run_rel [OF assms(2,1)] by (auto simp: epoch_advances_def)

lemma initializing_to_running:
  assumes wf: "wf_initializing s" and st: "protocol_step (Initializing s) (Running run)"
  shows "rs_previously_cancelled_resharing_epoch_id run = None \<and> ks_epoch_id (rs_keyset run) = is_epoch_id s"
  using st
proof (cases rule: protocol_stepE)
  case (pk env s kid pk s' nx)
  then show ?thesis
    using gen.vote_finish [OF wf_initializingD(1) [OF wf]] gen.vote_cases [of env s kid pk s' nx]
    by (cases nx) (auto split: if_splits)
next
  case (cancel_keygen env s n s' nx)
  then show ?thesis by (auto elim!: initializing_vote_cancel_Inr split: option.splits if_splits)
qed (auto split: option.splits)

lemma initializing_run:
  assumes "(\<lambda>s s'. protocol_step (Initializing s) (Initializing s'))\<^sup>*\<^sup>* s s'" "wf_initializing s"
  shows "wf_initializing s' \<and> is_epoch_id s' = is_epoch_id s"
  using assms
proof (induction rule: rtranclp_induct)
  case (step t u)
  have "wf_initializing u" using step protocol_step_wf by force
  moreover have "is_epoch_id u = is_epoch_id t"
    using step(2)
  proof (cases rule: protocol_stepE)
    case (pk env s kid pk s' nx)
    then show ?thesis
      using initializing_vote_pk_frame(2) by (fastforce split: option.splits)
  next
    case (cancel_keygen env s n s' nx)
    then show ?thesis by (auto elim!: initializing_vote_cancel_Inr split: option.splits)
  qed (auto simp: initializing_start_def initializing_vote_abort_def res_simps split: option.splits)
  ultimately show ?case using step by simp
qed simp

text \<open>Steps that stay in the Running state keep the registry and, with a domain in it, the epoch ids.\<close>

abbreviation running_run :: "running_state \<Rightarrow> running_state \<Rightarrow> bool" where
  "running_run \<equiv> (\<lambda>r r'. protocol_step (Running r) (Running r'))\<^sup>*\<^sup>*"

lemma transition_None:
  assumes "transition_to_resharing_no_checks r proposal = Inr (r', None)"
  shows "rs_domains r' = rs_domains r \<and> dr_domains (rs_domains r) = []"
  using assms
  by (auto simp: transition_to_resharing_no_checks_def get_domain_by_index_def res_simps split: if_splits)

lemma running_step_epoch:
  assumes "protocol_step (Running r) (Running r')" "wf_running r"
  shows "rs_domains r' = rs_domains r \<and> (dr_domains (rs_domains r) \<noteq> [] \<longrightarrow>
    ks_epoch_id (rs_keyset r') = ks_epoch_id (rs_keyset r) \<and>
    rs_previously_cancelled_resharing_epoch_id r' = rs_previously_cancelled_resharing_epoch_id r)"
  using assms(1)
proof (cases rule: protocol_stepE)
  case (params env q e proposal q' nx)
  then have nx: "nx = None" "r = q" "r' = q'" by (auto split: option.splits)
  from running_vote_new_parameters_Inr [OF params(2)] obtain r1 accepted where
    p: "process_new_parameters_proposal env q proposal = Inr (r1, accepted)"
    and t: "if accepted then transition_to_resharing_no_checks r1 proposal = Inr (q', nx)
      else q' = r1 \<and> nx = None" by blast
  obtain v where r1: "r1 = r\<lparr>rs_parameters_votes := v\<rparr>"
    using process_new_parameters_proposal_Inr(4) [OF _ params(3) p] assms(2) nx by blast
  show ?thesis
  proof (cases accepted)
    case True
    with t nx have t: "transition_to_resharing_no_checks r1 proposal = Inr (r', None)" by simp
    from transition_None [OF t] show ?thesis by (simp add: r1)
  next
    case False
    with t nx have "r' = r1" by simp
    then show ?thesis by (simp add: r1)
  qed
next
  case (domains env q ds q' nx)
  then have nx: "r = q" "r' = q'" by (auto split: option.splits)
  with domains(2) obtain v where "r' = r\<lparr>rs_add_domains_votes := v\<rparr>"
    using assms(2) by (auto elim!: running_vote_add_domains_Inr)
  then show ?thesis by simp
next
  case (tee q proposal q' nx)
  then have "transition_to_resharing_no_checks r proposal = Inr (r', None)" by (auto split: option.splits)
  from transition_None [OF this] show ?thesis by simp
qed (auto split: option.splits)

lemma running_run_epoch:
  assumes "running_run r r'" "wf_running r"
  shows "wf_running r' \<and> rs_domains r' = rs_domains r \<and> (dr_domains (rs_domains r) \<noteq> [] \<longrightarrow>
    ks_epoch_id (rs_keyset r') = ks_epoch_id (rs_keyset r) \<and>
    rs_previously_cancelled_resharing_epoch_id r' = rs_previously_cancelled_resharing_epoch_id r)"
  using assms
proof (induction rule: rtranclp_induct)
  case (step q q')
  from step running_step_epoch [OF step(2)] protocol_step_wf [OF step(2)] show ?case by simp
qed simp

lemma running_prospective_epoch_id_votes:
  "running_prospective_epoch_id (r\<lparr>rs_parameters_votes := v\<rparr>) = running_prospective_epoch_id r"
  by (simp add: running_prospective_epoch_id_def split: option.split)

text \<open>A resharing starts in the epoch the Running state asked for, and only if there is a domain.\<close>

lemma running_to_resharing:
  assumes "protocol_step (Running r) (Resharing s)" "wf_running r"
  shows "running_prospective_epoch_id r = Inr (ke_epoch_id (ss_resharing_key s)) \<and> dr_domains (rs_domains r) \<noteq> []"
proof -
  have start: "running_prospective_epoch_id q = Inr (ke_epoch_id (ss_resharing_key s)) \<and> dr_domains (rs_domains q) \<noteq> []"
    if "transition_to_resharing_no_checks q proposal = Inr (q', Some s)" for q q' proposal
    using that by (auto simp: transition_to_resharing_no_checks_def res_simps get_domain_by_index_def
        key_event_new_def split: if_splits)
  show ?thesis
    using assms(1)
  proof (cases rule: protocol_stepE)
    case (params env q e proposal q' nx)
    then have nx: "nx = Some s" "r = q" by (auto split: option.splits)
    from running_vote_new_parameters_Inr [OF params(2)] obtain r1 accepted where
      p: "process_new_parameters_proposal env q proposal = Inr (r1, accepted)"
      and t0: "if accepted then transition_to_resharing_no_checks r1 proposal = Inr (q', nx)
        else q' = r1 \<and> nx = None" by blast
    then have t: "transition_to_resharing_no_checks r1 proposal = Inr (q', Some s)"
      using nx(1) by (cases accepted) simp_all
    obtain v where "r1 = r\<lparr>rs_parameters_votes := v\<rparr>"
      using process_new_parameters_proposal_Inr(4) [OF _ params(3) p] assms(2) nx(2) by blast
    with start [OF t] show ?thesis by (simp add: running_prospective_epoch_id_votes)
  qed (auto split: option.splits dest: start)
qed

text \<open>
  C11. A cancelled epoch id is used again. A first resharing of a keyset, for epoch \<open>e\<close>, is cancelled:
  from then on the Running state asks for epoch \<open>e + 1\<close>, as its comment demands. But when domains are
  added, or their key generation is cancelled, before the next resharing, the next resharing that
  starts has the cancelled id \<open>e\<close> again, whatever else happened in the Running state in between.
\<close>

theorem cancelled_epoch_id_reused:
  assumes wf: "wf_resharing s0"
    and first: "ke_epoch_id (ss_resharing_key s0) = ks_epoch_id (rs_keyset (ss_prev s0)) + 1"
    and e: "ke_epoch_id (ss_resharing_key s0) < 2 ^ 64 - 1"
    and cancel: "resharing_vote_cancel_resharing env s0 = Inr (s0', Some r)"
    and before: "running_run r r1"
    and st: "protocol_step (Running r1) (Initializing s)"
    and mid: "(\<lambda>s s'. protocol_step (Initializing s) (Initializing s'))\<^sup>*\<^sup>* s s'"
    and ret: "protocol_step (Initializing s') (Running r')"
    and after: "running_run r' r2"
    and again: "protocol_step (Running r2) (Resharing s2)"
  shows "running_prospective_epoch_id r1 = Inr (ke_epoch_id (ss_resharing_key s0) + 1) \<and>
    ke_epoch_id (ss_resharing_key s2) = ke_epoch_id (ss_resharing_key s0)"
proof -
  have wr: "wf_running r" using resharing_vote_cancel_resharing_wf [OF wf cancel] by simp
  have r: "r = (ss_prev s0)\<lparr>rs_previously_cancelled_resharing_epoch_id := Some (ke_epoch_id (ss_resharing_key s0))\<rparr>"
    using resharing_vote_cancel_resharing_Inr(3) [OF cancel]
    by (simp add: resharing_prospective_epoch_id_def split: if_splits)
  have dom: "dr_domains (rs_domains r) \<noteq> []"
    using wf_resharingD(2) [OF wf] by (auto simp: r wf_progress_def)
  note r1 = running_run_epoch [OF before wr]
  have p1: "running_prospective_epoch_id r1 = Inr (ke_epoch_id (ss_resharing_key s0) + 1)"
    using r1 dom e by (simp add: r running_prospective_epoch_id_def epoch_id_next_def add_u_ok)
  have ws: "wf_initializing s" using protocol_step_wf [OF st] r1 by simp
  have "is_epoch_id s = ks_epoch_id (rs_keyset r1)"
    using st
  proof (cases rule: protocol_stepE)
    case (domains env q ds q' nx)
    with r1 show ?thesis
      using running_vote_add_domains_frame(4) [of q env ds q' nx s] by (cases nx) auto
  qed (auto split: option.splits)
  with initializing_run [OF mid ws] initializing_to_running [OF _ ret]
  have r': "rs_previously_cancelled_resharing_epoch_id r' = None"
    "ks_epoch_id (rs_keyset r') = ks_epoch_id (rs_keyset r1)" by simp_all
  have "wf_running r'" using protocol_step_wf [OF ret] initializing_run [OF mid ws] by simp
  note r2 = running_run_epoch [OF after this]
  have "running_prospective_epoch_id r2 = Inr (ke_epoch_id (ss_resharing_key s2))" "dr_domains (rs_domains r2) \<noteq> []"
    using running_to_resharing [OF again] r2 by blast+
  then have "ke_epoch_id (ss_resharing_key s2) = ks_epoch_id (rs_keyset r) + 1"
    using r2 r' r1 dom by (simp add: running_prospective_epoch_id_def epoch_id_next_def add_u_def split: if_splits)
  then show ?thesis using p1 first by (simp add: r)
qed

section \<open>A concrete execution\<close>

text \<open>
  \<open>a\<close>, \<open>b\<close> and \<open>c\<close> run domain 0 in epoch 5, after a cancelled resharing to epoch 6; they vote for a
  domain 1 and then two of them cancel its key generation.
\<close>

definition ex_running :: "(nat \<times> domain_config list) list \<Rightarrow> running_state" where
  "ex_running votes =
     \<lparr>rs_domains = \<lparr>dr_domains = [ex_domain 0], dr_next_domain_id = 1\<rparr>,
      rs_keyset = \<lparr>ks_epoch_id = 5,
        ks_domains = [\<lparr>kfd_domain_id = 0, kfd_key = ex_key 7, kfd_attempt = 0\<rparr>]\<rparr>,
      rs_parameters = ex_abc, rs_parameters_votes = threshold_parameters_votes_default,
      rs_add_domains_votes = \<lparr>adv_proposal_by_account = votes\<rparr>,
      rs_previously_cancelled_resharing_epoch_id = Some 6\<rparr>"

definition ex_initializing :: "nat set \<Rightarrow> initializing_state" where
  "ex_initializing votes =
     \<lparr>is_domains = \<lparr>dr_domains = [ex_domain 0, ex_domain 1], dr_next_domain_id = 2\<rparr>, is_epoch_id = 5,
      is_generated_keys = [\<lparr>kfd_domain_id = 0, kfd_key = ex_key 7, kfd_attempt = 0\<rparr>],
      is_generating_key = key_event_new 5 (ex_domain 1) ex_abc, is_cancel_votes = votes\<rparr>"

definition ex_cancelled :: running_state where
  "ex_cancelled = running_new \<lparr>dr_domains = [ex_domain 0], dr_next_domain_id = 2\<rparr>
     \<lparr>ks_epoch_id = 5, ks_domains = [\<lparr>kfd_domain_id = 0, kfd_key = ex_key 7, kfd_attempt = 0\<rparr>]\<rparr>
     ex_abc add_domains_votes_default"

lemma ex_running_wf: "wf_running (ex_running [])"
  using ex_wf(1)
  by (simp add: wf_running_def ex_running_def wf_registry_def ex_domain_def
      threshold_parameters_votes_default_def)

lemma ex_add_domains: "add_domains \<lparr>dr_domains = [ex_domain 0], dr_next_domain_id = 1\<rparr> [ex_domain 1] =
    Inr \<lparr>dr_domains = [ex_domain 0, ex_domain 1], dr_next_domain_id = 2\<rparr>"
  by (simp add: add_domain_def ex_domain_def add_u_ok)

lemmas ex_auth_simps = authenticated_participant_id_def ex_env_def ex_params_defs participants_len_def

lemma ex_step_votes:
  "protocol_step (Running (ex_running [])) (Running (ex_running [(0, [ex_domain 1])]))"
  "protocol_step (Running (ex_running [(0, [ex_domain 1])]))
     (Running (ex_running [(0, [ex_domain 1]), (1, [ex_domain 1])]))"
  "protocol_step (Running (ex_running [(0, [ex_domain 1]), (1, [ex_domain 1])]))
     (Initializing (ex_initializing {}))"
proof -
  have 1: "protocol_vote_add_domains (ex_env ''a'' 1) (Running (ex_running [])) [ex_domain 1] =
      Inr (Running (ex_running [(0, [ex_domain 1])]), None)"
    by (simp add: protocol_vote_add_domains_def running_vote_add_domains_def map_states_def adv_vote_def
        count_value_def ex_running_def ex_auth_simps ex_domain_def)
  show "protocol_step (Running (ex_running [])) (Running (ex_running [(0, [ex_domain 1])]))"
    using step_vote_add_domains [OF 1] by (simp add: commit_state_def)
  have 2: "protocol_vote_add_domains (ex_env ''b'' 1) (Running (ex_running [(0, [ex_domain 1])])) [ex_domain 1] =
      Inr (Running (ex_running [(0, [ex_domain 1]), (1, [ex_domain 1])]), None)"
    by (simp add: protocol_vote_add_domains_def running_vote_add_domains_def map_states_def adv_vote_def
        count_value_def ex_running_def ex_auth_simps ex_domain_def)
  show "protocol_step (Running (ex_running [(0, [ex_domain 1])]))
     (Running (ex_running [(0, [ex_domain 1]), (1, [ex_domain 1])]))"
    using step_vote_add_domains [OF 2] by (simp add: commit_state_def)
  have 3: "\<exists>r. protocol_vote_add_domains (ex_env ''c'' 1)
        (Running (ex_running [(0, [ex_domain 1]), (1, [ex_domain 1])])) [ex_domain 1] =
      Inr (Running r, Some (Initializing (ex_initializing {})))"
    using ex_add_domains
    by (simp add: protocol_vote_add_domains_def running_vote_add_domains_def map_states_def adv_vote_def
        count_value_def ex_running_def ex_initializing_def ex_auth_simps ex_domain_def
        del: add_domains.simps)
  then show "protocol_step (Running (ex_running [(0, [ex_domain 1]), (1, [ex_domain 1])]))
     (Initializing (ex_initializing {}))"
    using step_vote_add_domains by (fastforce simp: commit_state_def)
qed

lemma ex_step_cancel:
  "protocol_step (Initializing (ex_initializing {})) (Initializing (ex_initializing {0}))"
  "protocol_step (Initializing (ex_initializing {0})) (Running ex_cancelled)"
proof -
  have 1: "protocol_vote_cancel_keygen (ex_env ''a'' 1) (Initializing (ex_initializing {})) 2 =
      Inr (Initializing (ex_initializing {0}), None)"
    by (simp add: protocol_vote_cancel_keygen_def initializing_vote_cancel_def map_states_def
        ex_initializing_def ex_auth_simps key_event_new_def)
  show "protocol_step (Initializing (ex_initializing {})) (Initializing (ex_initializing {0}))"
    using step_vote_cancel_keygen [OF 1] by (simp add: commit_state_def)
  have 2: "protocol_vote_cancel_keygen (ex_env ''b'' 1) (Initializing (ex_initializing {0})) 2 =
      Inr (Initializing (ex_initializing {1, 0}), Some (Running ex_cancelled))"
    by (simp add: protocol_vote_cancel_keygen_def initializing_vote_cancel_def map_states_def
        ex_initializing_def ex_auth_simps key_event_new_def ex_cancelled_def retain_domains_def)
  show "protocol_step (Initializing (ex_initializing {0})) (Running ex_cancelled)"
    using step_vote_cancel_keygen [OF 2] by (simp add: commit_state_def)
qed

lemma ex_execution: "protocol_step\<^sup>*\<^sup>* (Running (ex_running [])) (Running ex_cancelled)"
  using ex_step_votes ex_step_cancel by (meson rtranclp.rtrancl_into_rtrancl rtranclp.rtrancl_refl)

theorem public_keys_permanent_witness:
  "protocol_public_key (Running ex_cancelled) 0 = Inr (ex_key 7)"
proof -
  have "protocol_public_key (Running (ex_running [])) 0 = Inr (ex_key 7)"
    by (simp add: protocol_public_key_def keyset_public_key_def ex_running_def)
  from public_keys_permanent [OF _ ex_execution this] ex_running_wf show ?thesis
    by (simp add: is_running_or_resharing_def)
qed

theorem domain_ids_not_reused_witness:
  "\<exists>d. d \<in> set (dr_domains (protocol_registry (Running ex_cancelled))) \<and> dc_id d = 0 \<and> d = ex_domain 0"
proof -
  have "ex_domain 0 \<in> set (dr_domains (protocol_registry (Running (ex_running []))))"
    "ex_domain 0 \<in> set (dr_domains (protocol_registry (Running ex_cancelled)))"
    by (simp_all add: ex_running_def ex_cancelled_def)
  from domain_ids_not_reused [OF _ ex_execution this] this(2) ex_running_wf show ?thesis
    by (intro exI [of _ "ex_domain 0"]) (simp add: ex_domain_def)
qed

theorem epoch_identifies_participants_witness:
  "protocol_roster (Running (ex_running [])) = protocol_roster (Running ex_cancelled)"
proof -
  have "protocol_epoch (Running (ex_running [])) = protocol_epoch (Running ex_cancelled)"
    by (simp add: ex_running_def ex_cancelled_def)
  with epoch_identifies_participants [OF _ ex_execution] ex_running_wf show ?thesis by simp
qed

text \<open>
  Before, the first resharing of the keyset of epoch 5 was under way and \<open>a\<close> had voted to cancel it;
  afterwards \<open>b\<close>, \<open>c\<close> and \<open>d\<close> vote for new parameters.
\<close>

definition ex_cancelling :: resharing_state where
  "ex_cancelling =
     \<lparr>ss_previous_running_state = (ex_running [])\<lparr>rs_previously_cancelled_resharing_epoch_id := None\<rparr>,
      ss_reshared_keys = [], ss_resharing_key = key_event_new 6 (ex_domain 0) ex_bcd,
      ss_cancellation_requests = {''a''}\<rparr>"

lemma ex_cancelling_wf: "wf_resharing ex_cancelling"
proof -
  have "wf_running ((ex_running [])\<lparr>rs_previously_cancelled_resharing_epoch_id := None\<rparr>)"
    using ex_running_wf by (simp add: wf_running_def)
  moreover have "tp_accounts ex_bcd \<inter> tp_accounts ex_abc = {''b'', ''c''}" "tp_threshold ex_abc = 2"
    "''a'' \<in> tp_accounts ex_abc"
    by (auto simp: ex_params_defs accounts_of_def)
  ultimately show ?thesis
    using ex_wf(2)
    by (simp add: wf_resharing_def ex_cancelling_def Let_def wf_progress_def wf_key_event_new)
      (simp add: ex_running_def key_event_new_def wf_registry_def ex_domain_def)
qed

definition ex_reproposed :: "(account_id \<times> threshold_parameters) list \<Rightarrow> running_state" where
  "ex_reproposed votes = ex_cancelled\<lparr>rs_parameters_votes := \<lparr>tpv_proposal_by_account = votes\<rparr>\<rparr>"

lemma ex_step_repropose:
  "protocol_step (Running ex_cancelled) (Running (ex_reproposed [(''b'', ex_bcd)]))"
  "protocol_step (Running (ex_reproposed [(''b'', ex_bcd)]))
     (Running (ex_reproposed [(''b'', ex_bcd), (''c'', ex_bcd)]))"
  "\<exists>s. protocol_step (Running (ex_reproposed [(''b'', ex_bcd), (''c'', ex_bcd)])) (Resharing s)"
proof -
  note defs = protocol_vote_new_parameters_def map_states_def running_vote_new_parameters_def
    process_new_parameters_proposal_def authenticated_account_id_def tpv_vote_def count_value_def
  have accounts: "''b'' \<in> tp_accounts ex_bcd" "''c'' \<in> tp_accounts ex_bcd" "''d'' \<in> tp_accounts ex_bcd"
    "''b'' \<in> tp_accounts ex_abc" "''c'' \<in> tp_accounts ex_abc" "''d'' \<notin> tp_accounts ex_abc"
    "tp_len ex_bcd = 3" "tp_threshold ex_abc = 2"
    by (simp_all add: ex_params_defs accounts_of_def participants_len_def)
  have first: "ex_cancelled = ex_reproposed []"
    by (simp add: ex_reproposed_def ex_cancelled_def running_new_def threshold_parameters_votes_default_def)
  have r: "running_prospective_epoch_id (ex_reproposed vs) = Inr 6" "rs_parameters (ex_reproposed vs) = ex_abc"
    "rs_parameters_votes (ex_reproposed vs) = \<lparr>tpv_proposal_by_account = vs\<rparr>"
    "(ex_reproposed vs)\<lparr>rs_parameters_votes := \<lparr>tpv_proposal_by_account = ws\<rparr>\<rparr> = ex_reproposed ws"
    "dr_domains (rs_domains (ex_reproposed vs)) = [ex_domain 0]" for vs ws
    by (simp_all add: ex_reproposed_def ex_cancelled_def running_new_def running_prospective_epoch_id_def
        epoch_id_next_def add_u_ok)
  have u: "u32_participants (tp_participants ex_bcd)" by (rule wf_parametersD(2) [OF ex_wf(2)])
  note step = step_vote_new_parameters [OF _ u]
  have "protocol_vote_new_parameters (ex_env ''b'' 1) (Running (ex_reproposed [])) 6 ex_bcd =
      Inr (Running (ex_reproposed [(''b'', ex_bcd)]), None)"
    using accounts ex_valid by (simp add: defs r ex_env_def)
  from step [OF this] show "protocol_step (Running ex_cancelled) (Running (ex_reproposed [(''b'', ex_bcd)]))"
    by (simp add: first commit_state_def)
  have "protocol_vote_new_parameters (ex_env ''c'' 1) (Running (ex_reproposed [(''b'', ex_bcd)])) 6 ex_bcd =
      Inr (Running (ex_reproposed [(''b'', ex_bcd), (''c'', ex_bcd)]), None)"
    using accounts ex_valid by (simp add: defs r ex_env_def)
  from step [OF this] show "protocol_step (Running (ex_reproposed [(''b'', ex_bcd)]))
     (Running (ex_reproposed [(''b'', ex_bcd), (''c'', ex_bcd)]))" by (simp add: commit_state_def)
  have "tpv_n_votes \<lparr>tpv_proposal_by_account = [(''b'', ex_bcd), (''c'', ex_bcd)]\<rparr> ex_bcd (tp_participants ex_abc) = 2"
    by (simp add: tpv_n_votes_def accounts_of_def) (simp add: ex_params_defs)
  then have "\<exists>q s. protocol_vote_new_parameters (ex_env ''d'' 1)
        (Running (ex_reproposed [(''b'', ex_bcd), (''c'', ex_bcd)])) 6 ex_bcd = Inr (q, Some (Resharing s))"
    using accounts ex_valid
    by (simp add: defs r ex_env_def transition_to_resharing_no_checks_def get_domain_by_index_def)
  then show "\<exists>s. protocol_step (Running (ex_reproposed [(''b'', ex_bcd), (''c'', ex_bcd)])) (Resharing s)"
    using step by (fastforce simp: commit_state_def)
qed

theorem cancelled_epoch_id_reused_witness:
  "\<exists>s. protocol_step (Running (ex_reproposed [(''b'', ex_bcd), (''c'', ex_bcd)])) (Resharing s) \<and>
     ke_epoch_id (ss_resharing_key ex_cancelling) = 6 \<and> ke_epoch_id (ss_resharing_key s) = 6"
proof -
  have cancel: "\<exists>s'. resharing_vote_cancel_resharing (ex_env ''b'' 1) ex_cancelling = Inr (s', Some (ex_running []))"
    by (simp add: resharing_vote_cancel_resharing_def ex_cancelling_def authenticated_account_id_def
        resharing_prospective_epoch_id_def key_event_new_def)
      (simp add: ex_running_def Let_def resharing_prospective_epoch_id_def ex_env_def ex_params_defs accounts_of_def)
  have before: "running_run (ex_running []) (ex_running [(0, [ex_domain 1]), (1, [ex_domain 1])])"
    using ex_step_votes(1,2) by (meson rtranclp.rtrancl_into_rtrancl rtranclp.rtrancl_refl)
  have mid: "(\<lambda>s s'. protocol_step (Initializing s) (Initializing s'))\<^sup>*\<^sup>* (ex_initializing {}) (ex_initializing {0})"
    using ex_step_cancel(1) by (simp add: r_into_rtranclp)
  have after: "running_run ex_cancelled (ex_reproposed [(''b'', ex_bcd), (''c'', ex_bcd)])"
    using ex_step_repropose(1,2) by (meson rtranclp.rtrancl_into_rtrancl rtranclp.rtrancl_refl)
  have e: "ke_epoch_id (ss_resharing_key ex_cancelling) = 6"
    "ks_epoch_id (rs_keyset (ss_prev ex_cancelling)) = 5"
    by (simp_all add: ex_cancelling_def key_event_new_def ex_running_def)
  obtain s where s: "protocol_step (Running (ex_reproposed [(''b'', ex_bcd), (''c'', ex_bcd)])) (Resharing s)"
    using ex_step_repropose(3) by blast
  from cancel obtain s' where
    "resharing_vote_cancel_resharing (ex_env ''b'' 1) ex_cancelling = Inr (s', Some (ex_running []))" by blast
  from cancelled_epoch_id_reused [OF ex_cancelling_wf _ _ this before ex_step_votes(3) mid
      ex_step_cancel(2) after s] e s show ?thesis by (intro exI [of _ s]) simp
qed

section \<open>Agreement\<close>

text \<open>
  C12. Adding domains takes every participant: a vote moves the contract into key generation exactly
  when, with it, each participant's current ballot is for these same domains. The new domains are
  then appended to the registry with the ids the registry was going to hand out next, and no key is
  lost. (The comments on \<^verbatim>\<open>vote_add_domains\<close> and on the Initializing state speak of a threshold number
  of participants.)
\<close>

theorem add_domains_unanimous:
  assumes wf: "wf_running r" and v: "running_vote_add_domains env r ds = Inr (r', nx)"
  shows "(nx \<noteq> None \<longleftrightarrow>
      (\<forall>i \<in> ids_of (tp_participants (rs_parameters r)). adv_ballot (rs_add_domains_votes r') i = Some ds)) \<and>
    (\<forall>s. nx = Some s \<longrightarrow>
      domain_ids ds = [dr_next_domain_id (rs_domains r) ..< dr_next_domain_id (rs_domains r) + length ds] \<and>
      dr_domains (is_domains s) = dr_domains (rs_domains r) @ ds \<and>
      is_generated_keys s = ks_domains (rs_keyset r) \<and>
      ke_domain (is_generating_key s) = hd ds)"
proof -
  have n: "dr_next_domain_id (rs_domains r) < 2 ^ 64"
    using wf_runningD(1) [OF wf] by (simp add: wf_registry_def)
  show ?thesis
  proof (rule running_vote_add_domains_Inr [OF wf v])
    assume c: "if \<forall>j \<in> ids_of (tp_participants (rs_parameters r)).
          adv_ballot (rs_add_domains_votes r') j = Some ds
     then \<exists>reg. add_domains (rs_domains r) ds = Inr reg \<and>
       nx = Some \<lparr>is_domains = reg, is_epoch_id = ks_epoch_id (rs_keyset r),
                     is_generated_keys = ks_domains (rs_keyset r),
                     is_generating_key =
                       key_event_new (ks_epoch_id (rs_keyset r)) (hd ds) (rs_parameters r),
                     is_cancel_votes = {}\<rparr>
     else nx = None"
    show ?thesis
    proof (cases "\<forall>j \<in> ids_of (tp_participants (rs_parameters r)).
          adv_ballot (rs_add_domains_votes r') j = Some ds")
      case True
      with c obtain reg where "add_domains (rs_domains r) ds = Inr reg"
        "nx = Some \<lparr>is_domains = reg, is_epoch_id = ks_epoch_id (rs_keyset r),
                     is_generated_keys = ks_domains (rs_keyset r),
                     is_generating_key =
                       key_event_new (ks_epoch_id (rs_keyset r)) (hd ds) (rs_parameters r),
                     is_cancel_votes = {}\<rparr>" by auto
      with True add_domains_eq [OF n, of ds reg] show ?thesis
        by (simp add: key_event_new_def)
    next
      case False
      with c show ?thesis by auto
    qed
  qed
qed

theorem add_domains_unanimous_witness:
  "\<exists>r' nx. running_vote_add_domains (ex_env ''a'' 1) (ex_running []) [ex_domain 1] = Inr (r', nx) \<and>
     nx = None \<and> adv_ballot (rs_add_domains_votes r') 1 \<noteq> Some [ex_domain 1]"
proof -
  obtain r' nx where v: "running_vote_add_domains (ex_env ''a'' 1) (ex_running []) [ex_domain 1] = Inr (r', nx)"
    and r': "adv_ballot (rs_add_domains_votes r') 1 = None"
    by (simp add: running_vote_add_domains_def adv_vote_def count_value_def ex_running_def ex_auth_simps
        ex_domain_def)
  have "1 \<in> ids_of (tp_participants (rs_parameters (ex_running [])))"
    by (simp add: ex_running_def ids_of_def ex_params_defs)
  with add_domains_unanimous [OF ex_running_wf v] r' v show ?thesis
    by (metis option.distinct(1))
qed

text \<open>
  The state in force, which a resharing starts from: the Running state, or the one that a resharing
  under way keeps. A resharing of it to a proposal leaves its keys, domains and parameters in force,
  starts with the first domain in a later epoch, and its proposal is valid for the parameters in force
  and keeps a threshold of their participants.
\<close>

fun governing_state :: "protocol_state \<Rightarrow> running_state option" where
  "governing_state (Running r) = Some r"
| "governing_state (Resharing s) = Some (ss_prev s)"
| "governing_state _ = None"

definition reshares :: "running_state \<Rightarrow> threshold_parameters \<Rightarrow> resharing_state \<Rightarrow> bool" where
  "reshares r proposal s \<longleftrightarrow>
     ss_proposal s = proposal \<and> validate_incoming_proposal (rs_parameters r) proposal = Inr () \<and>
     tp_threshold (rs_parameters r) \<le> card (tp_accounts proposal \<inter> tp_accounts (rs_parameters r)) \<and>
     rs_keyset (ss_prev s) = rs_keyset r \<and> rs_domains (ss_prev s) = rs_domains r \<and>
     rs_parameters (ss_prev s) = rs_parameters r \<and>
     ke_domain (ss_resharing_key s) = hd (dr_domains (rs_domains r)) \<and>
     ks_epoch_id (rs_keyset r) < ke_epoch_id (ss_resharing_key s)"

lemma transition_reshares:
  assumes wf: "wf_running r" and u: "u32_participants (tp_participants proposal)"
    and v: "validate_incoming_proposal (rs_parameters r) proposal = Inr ()"
    and t: "transition_to_resharing_no_checks r proposal = Inr (r', Some s)"
  shows "reshares r proposal s"
proof -
  from validate_incoming_proposal_eq [OF wf_parametersD(1) [OF wf_runningD(3) [OF wf]] u] v
  have "tp_threshold (rs_parameters r) \<le> card (tp_accounts proposal \<inter> tp_accounts (rs_parameters r))" by blast
  moreover from t have "ss_proposal s = proposal \<and> ke_domain (ss_resharing_key s) = hd (dr_domains (rs_domains r))"
    by (auto simp: transition_to_resharing_no_checks_def res_simps get_domain_by_index_def hd_conv_nth
        key_event_new_def split: if_splits)
  moreover have "ks_epoch_id (rs_keyset (ss_prev s)) < ke_epoch_id (ss_resharing_key s)"
    using wf_resharingD(4) tee_transition_wf [OF wf u v t] by simp
  ultimately show ?thesis using v transition_frame [OF t] by (simp add: reshares_def)
qed

lemma reshares_votes [simp]: "reshares (r\<lparr>rs_parameters_votes := v\<rparr>) proposal s = reshares r proposal s"
  by (simp add: reshares_def)

text \<open>
  A vote starts a resharing, from the Running state or in place of one under way, only to the proposal
  voted for, once every proposed participant's ballot is for it.
\<close>

lemma vote_starts_resharing:
  assumes wf: "wf_protocol p" and u: "u32_participants (tp_participants proposal)"
    and v: "protocol_vote_new_parameters env p e proposal = Inr res" "commit_state res = Resharing s"
    and new: "\<And>s0. p = Resharing s0 \<Longrightarrow> ke_epoch_id (ss_resharing_key s) \<noteq> ke_epoch_id (ss_resharing_key s0)"
  shows "\<exists>r. governing_state p = Some r \<and> reshares r proposal s \<and>
    (\<forall>a \<in> tp_accounts proposal.
       tpv_ballot (fst (tpv_vote (env_signer_account_id env) proposal (rs_parameters_votes r))) a = Some proposal) \<and>
    (\<forall>s0. p = Resharing s0 \<longrightarrow> ke_epoch_id (ss_resharing_key s) = ke_epoch_id (ss_resharing_key s0) + 1)"
proof (cases p)
  case (Running r)
  with v obtain r' where rv: "running_vote_new_parameters env r e proposal = Inr (r', Some s)"
    by (auto simp: protocol_vote_new_parameters_def map_states_Inr split: option.splits)
  from running_vote_new_parameters_Inr [OF rv] obtain r1 accepted where
    p: "process_new_parameters_proposal env r proposal = Inr (r1, accepted)"
    and t0: "if accepted then transition_to_resharing_no_checks r1 proposal = Inr (r', Some s)
       else r' = r1 \<and> Some s = None" by blast
  then have acc: "accepted" and t: "transition_to_resharing_no_checks r1 proposal = Inr (r', Some s)"
    by (auto split: if_splits)
  have wr: "wf_running r" using wf Running by simp
  note q = process_new_parameters_proposal_Inr [OF wr u p]
  have "reshares r1 proposal s"
    using transition_reshares [OF process_new_parameters_proposal_wf(1) [OF wr u p] u _ t] q(1,4) by simp
  with Running q(4,5) acc show ?thesis by simp
next
  case (Resharing s0)
  with v obtain s0' nx where rv: "resharing_vote_new_parameters env s0 e proposal = Inr (s0', nx)"
    and s: "s = (case nx of None \<Rightarrow> s0' | Some s' \<Rightarrow> s')"
    by (auto simp: protocol_vote_new_parameters_def map_states_Inr split: option.splits)
  have wr: "wf_running (ss_prev s0)" "wf_resharing s0" using wf Resharing wf_resharingD(1) by simp_all
  from resharing_vote_new_parameters_Inr [OF rv] obtain prev accepted where
    e: "epoch_id_next (resharing_prospective_epoch_id s0) = Inr e"
    and p: "process_new_parameters_proposal env (ss_prev s0) proposal = Inr (prev, accepted)"
    and s': "s0' = s0\<lparr>ss_previous_running_state := prev\<rparr>"
    and nx: "if accepted then dr_domains (rs_domains prev) \<noteq> [] \<and> nx = Some
           \<lparr>ss_previous_running_state = running_new (rs_domains prev) (rs_keyset prev)
              (rs_parameters prev) (rs_add_domains_votes prev),
            ss_reshared_keys = [],
            ss_resharing_key = key_event_new e (hd (dr_domains (rs_domains prev))) proposal,
            ss_cancellation_requests = {}\<rparr>
        else nx = None" by blast
  have acc: "accepted" using new [OF Resharing] nx s s' by (cases accepted) simp_all
  note q = process_new_parameters_proposal_Inr [OF wr(1) u p]
  have e': "e = ke_epoch_id (ss_resharing_key s0) + 1"
    using e by (simp add: epoch_id_next_def resharing_prospective_epoch_id_def add_u_def split: if_splits)
  have "reshares (ss_prev s0) proposal s"
    using nx acc s q(1,4) process_new_parameters_proposal_wf(3) [OF wr(1) u p] wf_resharingD(4) [OF wr(2)] e'
    by (simp add: reshares_def key_event_new_def)
  with Resharing q(4,5) acc nx s e' show ?thesis by (simp add: key_event_new_def)
qed (use v in \<open>simp_all add: protocol_vote_new_parameters_def\<close>)

text \<open>No other operation starts a resharing: it ends in one only if that was under way, in the same epoch.\<close>

definition keeps_resharing :: "protocol_state \<Rightarrow> protocol_state \<Rightarrow> bool" where
  "keeps_resharing p p' \<longleftrightarrow> (\<forall>s. p' = Resharing s \<longrightarrow>
     (\<exists>s0. p = Resharing s0 \<and> ke_epoch_id (ss_resharing_key s) = ke_epoch_id (ss_resharing_key s0)))"

lemma keeps_resharing_refl [simp]: "keeps_resharing p p"
  by (simp add: keeps_resharing_def)

lemma keygen_ops_keep_resharing:
  "protocol_vote_add_domains env p ds = Inr res \<Longrightarrow> keeps_resharing p (commit_state res)"
  "protocol_vote_pk env p kid pk = Inr res \<Longrightarrow> keeps_resharing p (commit_state res)"
  "protocol_vote_cancel_keygen env p n = Inr res \<Longrightarrow> keeps_resharing p (commit_state res)"
  "protocol_start_keygen_instance env p kid t = Inr p' \<Longrightarrow> keeps_resharing p p'"
  by (cases p; force simp: protocol_op_defs map_states_Inr keeps_resharing_def res_simps split: option.splits)+

lemma resharing_ops_keep_resharing:
  "protocol_start_reshare_instance env p kid t = Inr p' \<Longrightarrow> keeps_resharing p p'"
  "protocol_vote_abort_key_event_instance env p kid = Inr p' \<Longrightarrow> keeps_resharing p p'"
  "protocol_vote_cancel_resharing env p = Inr res \<Longrightarrow> keeps_resharing p (commit_state res)"
proof -
  show "protocol_start_reshare_instance env p kid t = Inr p' \<Longrightarrow> keeps_resharing p p'"
    by (cases p) (auto simp: protocol_start_reshare_instance_def keeps_resharing_def res_simps
        resharing_start_def key_event_start_eq)
  show "protocol_vote_abort_key_event_instance env p kid = Inr p' \<Longrightarrow> keeps_resharing p p'"
    by (cases p) (auto simp: protocol_vote_abort_key_event_instance_def keeps_resharing_def res_simps
        resharing_vote_abort_def key_event_vote_abort_eq)
  assume c: "protocol_vote_cancel_resharing env p = Inr res"
  show "keeps_resharing p (commit_state res)"
  proof (cases p)
    case (Resharing s)
    with c obtain s' nx where "resharing_vote_cancel_resharing env s = Inr (s', nx)"
      "commit_state res = (case nx of None \<Rightarrow> Resharing s' | Some r \<Rightarrow> Running r)"
      by (auto simp: protocol_vote_cancel_resharing_def map_states_Inr)
    with resharing_vote_cancel_resharing_Inr(2) [OF this(1)] Resharing show ?thesis
      by (auto simp: keeps_resharing_def split: option.splits)
  qed (use c in \<open>simp_all add: protocol_vote_cancel_resharing_def\<close>)
qed

lemma vote_reshared_keeps_resharing:
  assumes "protocol_vote_reshared env p kid = Inr res" "wf_protocol p"
  shows "keeps_resharing p (commit_state res)"
proof (cases p)
  case (Resharing s)
  with assms(1) obtain s' nx where v: "resharing_vote_reshared env s kid = Inr (s', nx)"
    and c: "commit_state res = (case nx of None \<Rightarrow> Resharing s' | Some r \<Rightarrow> Running r)"
    by (auto simp: protocol_vote_reshared_def map_states_Inr)
  have "ke_epoch_id (ss_resharing_key s') = ke_epoch_id (ss_resharing_key s)"
    using assms(2) Resharing by (auto intro: resharing_vote_reshared_eq [OF _ v])
  with c Resharing show ?thesis by (auto simp: keeps_resharing_def split: option.splits)
qed (use assms(1) in \<open>simp_all add: protocol_vote_reshared_def\<close>)

lemmas ops_keep_resharing = keygen_ops_keep_resharing resharing_ops_keep_resharing vote_reshared_keeps_resharing

definition ex_proposed :: running_state where
  "ex_proposed = (ex_running [])\<lparr>rs_parameters_votes :=
     \<lparr>tpv_proposal_by_account = [(''b'', ex_bcd), (''c'', ex_bcd)]\<rparr>\<rparr>"

lemma ex_proposed_wf: "wf_running ex_proposed"
  using ex_running_wf
  by (auto simp: ex_proposed_def wf_running_def ex_params_defs accounts_of_def split: if_splits)

lemma ex_proposed_vote:
  assumes "env_signer_account_id env = ''d''"
  shows "\<exists>r' s. running_vote_new_parameters env ex_proposed 7 ex_bcd = Inr (r', Some s)"
proof -
  have "tpv_n_votes (rs_parameters_votes ex_proposed) ex_bcd (tp_participants ex_abc) = 2"
    by (simp add: tpv_n_votes_def ex_proposed_def accounts_of_def) (simp add: ex_params_defs)
  moreover have "snd (tpv_vote ''d'' ex_bcd (rs_parameters_votes ex_proposed)) = 3"
    by (simp add: tpv_vote_def ex_proposed_def count_value_def)
  moreover have "''d'' \<in> tp_accounts ex_bcd" "''d'' \<notin> tp_accounts ex_abc" "tp_len ex_bcd = 3"
    "tp_threshold ex_abc = 2"
    by (simp_all add: ex_params_defs accounts_of_def participants_len_def)
  moreover have "rs_parameters ex_proposed = ex_abc" "running_prospective_epoch_id ex_proposed = Inr 7"
    "dr_domains (rs_domains ex_proposed) = [ex_domain 0]"
    by (simp_all add: ex_proposed_def ex_running_def running_prospective_epoch_id_def epoch_id_next_def add_u_ok)
  ultimately show ?thesis
    using ex_valid
    by (auto simp: running_vote_new_parameters_def process_new_parameters_proposal_def is_ok_iff
        authenticated_account_id_def transition_to_resharing_no_checks_def get_domain_by_index_def
        case_prod_beta assms)
qed

end
