(* ===== verification/Dstack.thy ===== *)
theory Dstack
  imports Host
begin

text \<open>
  Verification of a Dstack (Intel TDX) attestation: \<^verbatim>\<open>crates/attestation\<close>. A quote is checked by
  the \<^verbatim>\<open>dcap_qvl\<close> crate; this code then compares what the quote measured with the event log and the
  TCB info that accompany it. The register RTMR3 is replayed from the event log.

  \<^verbatim>\<open>dcap_qvl\<close>, \<^verbatim>\<open>serde_json\<close>, \<^verbatim>\<open>hex\<close> and the SHA-2/SHA-3 crates are third-party code: they are the
  fields of the record \<open>tee_libs\<close>, an argument of the definitions that use them. The contract runs on
  \<^verbatim>\<open>wasm32\<close>, so \<^verbatim>\<open>to_ne_bytes\<close> is little-endian.
\<close>

section \<open>Data\<close>

record event_log =
  ev_imr :: nat
  ev_event_type :: nat
  ev_digest :: "byte list"
  ev_event :: string
  ev_event_payload :: string

record tcb_info =
  tcb_mrtd :: "byte list"
  tcb_rtmr0 :: "byte list"
  tcb_rtmr1 :: "byte list"
  tcb_rtmr2 :: "byte list"
  tcb_rtmr3 :: "byte list"
  tcb_os_image_hash :: "byte list option"
  tcb_compose_hash :: "byte list"
  tcb_device_id :: "byte list"
  tcb_app_compose :: string
  tcb_event_log :: "event_log list"

record measurements =
  me_mrtd :: "byte list"
  me_rtmr0 :: "byte list"
  me_rtmr1 :: "byte list"
  me_rtmr2 :: "byte list"

record expected_measurements =
  em_rtmrs :: measurements
  em_key_provider_event_digest :: "byte list"

record app_compose =
  ac_manifest_version :: nat
  ac_name :: string
  ac_runner :: string
  ac_docker_compose_file :: string
  ac_kms_enabled :: bool
  ac_tproxy_enabled :: "bool option"
  ac_gateway_enabled :: "bool option"
  ac_public_logs :: bool
  ac_public_sysinfo :: bool
  ac_local_key_provider_enabled :: bool
  ac_key_provider_id :: "string option"
  ac_allowed_envs :: "string list"
  ac_no_instance_id :: bool
  ac_secure_time :: "bool option"
  ac_pre_launch_script :: "string option"

text \<open>The collateral and the report are types of \<^verbatim>\<open>dcap_qvl\<close>; of the report, the fields read here.\<close>

record quote_collateral =
  qc_tcb_info_issuer_chain :: string
  qc_tcb_info :: string
  qc_tcb_info_signature :: "byte list"
  qc_qe_identity_issuer_chain :: string
  qc_qe_identity :: string
  qc_qe_identity_signature :: "byte list"
  qc_pck_crl_issuer_chain :: string
  qc_root_ca_crl :: "byte list"
  qc_pck_crl :: "byte list"
  qc_pck_certificate_chain :: "string option"

record td_report10 =
  td_report_data :: "byte list"
  td_rt_mr0 :: "byte list"
  td_rt_mr1 :: "byte list"
  td_rt_mr2 :: "byte list"
  td_rt_mr3 :: "byte list"
  td_mr_td :: "byte list"

record verified_report =
  vr_status :: string
  vr_advisory_ids :: "string list"
  vr_td10 :: "td_report10 option"

record dstack_attestation =
  da_quote :: "byte list"
  da_collateral :: quote_collateral
  da_tcb_info :: tcb_info

record tee_libs =
  th_sha256 :: "byte list \<Rightarrow> byte list"
  th_sha384 :: "byte list \<Rightarrow> byte list"
  th_sha3_384 :: "byte list \<Rightarrow> byte list"
  th_hex_encode :: "byte list \<Rightarrow> string"
  th_hex_decode :: "string \<Rightarrow> byte list option"
  th_parse_app_compose :: "string \<Rightarrow> app_compose option"
  th_dcap_verify :: "byte list \<Rightarrow> quote_collateral \<Rightarrow> nat \<Rightarrow> verified_report option"
  th_default_measurements :: "expected_measurements list"

text \<open>
  The texts of \<^verbatim>\<open>VerificationError::Custom\<close> are represented by what they report; the hexadecimal
  renderings inside \<^verbatim>\<open>WrongHash\<close> and the texts of foreign errors are not kept.
\<close>

datatype custom_reason =
  AttestationExpired nat nat | MpcImageNotHex | MpcImageNot32Bytes | MpcHashesEmpty
| MpcHashNotAllowed "byte list" | LauncherHashesEmpty | LauncherHashNotAllowed "byte list"

datatype tee_verification_error =
  DcapVerification | ReportNotTd10 | TcbStatusNotUpToDate string
| NonEmptyAdvisoryIds "string list" | WrongHash string | InvalidEventType nat
| EventDecoding string | AppComposeParsing | MissingEvent string | DuplicateEvent string
| InvalidAppComposeConfig string | AppComposeEventPayloadWrongSize nat
| AppComposeEventPayloadNotHex string | ExpiredCertificate nat nat | InvalidMockAttestation
| Custom custom_reason

section \<open>Verification\<close>

abbreviation EXPECTED_QUOTE_STATUS :: string where
  "EXPECTED_QUOTE_STATUS \<equiv> ''UpToDate''"

abbreviation DSTACK_EVENT_TYPE :: nat where
  "DSTACK_EVENT_TYPE \<equiv> 134217729"

abbreviation COMPOSE_HASH_EVENT :: string where
  "COMPOSE_HASH_EVENT \<equiv> ''compose-hash''"

abbreviation KEY_PROVIDER_EVENT :: string where
  "KEY_PROVIDER_EVENT \<equiv> ''key-provider''"

abbreviation RTMR3_INDEX :: nat where
  "RTMR3_INDEX \<equiv> 3"

text \<open>\<^verbatim>\<open>str::as_bytes\<close> and \<^verbatim>\<open>u32::to_le_bytes\<close>.\<close>

definition as_bytes :: "string \<Rightarrow> byte list" where
  "as_bytes s = map of_char s"

definition u32_le_bytes :: "nat \<Rightarrow> byte list" where
  "u32_le_bytes n = map (\<lambda>i. of_nat (n div 256 ^ i)) [0, 1, 2, 3]"

definition compare_hashes :: "string \<Rightarrow> byte list \<Rightarrow> byte list \<Rightarrow> tee_verification_error + unit" where
  "compare_hashes name found expected = ensure (found = expected) (WrongHash name)"

definition compare_hex_hashes :: "string \<Rightarrow> string \<Rightarrow> string \<Rightarrow> tee_verification_error + unit" where
  "compare_hex_hashes name found expected = ensure (found = expected) (WrongHash name)"

definition get_single_event :: "tcb_info \<Rightarrow> string \<Rightarrow> tee_verification_error + event_log" where
  "get_single_event tcb event_name =
     (case filter (\<lambda>e. ev_event e = event_name \<and> ev_imr e = RTMR3_INDEX) (tcb_event_log tcb) of
        [] \<Rightarrow> Inl (MissingEvent event_name)
      | [event] \<Rightarrow> Inr event
      | _ \<Rightarrow> Inl (DuplicateEvent event_name))"

definition event_preimage :: "nat \<Rightarrow> string \<Rightarrow> byte list \<Rightarrow> byte list" where
  "event_preimage event_type event payload =
     u32_le_bytes event_type @ as_bytes '':'' @ as_bytes event @ as_bytes '':'' @ payload"

definition event_digest :: "tee_libs \<Rightarrow> nat \<Rightarrow> string \<Rightarrow> byte list \<Rightarrow> byte list" where
  "event_digest th event_type event payload = th_sha384 th (event_preimage event_type event payload)"

text \<open>The loop of \<^verbatim>\<open>verify_event_log_rtmr3\<close>, over the events of RTMR3.\<close>

fun replay_rtmr3 ::
  "tee_libs \<Rightarrow> event_log list \<Rightarrow> byte list \<Rightarrow> tee_verification_error + byte list"
where
  "replay_rtmr3 th [] digest = Inr digest"
| "replay_rtmr3 th (event # events) digest =
     (if ev_event_type event \<noteq> DSTACK_EVENT_TYPE
      then Inl (InvalidEventType (ev_event_type event))
      else case th_hex_decode th (ev_event_payload event) of
        None \<Rightarrow> Inl (EventDecoding (th_hex_encode th (ev_digest event)))
      | Some payload_bytes \<Rightarrow>
          bind_res (compare_hashes ''event_digest'' (ev_digest event)
            (event_digest th (ev_event_type event) (ev_event event) payload_bytes)) (\<lambda>_.
          replay_rtmr3 th events (th_sha384 th (digest @ ev_digest event))))"

definition verify_event_log_rtmr3 ::
  "tee_libs \<Rightarrow> event_log list \<Rightarrow> byte list \<Rightarrow> tee_verification_error + unit" where
  "verify_event_log_rtmr3 th log expected_digest =
     bind_res (replay_rtmr3 th (filter (\<lambda>e. ev_imr e = RTMR3_INDEX) log) (replicate 48 0)) (\<lambda>digest.
     compare_hashes ''event_log'' digest expected_digest)"

definition validate_app_compose_payload ::
  "tee_libs \<Rightarrow> string \<Rightarrow> string \<Rightarrow> tee_verification_error + unit" where
  "validate_app_compose_payload th expected_event_payload_hex app_compose =
     (case th_hex_decode th expected_event_payload_hex of
        None \<Rightarrow> Inl (AppComposeEventPayloadNotHex expected_event_payload_hex)
      | Some bytes \<Rightarrow>
          if length bytes \<noteq> 32 then Inl (AppComposeEventPayloadWrongSize (length bytes))
          else compare_hashes ''app_compose_payload'' (th_sha256 th (as_bytes app_compose)) bytes)"

definition verify_tcb_status :: "verified_report \<Rightarrow> tee_verification_error + unit" where
  "verify_tcb_status report =
     bind_res (ensure (vr_status report = EXPECTED_QUOTE_STATUS) (TcbStatusNotUpToDate (vr_status report))) (\<lambda>_.
     ensure (vr_advisory_ids report = []) (NonEmptyAdvisoryIds (vr_advisory_ids report)))"

definition verify_report_data :: "byte list \<Rightarrow> td_report10 \<Rightarrow> tee_verification_error + unit" where
  "verify_report_data expected actual = compare_hashes ''report_data'' (td_report_data actual) expected"

definition verify_static_rtmrs ::
  "td_report10 \<Rightarrow> tcb_info \<Rightarrow> expected_measurements \<Rightarrow> tee_verification_error + unit" where
  "verify_static_rtmrs report tcb expected =
     (let m = em_rtmrs expected in
      bind_res (compare_hashes ''rtmr0_report_data'' (td_rt_mr0 report) (me_rtmr0 m)) (\<lambda>_.
      bind_res (compare_hashes ''rtmr1_report_data'' (td_rt_mr1 report) (me_rtmr1 m)) (\<lambda>_.
      bind_res (compare_hashes ''rtmr2_report_data'' (td_rt_mr2 report) (me_rtmr2 m)) (\<lambda>_.
      bind_res (compare_hashes ''mrtd_report_data'' (td_mr_td report) (me_mrtd m)) (\<lambda>_.
      bind_res (compare_hashes ''rtmr0_tcb_info'' (tcb_rtmr0 tcb) (me_rtmr0 m)) (\<lambda>_.
      bind_res (compare_hashes ''rtmr1_tcb_info'' (tcb_rtmr1 tcb) (me_rtmr1 m)) (\<lambda>_.
      bind_res (compare_hashes ''rtmr2_tcb_info'' (tcb_rtmr2 tcb) (me_rtmr2 m)) (\<lambda>_.
      compare_hashes ''mtrd_tcb_info'' (tcb_mrtd tcb) (me_mrtd m)))))))))"

definition verify_key_provider_digest :: "tcb_info \<Rightarrow> byte list \<Rightarrow> tee_verification_error + unit" where
  "verify_key_provider_digest tcb expected_digest =
     bind_res (get_single_event tcb KEY_PROVIDER_EVENT) (\<lambda>event.
     compare_hashes ''key_provider'' (ev_digest event) expected_digest)"

definition verify_any_measurements ::
  "td_report10 \<Rightarrow> tcb_info \<Rightarrow> expected_measurements list \<Rightarrow> tee_verification_error + unit" where
  "verify_any_measurements report tcb accepted_measurements =
     ensure (list_ex (\<lambda>expected. is_ok (verify_static_rtmrs report tcb expected) \<and>
         is_ok (verify_key_provider_digest tcb (em_key_provider_event_digest expected)))
       accepted_measurements) (WrongHash ''expected_measurements'')"

definition verify_rtmr3 :: "tee_libs \<Rightarrow> td_report10 \<Rightarrow> tcb_info \<Rightarrow> tee_verification_error + unit" where
  "verify_rtmr3 th report tcb =
     bind_res (compare_hashes ''rtmr3'' (tcb_rtmr3 tcb) (td_rt_mr3 report)) (\<lambda>_.
     verify_event_log_rtmr3 th (tcb_event_log tcb) (td_rt_mr3 report))"

definition validate_app_compose_config :: "app_compose \<Rightarrow> bool" where
  "validate_app_compose_config ac \<longleftrightarrow>
     ac_manifest_version ac = 2 \<and> ac_runner ac = ''docker-compose'' \<and> \<not> ac_kms_enabled ac \<and>
     ac_gateway_enabled ac = Some False \<and> ac_public_logs ac \<and> ac_public_sysinfo ac \<and>
     ac_local_key_provider_enabled ac \<and> ac_allowed_envs ac = [] \<and> ac_no_instance_id ac \<and>
     ac_pre_launch_script ac = None"

definition verify_app_compose :: "tee_libs \<Rightarrow> tcb_info \<Rightarrow> tee_verification_error + unit" where
  "verify_app_compose th tcb =
     bind_res (ok_or (th_parse_app_compose th (tcb_app_compose tcb)) AppComposeParsing) (\<lambda>app_compose.
     bind_res (ensure (validate_app_compose_config app_compose)
       (InvalidAppComposeConfig (tcb_app_compose tcb))) (\<lambda>_.
     bind_res (get_single_event tcb COMPOSE_HASH_EVENT) (\<lambda>event.
     bind_res (compare_hex_hashes ''app_compose_event_hash'' (ev_event_payload event)
       (th_hex_encode th (tcb_compose_hash tcb))) (\<lambda>_.
     validate_app_compose_payload th (ev_event_payload event) (tcb_app_compose tcb)))))"

definition dstack_verify ::
  "tee_libs \<Rightarrow> dstack_attestation \<Rightarrow> byte list \<Rightarrow> nat \<Rightarrow> expected_measurements list \<Rightarrow>
     tee_verification_error + unit" where
  "dstack_verify th att expected_report_data timestamp_seconds accepted_measurements =
     bind_res (ok_or (th_dcap_verify th (da_quote att) (da_collateral att) timestamp_seconds)
       DcapVerification) (\<lambda>result.
     bind_res (ok_or (vr_td10 result) ReportNotTd10) (\<lambda>report.
     bind_res (verify_tcb_status result) (\<lambda>_.
     bind_res (verify_report_data expected_report_data report) (\<lambda>_.
     bind_res (verify_rtmr3 th report (da_tcb_info att)) (\<lambda>_.
     bind_res (verify_app_compose th (da_tcb_info att)) (\<lambda>_.
     verify_any_measurements report (da_tcb_info att) accepted_measurements))))))"

section \<open>The replay of RTMR3\<close>

text \<open>The register as a hash chain over the event digests, and the inputs the chain hashes.\<close>

definition rtmr3_chain :: "tee_libs \<Rightarrow> byte list \<Rightarrow> byte list list \<Rightarrow> byte list" where
  "rtmr3_chain th d ds = foldl (\<lambda>acc x. th_sha384 th (acc @ x)) d ds"

fun chain_inputs :: "tee_libs \<Rightarrow> byte list \<Rightarrow> byte list list \<Rightarrow> byte list set" where
  "chain_inputs th d [] = {}"
| "chain_inputs th d (x # xs) = insert (d @ x) (chain_inputs th (th_sha384 th (d @ x)) xs)"

abbreviation rtmr3_events :: "tcb_info \<Rightarrow> event_log list" where
  "rtmr3_events tcb \<equiv> filter (\<lambda>e. ev_imr e = RTMR3_INDEX) (tcb_event_log tcb)"

abbreviation rtmr3_digests :: "tcb_info \<Rightarrow> byte list list" where
  "rtmr3_digests tcb \<equiv> map ev_digest (rtmr3_events tcb)"

text \<open>An event whose digest is the hash of its type, name and payload.\<close>

definition measured_event :: "tee_libs \<Rightarrow> event_log \<Rightarrow> byte list \<Rightarrow> bool" where
  "measured_event th e payload \<longleftrightarrow>
     ev_event_type e = DSTACK_EVENT_TYPE \<and> th_hex_decode th (ev_event_payload e) = Some payload \<and>
     ev_digest e = event_digest th DSTACK_EVENT_TYPE (ev_event e) payload"

lemma rtmr3_chain_snoc: "rtmr3_chain th d (xs @ [x]) = th_sha384 th (rtmr3_chain th d xs @ x)"
  by (simp add: rtmr3_chain_def)

lemma chain_inputs_snoc:
  "chain_inputs th d (xs @ [x]) = insert (rtmr3_chain th d xs @ x) (chain_inputs th d xs)"
  by (induction xs arbitrary: d) (auto simp: rtmr3_chain_def)

lemma replay_rtmr3_Inr:
  "replay_rtmr3 th es d = Inr d' \<longleftrightarrow>
     d' = rtmr3_chain th d (map ev_digest es) \<and> (\<forall>e \<in> set es. \<exists>payload. measured_event th e payload)"
  by (induction es arbitrary: d)
    (auto simp: rtmr3_chain_def measured_event_def compare_hashes_def res_simps split: option.splits)

lemma verify_rtmr3_Inr:
  "verify_rtmr3 th report tcb = Inr u \<longleftrightarrow>
     tcb_rtmr3 tcb = td_rt_mr3 report \<and>
     rtmr3_chain th (replicate 48 0) (rtmr3_digests tcb) = td_rt_mr3 report \<and>
     (\<forall>e \<in> set (rtmr3_events tcb). \<exists>payload. measured_event th e payload)"
  unfolding verify_rtmr3_def verify_event_log_rtmr3_def bind_res_eq_Inr replay_rtmr3_Inr
  by (auto simp: compare_hashes_def)

text \<open>A hash chain that does not collide determines what it hashed.\<close>

lemma rtmr3_chain_length:
  assumes "\<And>x. length (th_sha384 th x) = 48" "length d = 48"
  shows "length (rtmr3_chain th d xs) = 48"
  using assms by (induction xs rule: rev_induct) (simp_all add: rtmr3_chain_snoc, simp add: rtmr3_chain_def)

lemma rtmr3_chain_inject:
  assumes len: "\<And>x. length (th_sha384 th x) = 48" and d: "length d = 48"
    and inj: "inj_on (th_sha384 th) (chain_inputs th d xs \<union> chain_inputs th d ys)"
    and start: "d \<notin> th_sha384 th ` (chain_inputs th d xs \<union> chain_inputs th d ys)"
    and eq: "rtmr3_chain th d xs = rtmr3_chain th d ys"
  shows "xs = ys"
  using inj start eq
proof (induction xs arbitrary: ys rule: rev_induct)
  case Nil
  show ?case
  proof (cases "ys = []")
    case False
    then obtain zs z where ys: "ys = zs @ [z]" by (metis rev_exhaust)
    then have "rtmr3_chain th d zs @ z \<in> chain_inputs th d ys"
      by (simp add: chain_inputs_snoc)
    with Nil.prems(2) have "th_sha384 th (rtmr3_chain th d zs @ z) \<noteq> d"
      by (metis UnI1 UnI2 imageI)
    with Nil.prems(3) show ?thesis by (simp add: ys rtmr3_chain_snoc) (simp add: rtmr3_chain_def)
  qed simp
next
  case (snoc x xs)
  note IH = snoc.IH and inj = snoc.prems(1) and start = snoc.prems(2) and eq = snoc.prems(3)
  note len_chain = rtmr3_chain_length [OF len d]
  show ?case
  proof (cases "ys = []")
    case True
    have "rtmr3_chain th d xs @ x \<in> chain_inputs th d (xs @ [x])"
      by (simp add: chain_inputs_snoc)
    with start have "th_sha384 th (rtmr3_chain th d xs @ x) \<noteq> d"
      by (metis UnI1 UnI2 imageI)
    with eq True show ?thesis by (simp add: rtmr3_chain_snoc) (simp add: rtmr3_chain_def)
  next
    case False
    then obtain zs z where ys: "ys = zs @ [z]" by (metis rev_exhaust)
    have in_xs: "rtmr3_chain th d xs @ x \<in> chain_inputs th d (xs @ [x]) \<union> chain_inputs th d ys"
      and in_zs: "rtmr3_chain th d zs @ z \<in> chain_inputs th d (xs @ [x]) \<union> chain_inputs th d ys"
      and sub: "chain_inputs th d xs \<union> chain_inputs th d zs \<subseteq>
        chain_inputs th d (xs @ [x]) \<union> chain_inputs th d ys"
      by (auto simp: ys chain_inputs_snoc)
    have "rtmr3_chain th d xs @ x = rtmr3_chain th d zs @ z"
      using inj_onD [OF inj _ in_xs in_zs] eq by (simp add: ys rtmr3_chain_snoc)
    then have *: "rtmr3_chain th d xs = rtmr3_chain th d zs" "x = z"
      using len_chain [of xs] len_chain [of zs] by simp_all
    have "xs = zs"
      using IH [OF inj_on_subset [OF inj sub] _ *(1)] start sub by blast
    with * ys show ?thesis by simp
  qed
qed

section \<open>What an event digest determines\<close>

lemma unat_of_char: "unat (of_char c :: byte) = of_char c"
proof -
  have "(of_char c :: byte) = of_nat (of_char c)"
    by (cases c) (simp add: of_char_def horner_sum_eq_sum)
  then have "unat (of_char c :: byte) = of_char c mod 2 ^ 8"
    by (simp add: unat_of_nat)
  then show ?thesis
    using nat_of_char_less_256 [of c] by simp
qed

lemma inj_as_bytes: "as_bytes s = as_bytes t \<longleftrightarrow> s = t"
proof
  have "inj (of_char :: char \<Rightarrow> byte)"
    by (rule injI) (metis unat_of_char of_char_eq_iff)
  then show "as_bytes s = as_bytes t \<Longrightarrow> s = t"
    unfolding as_bytes_def by (metis inj_map injD)
qed simp

lemma append_mark_inject:
  "c \<notin> set a \<Longrightarrow> c \<notin> set b \<Longrightarrow> a @ c # p = b @ c # q \<Longrightarrow> a = b \<and> p = q"
proof (induction a arbitrary: b)
  case Nil
  then show ?case by (cases b) auto
next
  case (Cons x a)
  then show ?case by (cases b) auto
qed

text \<open>The separator makes the name and the payload of an event recoverable when names have no colon.\<close>

lemma event_preimage_inject:
  assumes "CHR '':'' \<notin> set a" "CHR '':'' \<notin> set b"
  shows "event_preimage t a p = event_preimage t b q \<longleftrightarrow> a = b \<and> p = q"
proof
  have no: "of_char (CHR '':'') \<notin> set (as_bytes s)" if "CHR '':'' \<notin> set s" for s
  proof
    assume "of_char (CHR '':'') \<in> set (as_bytes s)"
    then obtain c where "c \<in> set s" "(of_char (CHR '':'') :: byte) = of_char c"
      by (auto simp: as_bytes_def)
    then show False using that unat_of_char by (metis of_char_eq_iff)
  qed
  assume "event_preimage t a p = event_preimage t b q"
  then have "as_bytes a @ of_char (CHR '':'') # p = as_bytes b @ of_char (CHR '':'') # q"
    by (simp add: event_preimage_def as_bytes_def)
  from append_mark_inject [OF no [OF assms(1)] no [OF assms(2)] this]
  show "a = b \<and> p = q" by (simp add: inj_as_bytes)
qed simp

end
