(* ===== verification/Attestations.thy ===== *)
theory Attestations
  imports Dstack
begin

text \<open>
  The attestations the contract accepts and stores: \<^verbatim>\<open>crates/mpc-attestation\<close>. A node submits an
  \<open>attestation\<close>; verification turns it into a \<open>verified_attestation\<close>, which is re-verified later
  against the then allowed hashes. The report data binds the TLS and account keys of the node.
\<close>

type_synonym mpc_docker_image_hash = "byte list"
type_synonym launcher_docker_compose_hash = "byte list"
type_synonym launcher_image_hash = "byte list"

section \<open>Report data\<close>

abbreviation REPORT_DATA_SIZE :: nat where
  "REPORT_DATA_SIZE \<equiv> 64"

abbreviation BINARY_VERSION_SIZE :: nat where
  "BINARY_VERSION_SIZE \<equiv> 2"

abbreviation PUBLIC_KEYS_HASH_SIZE :: nat where
  "PUBLIC_KEYS_HASH_SIZE \<equiv> 48"

datatype report_data_version = V1

definition report_data_version_to_be_bytes :: "report_data_version \<Rightarrow> byte list" where
  "report_data_version_to_be_bytes v = (case v of V1 \<Rightarrow> [0, 1])"

definition report_data_version_from_be_bytes :: "byte list \<Rightarrow> report_data_version option" where
  "report_data_version_from_be_bytes bytes = (if bytes = [0, 1] then Some V1 else None)"

record report_data_v1 =
  rd_tls_public_key :: "byte list"
  rd_account_public_key :: "byte list"

definition compute_public_keys_hash :: "tee_libs \<Rightarrow> byte list \<Rightarrow> byte list \<Rightarrow> byte list" where
  "compute_public_keys_hash th tls_public_key account_public_key =
     th_sha3_384 th (tls_public_key @ account_public_key)"

text \<open>\<^verbatim>\<open>buffer[offset..offset + bytes.len()].copy_from_slice(bytes)\<close>, within the buffer.\<close>

definition write_at :: "byte list \<Rightarrow> nat \<Rightarrow> byte list \<Rightarrow> byte list" where
  "write_at buffer offset bytes =
     take offset buffer @ bytes @ drop (offset + length bytes) buffer"

definition report_data_v1_to_bytes :: "tee_libs \<Rightarrow> report_data_v1 \<Rightarrow> byte list" where
  "report_data_v1_to_bytes th rd =
     (let buffer = write_at (replicate REPORT_DATA_SIZE 0) 0 (report_data_version_to_be_bytes V1)
      in write_at buffer BINARY_VERSION_SIZE
           (compute_public_keys_hash th (rd_tls_public_key rd) (rd_account_public_key rd)))"

definition report_data_v1_from_bytes :: "byte list \<Rightarrow> byte list" where
  "report_data_v1_from_bytes bytes = take PUBLIC_KEYS_HASH_SIZE (drop BINARY_VERSION_SIZE bytes)"

section \<open>Attestations\<close>

abbreviation DEFAULT_EXPIRATION_DURATION_SECONDS :: nat where
  "DEFAULT_EXPIRATION_DURATION_SECONDS \<equiv> 60 * 60 * 24 * 7"

abbreviation MPC_IMAGE_HASH_EVENT :: string where
  "MPC_IMAGE_HASH_EVENT \<equiv> ''mpc-image-digest''"

datatype mock_attestation =
  MockValid
| MockInvalid
| MockWithConstraints "mpc_docker_image_hash option" "launcher_docker_compose_hash option" "nat option"

datatype attestation = AttDstack dstack_attestation | AttMock mock_attestation

record validated_dstack_attestation =
  vd_mpc_image_hash :: mpc_docker_image_hash
  vd_launcher_compose_hash :: launcher_docker_compose_hash
  vd_expiry_timestamp_seconds :: nat

datatype verified_attestation =
  VerDstack validated_dstack_attestation | VerMock mock_attestation

definition verify_mpc_hash ::
  "mpc_docker_image_hash \<Rightarrow> mpc_docker_image_hash list \<Rightarrow> tee_verification_error + unit" where
  "verify_mpc_hash image_hash allowed_hashes =
     (if allowed_hashes = [] then Inl (Custom MpcHashesEmpty)
      else if \<not> List.member allowed_hashes image_hash then Inl (Custom (MpcHashNotAllowed image_hash))
      else Inr ())"

definition verify_launcher_compose_hash ::
  "launcher_docker_compose_hash \<Rightarrow> launcher_docker_compose_hash list \<Rightarrow>
     tee_verification_error + unit" where
  "verify_launcher_compose_hash launcher_compose_hash allowed_hashes =
     (if allowed_hashes = [] then Inl (Custom LauncherHashesEmpty)
      else if \<not> List.member allowed_hashes launcher_compose_hash
      then Inl (Custom (LauncherHashNotAllowed launcher_compose_hash))
      else Inr ())"

definition verify_mock_attestation ::
  "mock_attestation \<Rightarrow> mpc_docker_image_hash list \<Rightarrow> launcher_docker_compose_hash list \<Rightarrow> nat \<Rightarrow>
     tee_verification_error + unit" where
  "verify_mock_attestation mock allowed_mpc allowed_launcher timestamp_seconds = (case mock of
       MockValid \<Rightarrow> Inr ()
     | MockInvalid \<Rightarrow> Inl InvalidMockAttestation
     | MockWithConstraints mpc_hash launcher_hash expiry \<Rightarrow>
         bind_res (case mpc_hash of
             Some h \<Rightarrow> if allowed_mpc = [] then Inl (Custom MpcHashesEmpty)
               else ensure (List.member allowed_mpc h) (Custom (MpcHashNotAllowed h))
           | None \<Rightarrow> Inr ()) (\<lambda>_.
         bind_res (case launcher_hash of
             Some h \<Rightarrow> if allowed_launcher = [] then Inl (Custom LauncherHashesEmpty)
               else ensure (List.member allowed_launcher h) (Custom (LauncherHashNotAllowed h))
           | None \<Rightarrow> Inr ()) (\<lambda>_.
         case expiry of
           Some e \<Rightarrow> ensure (timestamp_seconds < e) (ExpiredCertificate timestamp_seconds e)
         | None \<Rightarrow> Inr ())))"

definition re_verify ::
  "verified_attestation \<Rightarrow> nat \<Rightarrow> mpc_docker_image_hash list \<Rightarrow> launcher_docker_compose_hash list \<Rightarrow>
     tee_verification_error + unit" where
  "re_verify v timestamp_seconds allowed_mpc allowed_launcher = (case v of
       VerDstack d \<Rightarrow>
         if vd_expiry_timestamp_seconds d < timestamp_seconds
         then Inl (Custom (AttestationExpired (vd_expiry_timestamp_seconds d) timestamp_seconds))
         else bind_res (verify_mpc_hash (vd_mpc_image_hash d) allowed_mpc) (\<lambda>_.
              verify_launcher_compose_hash (vd_launcher_compose_hash d) allowed_launcher)
     | VerMock mock \<Rightarrow> verify_mock_attestation mock allowed_mpc allowed_launcher timestamp_seconds)"

text \<open>The image hash of the single measured event, which must be 32 hex-encoded bytes.\<close>

definition mpc_image_hash_of ::
  "tee_libs \<Rightarrow> tcb_info \<Rightarrow> tee_verification_error + mpc_docker_image_hash" where
  "mpc_image_hash_of th tcb =
     bind_res (get_single_event tcb MPC_IMAGE_HASH_EVENT) (\<lambda>event.
     bind_res (ok_or (th_hex_decode th (ev_event_payload event)) (Custom MpcImageNotHex)) (\<lambda>bytes.
     if length bytes = 32 then Inr bytes else Inl (Custom MpcImageNot32Bytes)))"

definition launcher_compose_hash_of ::
  "tee_libs \<Rightarrow> tcb_info \<Rightarrow> tee_verification_error + launcher_docker_compose_hash" where
  "launcher_compose_hash_of th tcb =
     bind_res (ok_or (th_parse_app_compose th (tcb_app_compose tcb)) AppComposeParsing) (\<lambda>app_compose.
     Inr (th_sha256 th (as_bytes (ac_docker_compose_file app_compose))))"

text \<open>The checks of \<^verbatim>\<open>Attestation::verify\<close> on a Dstack attestation, up to the expiry.\<close>

definition verify_dstack_checks ::
  "tee_libs \<Rightarrow> dstack_attestation \<Rightarrow> byte list \<Rightarrow> nat \<Rightarrow> mpc_docker_image_hash list \<Rightarrow>
     launcher_docker_compose_hash list \<Rightarrow> expected_measurements list \<Rightarrow>
     tee_verification_error + (mpc_docker_image_hash \<times> launcher_docker_compose_hash)" where
  "verify_dstack_checks th att expected_report_data now allowed_mpc allowed_launcher accepted =
     bind_res (mpc_image_hash_of th (da_tcb_info att)) (\<lambda>mpc_image_hash.
     bind_res (verify_mpc_hash mpc_image_hash allowed_mpc) (\<lambda>_.
     bind_res (launcher_compose_hash_of th (da_tcb_info att)) (\<lambda>launcher_compose_hash.
     bind_res (verify_launcher_compose_hash launcher_compose_hash allowed_launcher) (\<lambda>_.
     bind_res (dstack_verify th att expected_report_data now accepted) (\<lambda>_.
     Inr (mpc_image_hash, launcher_compose_hash))))))"

text \<open>
  \<^verbatim>\<open>Attestation::verify\<close> returns an error value or the verified attestation; the addition of the
  validity period panics on overflow.
\<close>

definition attestation_verify ::
  "tee_libs \<Rightarrow> attestation \<Rightarrow> byte list \<Rightarrow> nat \<Rightarrow> mpc_docker_image_hash list \<Rightarrow>
     launcher_docker_compose_hash list \<Rightarrow> expected_measurements list \<Rightarrow>
     (tee_verification_error + verified_attestation) res" where
  "attestation_verify th att expected_report_data now allowed_mpc allowed_launcher accepted =
     (case att of
        AttDstack dstack \<Rightarrow>
          (case verify_dstack_checks th dstack expected_report_data now allowed_mpc allowed_launcher
              accepted of
             Inl e \<Rightarrow> Inr (Inl e)
           | Inr (mpc_image_hash, launcher_compose_hash) \<Rightarrow>
               bind_res (add_u 64 now DEFAULT_EXPIRATION_DURATION_SECONDS) (\<lambda>expiry.
               Inr (Inr (VerDstack \<lparr>vd_mpc_image_hash = mpc_image_hash,
                 vd_launcher_compose_hash = launcher_compose_hash,
                 vd_expiry_timestamp_seconds = expiry\<rparr>))))
      | AttMock mock \<Rightarrow>
          (case verify_mock_attestation mock allowed_mpc allowed_launcher now of
             Inl e \<Rightarrow> Inr (Inl e)
           | Inr _ \<Rightarrow> Inr (Inr (VerMock mock))))"

section \<open>Acceptance\<close>

lemma verify_mpc_hash_Inr [simp]: "verify_mpc_hash h hs = Inr u \<longleftrightarrow> h \<in> set hs"
  by (cases hs) (auto simp: verify_mpc_hash_def)

lemma verify_launcher_compose_hash_Inr [simp]:
  "verify_launcher_compose_hash h hs = Inr u \<longleftrightarrow> h \<in> set hs"
  by (cases hs) (auto simp: verify_launcher_compose_hash_def)

text \<open>A mock attestation passes when each constraint it carries does.\<close>

lemma verify_mock_attestation_Inr:
  "verify_mock_attestation mock mpc launcher t = Inr u \<longleftrightarrow> (case mock of
       MockValid \<Rightarrow> True
     | MockInvalid \<Rightarrow> False
     | MockWithConstraints m l e \<Rightarrow>
         set_option m \<subseteq> set mpc \<and> set_option l \<subseteq> set launcher \<and> (\<forall>x \<in> set_option e. t < x))"
  by (cases mpc; cases launcher)
    (auto simp: verify_mock_attestation_def res_simps split: mock_attestation.split option.split if_splits)

lemma re_verify_dstack_Inr:
  "re_verify (VerDstack d) t mpc launcher = Inr u \<longleftrightarrow>
     t \<le> vd_expiry_timestamp_seconds d \<and> vd_mpc_image_hash d \<in> set mpc \<and>
     vd_launcher_compose_hash d \<in> set launcher"
  by (auto simp: re_verify_def res_simps)

lemma verify_dstack_checks_Inr:
  "verify_dstack_checks th att rd now mpc launcher ms = Inr (m, l) \<longleftrightarrow>
     mpc_image_hash_of th (da_tcb_info att) = Inr m \<and> m \<in> set mpc \<and>
     launcher_compose_hash_of th (da_tcb_info att) = Inr l \<and> l \<in> set launcher \<and>
     dstack_verify th att rd now ms = Inr ()"
  by (auto simp: verify_dstack_checks_def res_simps)

lemma attestation_verify_dstack:
  "attestation_verify th (AttDstack att) rd now mpc launcher ms = Inr (Inr v) \<longleftrightarrow>
     (\<exists>m l. verify_dstack_checks th att rd now mpc launcher ms = Inr (m, l) \<and>
       now + DEFAULT_EXPIRATION_DURATION_SECONDS < 2 ^ 64 \<and>
       v = VerDstack \<lparr>vd_mpc_image_hash = m, vd_launcher_compose_hash = l,
         vd_expiry_timestamp_seconds = now + DEFAULT_EXPIRATION_DURATION_SECONDS\<rparr>)"
  by (auto simp: attestation_verify_def res_simps split: sum.split)

lemma attestation_verify_mock:
  "attestation_verify th (AttMock mock) rd now mpc launcher ms = Inr (Inr v) \<longleftrightarrow>
     verify_mock_attestation mock mpc launcher now = Inr () \<and> v = VerMock mock"
  by (auto simp: attestation_verify_def split: sum.split)

text \<open>
  C14. An attestation that the contract accepts at time \<open>now\<close> passes re-verification at that time with
  the same allowed hashes. A Dstack attestation passes a later re-verification exactly until seven
  days after its submission, the last second included, and only while both its image hash and its
  launcher compose hash are still allowed.
\<close>

theorem accepted_attestation_reverified:
  assumes "attestation_verify th att rd now mpc launcher ms = Inr (Inr v)"
  shows "re_verify v now mpc launcher = Inr () \<and>
    (\<forall>d t mpc' launcher'. v = VerDstack d \<longrightarrow>
      (re_verify v t mpc' launcher' = Inr () \<longleftrightarrow>
        t \<le> now + DEFAULT_EXPIRATION_DURATION_SECONDS \<and>
        vd_mpc_image_hash d \<in> set mpc' \<and> vd_launcher_compose_hash d \<in> set launcher'))"
proof (cases att)
  case (AttDstack d)
  with assms show ?thesis
    by (auto simp: attestation_verify_dstack verify_dstack_checks_Inr re_verify_dstack_Inr)
next
  case (AttMock m)
  with assms show ?thesis
    by (auto simp: attestation_verify_mock re_verify_def)
qed

section \<open>Report data binds the keys\<close>

lemma report_data_v1_to_bytes_eq:
  assumes "\<And>x. length (th_sha3_384 th x) = 48"
  shows "report_data_v1_to_bytes th rd =
    [0, 1] @ th_sha3_384 th (rd_tls_public_key rd @ rd_account_public_key rd) @ replicate 14 0"
  using assms
  by (simp add: report_data_v1_to_bytes_def write_at_def
      report_data_version_to_be_bytes_def compute_public_keys_hash_def Let_def)

text \<open>
  C15. The report data of a node is 64 bytes that start with the big-endian version, from which the hash
  of the two keys is read back; where SHA3-384 does not collide on the keys at hand, two nodes with
  32-byte keys have the same report data only if both keys agree.
\<close>

theorem report_data_binds_keys:
  assumes "\<And>x. length (th_sha3_384 th x) = 48"
    and "length (rd_tls_public_key a) = 32" "length (rd_tls_public_key b) = 32"
    and "inj_on (th_sha3_384 th)
      {rd_tls_public_key a @ rd_account_public_key a, rd_tls_public_key b @ rd_account_public_key b}"
  shows "length (report_data_v1_to_bytes th a) = REPORT_DATA_SIZE \<and>
    report_data_version_from_be_bytes (take BINARY_VERSION_SIZE (report_data_v1_to_bytes th a)) = Some V1 \<and>
    report_data_v1_from_bytes (report_data_v1_to_bytes th a) =
      compute_public_keys_hash th (rd_tls_public_key a) (rd_account_public_key a) \<and>
    (report_data_v1_to_bytes th a = report_data_v1_to_bytes th b \<longleftrightarrow>
      rd_tls_public_key a = rd_tls_public_key b \<and> rd_account_public_key a = rd_account_public_key b)"
proof -
  note eq = report_data_v1_to_bytes_eq [OF assms(1)]
  let ?k = "\<lambda>r. rd_tls_public_key r @ rd_account_public_key r"
  have "report_data_v1_to_bytes th a = report_data_v1_to_bytes th b \<longleftrightarrow> ?k a = ?k b"
    using inj_on_eq_iff [OF assms(4), of "?k a" "?k b"] by (simp add: eq)
  then show ?thesis
    using assms(1-3) by (simp add: eq
        report_data_version_from_be_bytes_def report_data_v1_from_bytes_def
        compute_public_keys_hash_def)
qed

section \<open>The quote determines the attested code\<close>

text \<open>Everything SHA-384 is applied to when the event log of a TCB info is replayed.\<close>

definition measured_inputs :: "tee_libs \<Rightarrow> tcb_info \<Rightarrow> byte list set" where
  "measured_inputs th tcb =
     chain_inputs th (replicate 48 0) (rtmr3_digests tcb) \<union>
     {event_preimage DSTACK_EVENT_TYPE (ev_event e) (the (th_hex_decode th (ev_event_payload e))) | e.
       e \<in> set (rtmr3_events tcb)}"

text \<open>SHA-384 neither collides on the replays of two event logs nor yields the initial register.\<close>

definition sha384_collision_free :: "tee_libs \<Rightarrow> tcb_info \<Rightarrow> tcb_info \<Rightarrow> bool" where
  "sha384_collision_free th t1 t2 \<longleftrightarrow>
     inj_on (th_sha384 th) (measured_inputs th t1 \<union> measured_inputs th t2) \<and>
     replicate 48 0 \<notin> th_sha384 th ` (measured_inputs th t1 \<union> measured_inputs th t2)"

lemma get_single_event_Inr:
  "get_single_event tcb n = Inr e \<longleftrightarrow> filter (\<lambda>x. ev_event x = n) (rtmr3_events tcb) = [e]"
  by (auto simp: get_single_event_def conj_commute split: list.split)

lemma get_single_event_mem:
  "get_single_event tcb n = Inr e \<Longrightarrow> e \<in> set (rtmr3_events tcb) \<and> ev_event e = n"
  unfolding get_single_event_Inr by (drule arg_cong [where f = set]) auto

lemma get_single_event_only:
  assumes "get_single_event tcb n = Inr e" "e' \<in> set (rtmr3_events tcb)" "ev_event e' = n"
  shows "e' = e"
proof -
  have "e' \<in> set (filter (\<lambda>x. ev_event x = n) (rtmr3_events tcb))"
    using assms(2,3) by auto
  then show ?thesis
    using assms(1) unfolding get_single_event_Inr by (simp only: list.set singleton_iff)
qed

lemma same_register_same_digests:
  assumes "\<And>x. length (th_sha384 th x) = 48" "sha384_collision_free th t1 t2"
    and "verify_rtmr3 th r1 t1 = Inr ()" "verify_rtmr3 th r2 t2 = Inr ()" "td_rt_mr3 r1 = td_rt_mr3 r2"
  shows "rtmr3_digests t1 = rtmr3_digests t2"
proof (rule rtmr3_chain_inject [OF assms(1), where d = "replicate 48 0"])
  show "inj_on (th_sha384 th) (chain_inputs th (replicate 48 0) (rtmr3_digests t1) \<union>
      chain_inputs th (replicate 48 0) (rtmr3_digests t2))"
    using assms(2) unfolding sha384_collision_free_def measured_inputs_def by (blast intro: inj_on_subset)
  show "replicate 48 0 \<notin> th_sha384 th ` (chain_inputs th (replicate 48 0) (rtmr3_digests t1) \<union>
      chain_inputs th (replicate 48 0) (rtmr3_digests t2))"
    using assms(2) unfolding sha384_collision_free_def measured_inputs_def by blast
qed (use assms(3-5) in \<open>auto simp: verify_rtmr3_Inr\<close>)

lemma same_register_same_event:
  assumes len: "\<And>x. length (th_sha384 th x) = 48" and cf: "sha384_collision_free th t1 t2"
    and v: "verify_rtmr3 th r1 t1 = Inr ()" "verify_rtmr3 th r2 t2 = Inr ()" "td_rt_mr3 r1 = td_rt_mr3 r2"
    and colons: "CHR '':'' \<notin> set n" "\<And>e. e \<in> set (rtmr3_events t2) \<Longrightarrow> CHR '':'' \<notin> set (ev_event e)"
    and e1: "get_single_event t1 n = Inr e1" and e2: "get_single_event t2 n = Inr e2"
  shows "th_hex_decode th (ev_event_payload e1) = th_hex_decode th (ev_event_payload e2)"
proof -
  have "ev_digest e1 \<in> set (rtmr3_digests t1)"
    using get_single_event_mem [OF e1] by simp
  then obtain e where e: "e \<in> set (rtmr3_events t2)" "ev_digest e = ev_digest e1"
    unfolding same_register_same_digests [OF len cf v] by (auto simp del: set_filter)
  obtain p1 where p1: "measured_event th e1 p1"
    using v(1) get_single_event_mem [OF e1] unfolding verify_rtmr3_Inr by blast
  obtain p where p: "measured_event th e p"
    using v(2) e(1) unfolding verify_rtmr3_Inr by blast
  let ?x = "event_preimage DSTACK_EVENT_TYPE (ev_event e1) p1"
  let ?y = "event_preimage DSTACK_EVENT_TYPE (ev_event e) p"
  have mem: "?x \<in> measured_inputs th t1" "?y \<in> measured_inputs th t2"
    using p1 p e(1) get_single_event_mem [OF e1] unfolding measured_inputs_def measured_event_def
    by force+
  have "th_sha384 th ?x = th_sha384 th ?y"
    using p1 p e(2) by (simp add: measured_event_def event_digest_def)
  then have "?x = ?y"
    using cf mem unfolding sha384_collision_free_def by (meson UnI1 UnI2 inj_onD)
  then have "ev_event e = n" "p = p1"
    using event_preimage_inject [of "ev_event e1" "ev_event e"] colons(2) [OF e(1)] colons(1)
      get_single_event_mem [OF e1] by auto
  with get_single_event_only [OF e2 e(1)] p p1 show ?thesis by (simp add: measured_event_def)
qed

lemma dstack_verify_Inr:
  assumes "dstack_verify th att rd now ms = Inr ()"
  obtains result report where "th_dcap_verify th (da_quote att) (da_collateral att) now = Some result"
    "vr_td10 result = Some report" "td_report_data report = rd"
    "verify_rtmr3 th report (da_tcb_info att) = Inr ()" "verify_app_compose th (da_tcb_info att) = Inr ()"
    "verify_any_measurements report (da_tcb_info att) ms = Inr ()"
  using assms by (auto simp: dstack_verify_def verify_report_data_def compare_hashes_def res_simps)

lemma verify_app_compose_Inr:
  assumes "verify_app_compose th tcb = Inr ()"
  obtains event where "get_single_event tcb COMPOSE_HASH_EVENT = Inr event"
    "th_hex_decode th (ev_event_payload event) = Some (th_sha256 th (as_bytes (tcb_app_compose tcb)))"
  using assms by (auto simp: verify_app_compose_def validate_app_compose_payload_def compare_hashes_def
      res_simps split: option.splits if_splits)

text \<open>The register RTMR3 that the quote of an attestation certifies.\<close>

definition quoted_rtmr3 :: "tee_libs \<Rightarrow> dstack_attestation \<Rightarrow> nat \<Rightarrow> byte list option" where
  "quoted_rtmr3 th att now =
     (case th_dcap_verify th (da_quote att) (da_collateral att) now of
        None \<Rightarrow> None | Some result \<Rightarrow> map_option td_rt_mr3 (vr_td10 result))"

lemma single_events_agree:
  assumes len: "\<And>x. length (th_sha384 th x) = 48" and cf: "sha384_collision_free th t1 t2"
    and v: "verify_rtmr3 th r1 t1 = Inr ()" "verify_rtmr3 th r2 t2 = Inr ()" "td_rt_mr3 r1 = td_rt_mr3 r2"
    and colons: "list_all (\<lambda>e. CHR '':'' \<notin> set (ev_event e)) (tcb_event_log t2)"
  shows "mpc_image_hash_of th t1 = Inr m1 \<Longrightarrow> mpc_image_hash_of th t2 = Inr m2 \<Longrightarrow> m1 = m2"
    and "verify_app_compose th t1 = Inr () \<Longrightarrow> verify_app_compose th t2 = Inr () \<Longrightarrow>
      th_sha256 th (as_bytes (tcb_app_compose t1)) = th_sha256 th (as_bytes (tcb_app_compose t2))"
proof -
  note agree = same_register_same_event [OF len cf v]
  have no_colon: "CHR '':'' \<notin> set (ev_event e)" if "e \<in> set (rtmr3_events t2)" for e
    using colons that by (simp add: list_all_iff)
  show "m1 = m2" if "mpc_image_hash_of th t1 = Inr m1" "mpc_image_hash_of th t2 = Inr m2"
    using that agree [OF _ no_colon, of MPC_IMAGE_HASH_EVENT]
    by (fastforce simp: mpc_image_hash_of_def res_simps split: if_splits)
  show "th_sha256 th (as_bytes (tcb_app_compose t1)) = th_sha256 th (as_bytes (tcb_app_compose t2))"
    if *: "verify_app_compose th t1 = Inr ()" "verify_app_compose th t2 = Inr ()"
  proof -
    obtain e1 where e1: "get_single_event t1 COMPOSE_HASH_EVENT = Inr e1"
      "th_hex_decode th (ev_event_payload e1) = Some (th_sha256 th (as_bytes (tcb_app_compose t1)))"
      using *(1) by (rule verify_app_compose_Inr)
    obtain e2 where e2: "get_single_event t2 COMPOSE_HASH_EVENT = Inr e2"
      "th_hex_decode th (ev_event_payload e2) = Some (th_sha256 th (as_bytes (tcb_app_compose t2)))"
      using *(2) by (rule verify_app_compose_Inr)
    have "CHR '':'' \<notin> set COMPOSE_HASH_EVENT" by simp
    from agree [OF this no_colon e1(1) e2(1)] show ?thesis by (simp add: e1(2) e2(2))
  qed
qed

text \<open>
  C16. The quote decides which code an accepted attestation stands for. Take two Dstack attestations
  that the contract accepts, whenever and with whatever allowed hashes, and whose quotes certify the
  same RTMR3; where SHA-384 does not collide on the two replays nor SHA-256 on the two app compose
  texts, and the event names of one log contain no colon, both stand for the same MPC image hash and
  the same launcher compose hash. An untrusted event log or app compose file cannot change them.
\<close>

theorem quote_determines_attested_code:
  assumes len: "\<And>x. length (th_sha384 th x) = 48"
    and a1: "attestation_verify th (AttDstack a1) rd1 now1 mpc1 launcher1 ms1 = Inr (Inr (VerDstack d1))"
    and a2: "attestation_verify th (AttDstack a2) rd2 now2 mpc2 launcher2 ms2 = Inr (Inr (VerDstack d2))"
    and quotes: "quoted_rtmr3 th a1 now1 = quoted_rtmr3 th a2 now2"
    and cf: "sha384_collision_free th (da_tcb_info a1) (da_tcb_info a2)"
    and cf256: "inj_on (th_sha256 th)
      {as_bytes (tcb_app_compose (da_tcb_info a1)), as_bytes (tcb_app_compose (da_tcb_info a2))}"
    and colons: "list_all (\<lambda>e. CHR '':'' \<notin> set (ev_event e)) (tcb_event_log (da_tcb_info a2))"
  shows "vd_mpc_image_hash d1 = vd_mpc_image_hash d2 \<and>
    vd_launcher_compose_hash d1 = vd_launcher_compose_hash d2"
proof -
  let ?t1 = "da_tcb_info a1" and ?t2 = "da_tcb_info a2"
  from a1 have d1: "mpc_image_hash_of th ?t1 = Inr (vd_mpc_image_hash d1)"
    "launcher_compose_hash_of th ?t1 = Inr (vd_launcher_compose_hash d1)"
    and v1: "dstack_verify th a1 rd1 now1 ms1 = Inr ()"
    by (auto simp: attestation_verify_dstack verify_dstack_checks_Inr)
  from a2 have d2: "mpc_image_hash_of th ?t2 = Inr (vd_mpc_image_hash d2)"
    "launcher_compose_hash_of th ?t2 = Inr (vd_launcher_compose_hash d2)"
    and v2: "dstack_verify th a2 rd2 now2 ms2 = Inr ()"
    by (auto simp: attestation_verify_dstack verify_dstack_checks_Inr)
  obtain s1 r1 where r1: "th_dcap_verify th (da_quote a1) (da_collateral a1) now1 = Some s1"
    "vr_td10 s1 = Some r1" "verify_rtmr3 th r1 ?t1 = Inr ()" "verify_app_compose th ?t1 = Inr ()"
    using v1 by (rule dstack_verify_Inr)
  obtain s2 r2 where r2: "th_dcap_verify th (da_quote a2) (da_collateral a2) now2 = Some s2"
    "vr_td10 s2 = Some r2" "verify_rtmr3 th r2 ?t2 = Inr ()" "verify_app_compose th ?t2 = Inr ()"
    using v2 by (rule dstack_verify_Inr)
  have "td_rt_mr3 r1 = td_rt_mr3 r2"
    using quotes r1(1,2) r2(1,2) by (simp add: quoted_rtmr3_def)
  note agree = single_events_agree [OF len cf r1(3) r2(3) this colons]
  have "as_bytes (tcb_app_compose ?t1) = as_bytes (tcb_app_compose ?t2)"
    using agree(2) [OF r1(4) r2(4)] cf256 by (auto dest: inj_onD)
  then have "tcb_app_compose ?t1 = tcb_app_compose ?t2" by (simp add: inj_as_bytes)
  with d1(2) d2(2) have "vd_launcher_compose_hash d1 = vd_launcher_compose_hash d2"
    by (auto simp: launcher_compose_hash_of_def res_simps)
  with agree(1) [OF d1(1) d2(1)] show ?thesis by simp
qed

section \<open>An instance\<close>

text \<open>Small third-party functions and an attestation they accept, to evaluate definitions on.\<close>

definition toy_sha384 :: "byte list \<Rightarrow> byte list" where
  "toy_sha384 bs = take 48 ((if length bs = 96 then 2 else 1) # rev bs @ replicate 48 0)"

definition toy_sha256 :: "byte list \<Rightarrow> byte list" where
  "toy_sha256 bs = take 32 (bs @ replicate 32 0)"

definition toy_measurements :: expected_measurements where
  "toy_measurements = \<lparr>em_rtmrs = \<lparr>me_mrtd = [], me_rtmr0 = [], me_rtmr1 = [], me_rtmr2 = []\<rparr>,
     em_key_provider_event_digest = toy_sha384 (event_preimage DSTACK_EVENT_TYPE ''key-provider'' [])\<rparr>"

definition toy_app_compose :: app_compose where
  "toy_app_compose = \<lparr>ac_manifest_version = 2, ac_name = ''mpc'', ac_runner = ''docker-compose'',
     ac_docker_compose_file = ''services'', ac_kms_enabled = False, ac_tproxy_enabled = None,
     ac_gateway_enabled = Some False, ac_public_logs = True, ac_public_sysinfo = True,
     ac_local_key_provider_enabled = True, ac_key_provider_id = None, ac_allowed_envs = [],
     ac_no_instance_id = True, ac_secure_time = None, ac_pre_launch_script = None\<rparr>"

definition toy_hex_decode :: "string \<Rightarrow> byte list" where
  "toy_hex_decode s = (if s = ''c'' then toy_sha256 (as_bytes ''compose'')
     else if s = ''m'' then replicate 32 7 else [])"

definition toy_event :: "string \<Rightarrow> string \<Rightarrow> event_log" where
  "toy_event name payload = \<lparr>ev_imr = 3, ev_event_type = DSTACK_EVENT_TYPE,
     ev_digest = toy_sha384 (event_preimage DSTACK_EVENT_TYPE name (toy_hex_decode payload)),
     ev_event = name, ev_event_payload = payload\<rparr>"

definition toy_events :: "event_log list" where
  "toy_events = [toy_event ''compose-hash'' ''c'', toy_event ''mpc-image-digest'' ''m'',
     toy_event ''key-provider'' []]"

definition toy_rtmr3 :: "byte list" where
  "toy_rtmr3 = foldl (\<lambda>acc x. toy_sha384 (acc @ x)) (replicate 48 0) (map ev_digest toy_events)"

definition toy_libs :: tee_libs where
  "toy_libs = \<lparr>th_sha256 = toy_sha256, th_sha384 = toy_sha384, th_sha3_384 = toy_sha384,
     th_hex_encode = (\<lambda>bs. ''c''), th_hex_decode = (\<lambda>s. Some (toy_hex_decode s)),
     th_parse_app_compose = (\<lambda>s. Some toy_app_compose),
     th_dcap_verify = (\<lambda>quote collateral t. Some \<lparr>vr_status = ''UpToDate'', vr_advisory_ids = [],
       vr_td10 = Some \<lparr>td_report_data = quote, td_rt_mr0 = [], td_rt_mr1 = [], td_rt_mr2 = [],
         td_rt_mr3 = toy_rtmr3, td_mr_td = []\<rparr>\<rparr>),
     th_default_measurements = [toy_measurements]\<rparr>"

text \<open>An attestation for the report data \<open>rd\<close>, with further events \<open>others\<close> in its log.\<close>

definition toy_dstack :: "byte list \<Rightarrow> event_log list \<Rightarrow> dstack_attestation" where
  "toy_dstack rd others = \<lparr>da_quote = rd,
     da_collateral = \<lparr>qc_tcb_info_issuer_chain = [], qc_tcb_info = [], qc_tcb_info_signature = [],
       qc_qe_identity_issuer_chain = [], qc_qe_identity = [], qc_qe_identity_signature = [],
       qc_pck_crl_issuer_chain = [], qc_root_ca_crl = [], qc_pck_crl = [],
       qc_pck_certificate_chain = None\<rparr>,
     da_tcb_info = \<lparr>tcb_mrtd = [], tcb_rtmr0 = [], tcb_rtmr1 = [], tcb_rtmr2 = [],
       tcb_rtmr3 = toy_rtmr3, tcb_os_image_hash = None,
       tcb_compose_hash = toy_sha256 (as_bytes ''compose''), tcb_device_id = [],
       tcb_app_compose = ''compose'', tcb_event_log = others @ toy_events\<rparr>\<rparr>"

definition toy_validated :: "nat \<Rightarrow> validated_dstack_attestation" where
  "toy_validated now = \<lparr>vd_mpc_image_hash = replicate 32 7,
     vd_launcher_compose_hash = toy_sha256 (as_bytes ''services''),
     vd_expiry_timestamp_seconds = now + DEFAULT_EXPIRATION_DURATION_SECONDS\<rparr>"

lemma toy_event_type_bytes: "u32_le_bytes DSTACK_EVENT_TYPE = [1, 0, 0, 8]"
  by (simp add: u32_le_bytes_def)

lemma length_toy_sha384: "length (toy_sha384 bs) = 48"
  by (simp add: toy_sha384_def)

lemma toy_rtmr3_events:
  "list_all (\<lambda>e. ev_imr e \<noteq> 3) others \<Longrightarrow> rtmr3_events (da_tcb_info (toy_dstack rd others)) = toy_events"
  by (auto simp: toy_dstack_def toy_events_def toy_event_def list_all_iff filter_empty_conv)

lemma toy_measured: "e \<in> set toy_events \<Longrightarrow> measured_event toy_libs e (toy_hex_decode (ev_event_payload e))"
  by (auto simp: toy_events_def toy_event_def measured_event_def toy_libs_def event_digest_def)

lemma toy_single_events:
  assumes "list_all (\<lambda>e. ev_imr e \<noteq> 3) others"
  shows
    "get_single_event (da_tcb_info (toy_dstack rd others)) ''compose-hash'' = Inr (toy_event ''compose-hash'' ''c'')"
    "get_single_event (da_tcb_info (toy_dstack rd others)) ''mpc-image-digest'' = Inr (toy_event ''mpc-image-digest'' ''m'')"
    "get_single_event (da_tcb_info (toy_dstack rd others)) ''key-provider'' = Inr (toy_event ''key-provider'' [])"
  unfolding get_single_event_Inr toy_rtmr3_events [OF assms]
  by (simp_all add: toy_events_def toy_event_def)

lemma toy_verify_rtmr3:
  assumes "list_all (\<lambda>e. ev_imr e \<noteq> 3) others" "td_rt_mr3 r = toy_rtmr3"
  shows "verify_rtmr3 toy_libs r (da_tcb_info (toy_dstack rd others)) = Inr ()"
proof -
  have "tcb_rtmr3 (da_tcb_info (toy_dstack rd others)) = toy_rtmr3"
    by (simp add: toy_dstack_def)
  moreover have "rtmr3_chain toy_libs (replicate 48 0) (map ev_digest toy_events) = toy_rtmr3"
    by (simp add: rtmr3_chain_def toy_rtmr3_def) (simp add: toy_libs_def)
  ultimately show ?thesis
    unfolding verify_rtmr3_Inr toy_rtmr3_events [OF assms(1)] using toy_measured assms(2) by auto
qed

lemma toy_dstack_verify:
  assumes "list_all (\<lambda>e. ev_imr e \<noteq> 3) others"
  shows "dstack_verify toy_libs (toy_dstack rd others) rd now [toy_measurements] = Inr ()"
proof -
  let ?r = "\<lparr>td_report_data = rd, td_rt_mr0 = [], td_rt_mr1 = [], td_rt_mr2 = [],
         td_rt_mr3 = toy_rtmr3, td_mr_td = []\<rparr>"
  have "verify_app_compose toy_libs (da_tcb_info (toy_dstack rd others)) = Inr ()"
    unfolding verify_app_compose_def toy_single_events [OF assms]
    by (simp add: toy_libs_def toy_app_compose_def validate_app_compose_config_def toy_event_def
        toy_dstack_def compare_hex_hashes_def validate_app_compose_payload_def compare_hashes_def
        toy_hex_decode_def toy_sha256_def)
  moreover have "verify_any_measurements ?r (da_tcb_info (toy_dstack rd others)) [toy_measurements] = Inr ()"
    unfolding verify_any_measurements_def verify_key_provider_digest_def
      toy_single_events [OF assms]
    by (simp add: toy_measurements_def verify_static_rtmrs_def toy_dstack_def compare_hashes_def
        toy_event_def toy_hex_decode_def)
  moreover have "da_quote (toy_dstack rd others) = rd" by (simp add: toy_dstack_def)
  ultimately show ?thesis
    using toy_verify_rtmr3 [OF assms, of ?r rd]
    by (simp add: dstack_verify_def) (simp add: toy_libs_def verify_tcb_status_def verify_report_data_def
        compare_hashes_def)
qed

lemma toy_accepted:
  assumes "list_all (\<lambda>e. ev_imr e \<noteq> 3) others" "now + 604800 < 2 ^ 64"
  shows "attestation_verify toy_libs (AttDstack (toy_dstack rd others)) rd now [replicate 32 7]
    [toy_sha256 (as_bytes ''services'')] [toy_measurements] = Inr (Inr (VerDstack (toy_validated now)))"
proof -
  have "mpc_image_hash_of toy_libs (da_tcb_info (toy_dstack rd others)) = Inr (replicate 32 7)"
    unfolding mpc_image_hash_of_def toy_single_events [OF assms(1)]
    by (simp add: toy_event_def toy_libs_def toy_hex_decode_def)
  moreover have "launcher_compose_hash_of toy_libs (da_tcb_info (toy_dstack rd others)) =
      Inr (toy_sha256 (as_bytes ''services''))"
    by (simp add: launcher_compose_hash_of_def toy_libs_def toy_app_compose_def)
  ultimately show ?thesis
    unfolding attestation_verify_dstack verify_dstack_checks_Inr
    using toy_dstack_verify [OF assms(1)] assms(2)
    by (simp add: toy_validated_def)
qed

lemma toy_collision_free:
  assumes "list_all (\<lambda>e. ev_imr e \<noteq> 3) o1" "list_all (\<lambda>e. ev_imr e \<noteq> 3) o2"
  shows "sha384_collision_free toy_libs (da_tcb_info (toy_dstack rd1 o1)) (da_tcb_info (toy_dstack rd2 o2))"
  unfolding sha384_collision_free_def measured_inputs_def toy_rtmr3_events [OF assms(1)]
    toy_rtmr3_events [OF assms(2)] setcompr_eq_image Collect_mem_eq Un_absorb
  by (simp add: toy_events_def toy_event_def toy_libs_def toy_sha384_def toy_sha256_def toy_hex_decode_def
      event_preimage_def as_bytes_def toy_event_type_bytes) (simp add: numeral_eq_Suc)

theorem quote_determines_attested_code_witness:
  "vd_mpc_image_hash (toy_validated 0) = vd_mpc_image_hash (toy_validated 100) \<and>
   vd_launcher_compose_hash (toy_validated 0) = vd_launcher_compose_hash (toy_validated 100)"
proof (rule quote_determines_attested_code)
  let ?o = "[(toy_event ''boot'' [])\<lparr>ev_imr := 0\<rparr>]"
  show "length (th_sha384 toy_libs x) = 48" for x
    by (simp add: toy_libs_def length_toy_sha384)
  show "attestation_verify toy_libs (AttDstack (toy_dstack [1] ?o)) [1] 0 [replicate 32 7]
      [toy_sha256 (as_bytes ''services'')] [toy_measurements] = Inr (Inr (VerDstack (toy_validated 0)))"
    by (rule toy_accepted) simp_all
  show "attestation_verify toy_libs (AttDstack (toy_dstack [2] [])) [2] 100 [replicate 32 7]
      [toy_sha256 (as_bytes ''services'')] [toy_measurements] = Inr (Inr (VerDstack (toy_validated 100)))"
    by (rule toy_accepted) simp_all
  show "quoted_rtmr3 toy_libs (toy_dstack [1] ?o) 0 = quoted_rtmr3 toy_libs (toy_dstack [2] []) 100"
    by (simp add: quoted_rtmr3_def toy_libs_def)
  show "sha384_collision_free toy_libs (da_tcb_info (toy_dstack [1] ?o)) (da_tcb_info (toy_dstack [2] []))"
    by (rule toy_collision_free) simp_all
  show "inj_on (th_sha256 toy_libs) {as_bytes (tcb_app_compose (da_tcb_info (toy_dstack [1] ?o))),
      as_bytes (tcb_app_compose (da_tcb_info (toy_dstack [2] [])))}"
    by (simp add: toy_dstack_def)
  show "list_all (\<lambda>e. CHR '':'' \<notin> set (ev_event e)) (tcb_event_log (da_tcb_info (toy_dstack [2] [])))"
    by (simp add: toy_dstack_def toy_events_def toy_event_def)
qed

theorem accepted_attestation_reverified_witness:
  "re_verify (VerDstack (toy_validated 0)) 604800 [replicate 32 7] [toy_sha256 (as_bytes ''services'')] = Inr ()"
  using accepted_attestation_reverified [OF toy_accepted [of "[]" 0 "[1]"]]
  by (simp add: toy_validated_def)

theorem report_data_binds_keys_witness:
  "report_data_v1_to_bytes toy_libs \<lparr>rd_tls_public_key = replicate 32 1, rd_account_public_key = replicate 32 2\<rparr> \<noteq>
   report_data_v1_to_bytes toy_libs \<lparr>rd_tls_public_key = replicate 32 1, rd_account_public_key = replicate 32 3\<rparr>"
  using report_data_binds_keys [of toy_libs
      "\<lparr>rd_tls_public_key = replicate 32 1, rd_account_public_key = replicate 32 2\<rparr>"
      "\<lparr>rd_tls_public_key = replicate 32 1, rd_account_public_key = replicate 32 3\<rparr>"]
  by (simp add: toy_libs_def length_toy_sha384) (simp add: toy_sha384_def)

end
