(* ===== verification/TeeProposal.thy ===== *)
theory TeeProposal
  imports Attestations Votes
begin

text \<open>
  The TEE allowlists: \<^verbatim>\<open>crates/contract/src/tee/proposal.rs\<close> with the timestamps of
  \<^verbatim>\<open>crates/contract/src/primitives/time.rs\<close>. Votes for image hashes and launcher hashes are two more
  instances of the ledger interface; the list of image hashes is kept in the order of addition and an
  entry expires once a later entry's grace period is over; a launcher image carries the hashes of the
  Docker compose files it may run with.
\<close>

section \<open>Time\<close>

text \<open>
  A \<^verbatim>\<open>std::time::Duration\<close> is its number of nanoseconds; its seconds are a \<^verbatim>\<open>u64\<close>. A timestamp is
  the duration since the Unix epoch. It is stored as its whole seconds, eight bytes big-endian.
\<close>

type_synonym duration = nat
type_synonym timestamp = nat

definition duration_from_secs :: "nat \<Rightarrow> duration" where
  "duration_from_secs s = s * 10 ^ 9"

definition duration_as_secs :: "duration \<Rightarrow> nat" where
  "duration_as_secs d = d div 10 ^ 9"

definition duration_checked_add :: "duration \<Rightarrow> duration \<Rightarrow> duration option" where
  "duration_checked_add a b = (if duration_as_secs (a + b) < 2 ^ 64 then Some (a + b) else None)"

definition timestamp_now :: "env \<Rightarrow> timestamp" where
  "timestamp_now env = env_block_timestamp env"

definition timestamp_checked_add :: "timestamp \<Rightarrow> duration \<Rightarrow> timestamp option" where
  "timestamp_checked_add t d = duration_checked_add t d"

definition u64_to_be_bytes :: "nat \<Rightarrow> byte list" where
  "u64_to_be_bytes n = map (\<lambda>i. of_nat (n div 256 ^ i)) [7, 6, 5, 4, 3, 2, 1, 0]"

definition u64_from_be_bytes :: "byte list \<Rightarrow> nat" where
  "u64_from_be_bytes bs = foldl (\<lambda>acc b. acc * 256 + unat b) 0 bs"

definition timestamp_serialize :: "timestamp \<Rightarrow> byte list" where
  "timestamp_serialize t = u64_to_be_bytes (duration_as_secs t)"

text \<open>\<open>None\<close> is the error of \<^verbatim>\<open>read_exact\<close> on a short input; the rest of the input is returned.\<close>

definition timestamp_deserialize :: "byte list \<Rightarrow> (timestamp \<times> byte list) option" where
  "timestamp_deserialize bs =
     (if length bs < 8 then None
      else Some (duration_from_secs (u64_from_be_bytes (take 8 bs)), drop 8 bs))"

section \<open>Votes\<close>

record code_hashes_votes =
  chv_proposal_by_account :: "(nat, mpc_docker_image_hash) amap"

definition code_hashes_vote ::
  "nat \<Rightarrow> mpc_docker_image_hash \<Rightarrow> code_hashes_votes \<Rightarrow> code_hashes_votes \<times> nat" where
  "code_hashes_vote participant proposal votes =
     (let m = am_insert participant proposal (chv_proposal_by_account votes)
      in (votes\<lparr>chv_proposal_by_account := m\<rparr>, count_value proposal m))"

definition code_hashes_clear_votes :: "code_hashes_votes \<Rightarrow> code_hashes_votes" where
  "code_hashes_clear_votes votes = votes\<lparr>chv_proposal_by_account := []\<rparr>"

datatype launcher_vote_action = AddLauncher launcher_image_hash | RemoveLauncher launcher_image_hash

record launcher_hash_votes =
  lhv_vote_by_account :: "(nat, launcher_vote_action) amap"

definition launcher_hash_vote ::
  "nat \<Rightarrow> launcher_vote_action \<Rightarrow> launcher_hash_votes \<Rightarrow> launcher_hash_votes \<times> nat" where
  "launcher_hash_vote participant action votes =
     (let m = am_insert participant action (lhv_vote_by_account votes)
      in (votes\<lparr>lhv_vote_by_account := m\<rparr>, count_value action m))"

definition launcher_hash_clear_votes :: "launcher_hash_votes \<Rightarrow> launcher_hash_votes" where
  "launcher_hash_clear_votes votes = votes\<lparr>lhv_vote_by_account := []\<rparr>"

section \<open>Allowed MPC images\<close>

record allowed_mpc_docker_image =
  ai_image_hash :: mpc_docker_image_hash
  ai_added :: timestamp

record allowed_docker_image_hashes =
  adh_allowed_tee_proposals :: "allowed_mpc_docker_image list"

text \<open>The condition under which an entry makes the older ones invalid.\<close>

definition grace_period_over :: "timestamp \<Rightarrow> duration \<Rightarrow> allowed_mpc_docker_image \<Rightarrow> bool" where
  "grace_period_over current_time tee_upgrade_deadline_duration entry =
     (case timestamp_checked_add (ai_added entry) tee_upgrade_deadline_duration of
        None \<Rightarrow> True
      | Some grace_period_deadline \<Rightarrow> grace_period_deadline < current_time)"

definition valid_entries ::
  "env \<Rightarrow> allowed_docker_image_hashes \<Rightarrow> duration \<Rightarrow> allowed_mpc_docker_image list" where
  "valid_entries env self dur =
     (let cutoff_index = (case rposition (grace_period_over (timestamp_now env) dur)
            (adh_allowed_tee_proposals self) of None \<Rightarrow> 0 | Some i \<Rightarrow> i)
      in drop cutoff_index (adh_allowed_tee_proposals self))"

definition cleanup_expired_hashes ::
  "env \<Rightarrow> allowed_docker_image_hashes \<Rightarrow> duration \<Rightarrow> allowed_docker_image_hashes" where
  "cleanup_expired_hashes env self dur = self\<lparr>adh_allowed_tee_proposals := valid_entries env self dur\<rparr>"

text \<open>\<^verbatim>\<open>position\<close> followed by \<^verbatim>\<open>remove\<close>, and \<^verbatim>\<open>Vec::insert\<close>.\<close>

fun remove_first :: "('a \<Rightarrow> bool) \<Rightarrow> 'a list \<Rightarrow> 'a list" where
  "remove_first P [] = []"
| "remove_first P (x # xs) = (if P x then xs else x # remove_first P xs)"

definition vec_insert :: "nat \<Rightarrow> 'a \<Rightarrow> 'a list \<Rightarrow> 'a list" where
  "vec_insert i x xs = take i xs @ x # drop i xs"

definition allowed_docker_image_hashes_insert ::
  "env \<Rightarrow> allowed_docker_image_hashes \<Rightarrow> mpc_docker_image_hash \<Rightarrow> duration \<Rightarrow>
     allowed_docker_image_hashes" where
  "allowed_docker_image_hashes_insert env self code_hash dur =
     (let self = cleanup_expired_hashes env self dur;
          entries = remove_first (\<lambda>e. ai_image_hash e = code_hash) (adh_allowed_tee_proposals self);
          new_entry = \<lparr>ai_image_hash = code_hash, ai_added = timestamp_now env\<rparr>;
          insert_index = (case rposition (\<lambda>e. ai_added new_entry < ai_added e) entries of
            Some i \<Rightarrow> i | None \<Rightarrow> length entries)
      in self\<lparr>adh_allowed_tee_proposals := vec_insert insert_index new_entry entries\<rparr>)"

definition get_image_hashes ::
  "env \<Rightarrow> allowed_docker_image_hashes \<Rightarrow> duration \<Rightarrow> mpc_docker_image_hash list" where
  "get_image_hashes env self dur = map ai_image_hash (valid_entries env self dur)"

section \<open>Allowed launcher images\<close>

text \<open>
  The template of the launcher's Docker compose file
  (\<^verbatim>\<open>crates/contract/assets/launcher_docker_compose.yaml.template\<close>), line by line.
\<close>

definition LAUNCHER_DOCKER_COMPOSE_YAML_TEMPLATE :: string where
  "LAUNCHER_DOCKER_COMPOSE_YAML_TEMPLATE = concat (map (\<lambda>line. line @ [CHR 0x0A])
     [''version: '' @ [CHR 0x27] @ ''3.8'' @ [CHR 0x27],
      '''',
      ''services:'',
      ''  launcher:'',
      ''    image: nearone/mpc-launcher@sha256:{{LAUNCHER_IMAGE_HASH}}'',
      '''',
      ''    container_name: launcher'',
      '''',
      ''    environment:'',
      ''      - PLATFORM=TEE'',
      ''      - DOCKER_CONTENT_TRUST=1'',
      ''      - DEFAULT_IMAGE_DIGEST=sha256:{{DEFAULT_IMAGE_DIGEST_HASH}}'',
      '''',
      ''    volumes:'',
      ''      - /var/run/docker.sock:/var/run/docker.sock'',
      ''      - /var/run/dstack.sock:/var/run/dstack.sock'',
      ''      - /tapp:/tapp:ro'',
      ''      - shared-volume:/mnt/shared:ro'',
      '''',
      ''    security_opt:'',
      ''      - no-new-privileges:true'',
      '''',
      ''    read_only: true'',
      '''',
      ''    tmpfs:'',
      ''      - /tmp'',
      '''',
      ''volumes:'',
      ''  shared-volume:'',
      ''    name: shared-volume''])"

text \<open>\<^verbatim>\<open>str::replace\<close> with a non-empty pattern: the matches are found left to right.\<close>

function str_replace :: "string \<Rightarrow> string \<Rightarrow> string \<Rightarrow> string" where
  "str_replace pat to [] = []"
| "str_replace pat to (c # cs) =
     (if take (length pat) (c # cs) = pat then to @ str_replace pat to (drop (length pat - 1) cs)
      else c # str_replace pat to cs)"
  by pat_completeness auto

termination
  by (relation "measure (\<lambda>(pat, to, s). length s)") auto

definition filled_yaml :: "tee_libs \<Rightarrow> launcher_image_hash \<Rightarrow> mpc_docker_image_hash \<Rightarrow> string" where
  "filled_yaml th launcher mpc =
     str_replace ''{{DEFAULT_IMAGE_DIGEST_HASH}}'' (th_hex_encode th mpc)
       (str_replace ''{{LAUNCHER_IMAGE_HASH}}'' (th_hex_encode th launcher)
         LAUNCHER_DOCKER_COMPOSE_YAML_TEMPLATE)"

definition get_docker_compose_hash ::
  "tee_libs \<Rightarrow> launcher_image_hash \<Rightarrow> mpc_docker_image_hash \<Rightarrow> launcher_docker_compose_hash res" where
  "get_docker_compose_hash th launcher mpc =
     (let hash = th_sha256 th (as_bytes (filled_yaml th launcher mpc))
      in if length hash = 32 then Inr hash else Inl (Panic AssertFailed))"

record allowed_launcher_image =
  al_launcher_hash :: launcher_image_hash
  al_compose_hashes :: "launcher_docker_compose_hash list"

record allowed_launcher_images =
  ali_entries :: "allowed_launcher_image list"

text \<open>\<^verbatim>\<open>iter().map(f).collect()\<close> with an \<open>f\<close> that may panic.\<close>

fun map_res :: "('a \<Rightarrow> 'e + 'b) \<Rightarrow> 'a list \<Rightarrow> 'e + 'b list" where
  "map_res f [] = Inr []"
| "map_res f (x # xs) = bind_res (f x) (\<lambda>y. bind_res (map_res f xs) (\<lambda>ys. Inr (y # ys)))"

definition allowed_launcher_images_add ::
  "tee_libs \<Rightarrow> allowed_launcher_images \<Rightarrow> launcher_image_hash \<Rightarrow> mpc_docker_image_hash list \<Rightarrow>
     (allowed_launcher_images \<times> bool) res" where
  "allowed_launcher_images_add th self launcher_hash current_mpc_image_hashes =
     (if list_ex (\<lambda>e. al_launcher_hash e = launcher_hash) (ali_entries self) then Inr (self, False)
      else bind_res (map_res (get_docker_compose_hash th launcher_hash) current_mpc_image_hashes) (\<lambda>hashes.
        Inr (self\<lparr>ali_entries := ali_entries self @
          [\<lparr>al_launcher_hash = launcher_hash, al_compose_hashes = hashes\<rparr>]\<rparr>, True)))"

definition allowed_launcher_images_remove ::
  "allowed_launcher_images \<Rightarrow> launcher_image_hash \<Rightarrow> allowed_launcher_images \<times> bool" where
  "allowed_launcher_images_remove self launcher_hash =
     (let would_remain = length (filter (\<lambda>e. al_launcher_hash e \<noteq> launcher_hash) (ali_entries self)) in
      if would_remain = 0 then (self, False)
      else let len_before = length (ali_entries self);
               entries = filter (\<lambda>e. al_launcher_hash e \<noteq> launcher_hash) (ali_entries self)
           in (self\<lparr>ali_entries := entries\<rparr>, length entries < len_before))"

definition add_mpc_image_compose_hashes ::
  "tee_libs \<Rightarrow> allowed_launcher_images \<Rightarrow> mpc_docker_image_hash \<Rightarrow> allowed_launcher_images res" where
  "add_mpc_image_compose_hashes th self mpc_image_hash =
     bind_res (map_res (\<lambda>entry.
       bind_res (get_docker_compose_hash th (al_launcher_hash entry) mpc_image_hash) (\<lambda>compose_hash.
       Inr (if List.member (al_compose_hashes entry) compose_hash then entry
            else entry\<lparr>al_compose_hashes := al_compose_hashes entry @ [compose_hash]\<rparr>)))
       (ali_entries self)) (\<lambda>entries. Inr (self\<lparr>ali_entries := entries\<rparr>))"

definition all_compose_hashes :: "allowed_launcher_images \<Rightarrow> launcher_docker_compose_hash list" where
  "all_compose_hashes self = concat (map al_compose_hashes (ali_entries self))"

definition launcher_hashes :: "allowed_launcher_images \<Rightarrow> launcher_image_hash list" where
  "launcher_hashes self = map al_launcher_hash (ali_entries self)"

section \<open>Timestamps survive storage up to the second\<close>

lemma foldl_be_digits:
  "foldl (\<lambda>acc b. acc * 256 + unat b) a (map (\<lambda>i. of_nat (n div 256 ^ i) :: byte) (rev [0..<k])) =
     a * 256 ^ k + n mod 256 ^ k"
proof (induction k arbitrary: a)
  case (Suc k)
  have digit: "unat (of_nat (n div 256 ^ k) :: byte) = n div 256 ^ k mod 256"
    by (simp add: unat_of_nat)
  have "n mod 256 ^ Suc k = 256 ^ k * (n div 256 ^ k mod 256) + n mod 256 ^ k"
    by (metis mod_mult2_eq power_Suc2)
  then show ?case
    using Suc.IH by (simp add: digit algebra_simps)
qed simp

lemma u64_be_bytes_inverse: "n < 2 ^ 64 \<Longrightarrow> u64_from_be_bytes (u64_to_be_bytes n) = n"
proof -
  assume n: "n < 2 ^ 64"
  have "rev [0..<8] = [7, 6, 5, 4, 3, 2, 1, 0]"
    by (simp add: upt_rec)
  then have "u64_from_be_bytes (u64_to_be_bytes n) = 0 * 256 ^ 8 + n mod 256 ^ 8"
    unfolding u64_from_be_bytes_def u64_to_be_bytes_def by (metis foldl_be_digits)
  with n show ?thesis by simp
qed

lemma timestamp_stored:
  assumes "duration_as_secs t < 2 ^ 64"
  shows "timestamp_deserialize (timestamp_serialize t @ rest) = Some (t - t mod 10 ^ 9, rest)"
proof -
  have "length (u64_to_be_bytes n) = 8" for n by (simp add: u64_to_be_bytes_def)
  moreover have "duration_from_secs (duration_as_secs t) = t - t mod 10 ^ 9"
    by (simp add: duration_from_secs_def duration_as_secs_def minus_mod_eq_div_mult)
  ultimately show ?thesis
    using u64_be_bytes_inverse [OF assms] by (simp add: timestamp_deserialize_def timestamp_serialize_def)
qed

text \<open>
  Storing and loading a timestamp keeps its whole seconds and drops the rest: the loaded value is the
  timestamp rounded down to the second, never later than the original, and the bytes that follow are
  left unread. (The variables of the serializer are named milliseconds; they hold seconds.)
\<close>

lemma timestamp_roundtrip:
  assumes "duration_as_secs t < 2 ^ 64"
  shows "timestamp_deserialize (timestamp_serialize t @ rest) = Some (t - t mod 10 ^ 9, rest)"
  by (rule timestamp_stored [OF assms])

section \<open>The ledgers\<close>

abbreviation wf_chv :: "code_hashes_votes \<Rightarrow> bool" where
  "wf_chv votes \<equiv> wf_amap (chv_proposal_by_account votes)"

abbreviation chv_ballot :: "code_hashes_votes \<Rightarrow> nat \<Rightarrow> mpc_docker_image_hash option" where
  "chv_ballot votes \<equiv> map_of (chv_proposal_by_account votes)"

abbreviation wf_lhv :: "launcher_hash_votes \<Rightarrow> bool" where
  "wf_lhv votes \<equiv> wf_amap (lhv_vote_by_account votes)"

abbreviation lhv_ballot :: "launcher_hash_votes \<Rightarrow> nat \<Rightarrow> launcher_vote_action option" where
  "lhv_ballot votes \<equiv> map_of (lhv_vote_by_account votes)"

interpretation chv: vote_ledger code_hashes_vote chv_ballot wf_chv
proof unfold_locales
  fix l v b
  assume wf: "wf_chv l"
  show "wf_chv (fst (code_hashes_vote v b l))"
    "chv_ballot (fst (code_hashes_vote v b l)) = (chv_ballot l)(v \<mapsto> b)"
    using wf by (auto simp: code_hashes_vote_def Let_def)
  show "snd (code_hashes_vote v b l) = card {u. ((chv_ballot l)(v \<mapsto> b)) u = Some b}"
    using wf count_value_eq_card [OF wf_am_insert [OF wf, of v b], of b]
    by (simp add: code_hashes_vote_def Let_def)
qed (simp add: finite_dom_map_of)

interpretation lhv: vote_ledger launcher_hash_vote lhv_ballot wf_lhv
proof unfold_locales
  fix l v b
  assume wf: "wf_lhv l"
  show "wf_lhv (fst (launcher_hash_vote v b l))"
    "lhv_ballot (fst (launcher_hash_vote v b l)) = (lhv_ballot l)(v \<mapsto> b)"
    using wf by (auto simp: launcher_hash_vote_def Let_def)
  show "snd (launcher_hash_vote v b l) = card {u. ((lhv_ballot l)(v \<mapsto> b)) u = Some b}"
    using wf count_value_eq_card [OF wf_am_insert [OF wf, of v b], of b]
    by (simp add: launcher_hash_vote_def Let_def)
qed (simp add: finite_dom_map_of)

section \<open>Which images are valid\<close>

lemma valid_entries_drop:
  "\<exists>k. valid_entries env self dur = drop k (adh_allowed_tee_proposals self) \<and>
     (adh_allowed_tee_proposals self \<noteq> [] \<longrightarrow> k < length (adh_allowed_tee_proposals self)) \<and>
     (\<forall>i < length (adh_allowed_tee_proposals self). k \<le> i \<longleftrightarrow>
       (\<forall>j. i < j \<and> j < length (adh_allowed_tee_proposals self) \<longrightarrow>
         \<not> grace_period_over (timestamp_now env) dur (adh_allowed_tee_proposals self ! j)))"
proof (cases "rposition (grace_period_over (timestamp_now env) dur) (adh_allowed_tee_proposals self)")
  case None
  then have "valid_entries env self dur = drop 0 (adh_allowed_tee_proposals self)"
    by (simp add: valid_entries_def)
  with None show ?thesis
    unfolding rposition_None by (intro exI [of _ 0]) auto
next
  case (Some k)
  note k = rposition_Some [OF Some]
  show ?thesis
  proof (intro exI [of _ k] conjI allI impI)
    show "valid_entries env self dur = drop k (adh_allowed_tee_proposals self)"
      by (simp add: valid_entries_def Some)
    fix i assume "i < length (adh_allowed_tee_proposals self)"
    show "k \<le> i \<longleftrightarrow> (\<forall>j. i < j \<and> j < length (adh_allowed_tee_proposals self) \<longrightarrow>
         \<not> grace_period_over (timestamp_now env) dur (adh_allowed_tee_proposals self ! j))"
      using k by (meson le_less_trans not_le)
  qed (use k in simp)
qed

lemma filter_upt_from:
  assumes "\<And>i. i < n \<Longrightarrow> P i \<longleftrightarrow> k \<le> i"
  shows "filter P [0..<n] = [k..<n]"
  using assms by (induction n) (auto simp: not_le)

lemma valid_entries_filter:
  defines "over env dur e \<equiv> grace_period_over (timestamp_now env) dur e"
  shows "valid_entries env self dur =
    map ((!) (adh_allowed_tee_proposals self))
      (filter (\<lambda>i. \<forall>j. i < j \<and> j < length (adh_allowed_tee_proposals self) \<longrightarrow>
         \<not> over env dur (adh_allowed_tee_proposals self ! j))
       [0..<length (adh_allowed_tee_proposals self)])"
proof -
  let ?xs = "adh_allowed_tee_proposals self"
  obtain k where k: "valid_entries env self dur = drop k ?xs"
    "\<And>i. i < length ?xs \<Longrightarrow> (\<forall>j. i < j \<and> j < length ?xs \<longrightarrow> \<not> over env dur (?xs ! j)) \<longleftrightarrow> k \<le> i"
    using valid_entries_drop [of env self dur] unfolding over_def by blast
  have "drop k ?xs = map ((!) ?xs) [k..<length ?xs]"
    by (rule nth_equalityI) simp_all
  with k(1) filter_upt_from [OF k(2)] show ?thesis by simp
qed

lemma grace_period_over_iff:
  "grace_period_over now dur e \<longleftrightarrow>
     ai_added e + dur < now \<or> 2 ^ 64 \<le> duration_as_secs (ai_added e + dur)"
  by (auto simp: grace_period_over_def timestamp_checked_add_def duration_checked_add_def)

lemma duration_as_secs_mono: "a \<le> b \<Longrightarrow> duration_as_secs a \<le> duration_as_secs b"
  by (simp add: duration_as_secs_def div_le_mono)

text \<open>
  C18. An image stays allowed until the grace period of its successor is over. In a list sorted by the
  time of addition, the valid entries are, in order, the newest entry and every entry whose successor's
  deadline (its addition plus the grace duration) is not yet past. Where the deadline of the newest
  entry does not fit 64-bit seconds, which the code takes for an expired grace period, the newest entry
  is the only one.
\<close>

theorem valid_entries_spec:
  assumes xs: "adh_allowed_tee_proposals self = xs" and sorted: "sorted (map ai_added xs)"
  shows "valid_entries env self dur =
    (if xs \<noteq> [] \<and> 2 ^ 64 \<le> duration_as_secs (ai_added (last xs) + dur) then [last xs]
     else map ((!) xs) (filter
       (\<lambda>i. Suc i = length xs \<or> timestamp_now env \<le> ai_added (xs ! Suc i) + dur) [0..<length xs]))"
proof -
  let ?over = "grace_period_over (timestamp_now env) dur"
  let ?P = "\<lambda>i. \<forall>j. i < j \<and> j < length xs \<longrightarrow> \<not> ?over (xs ! j)"
  have mono: "ai_added (xs ! i) \<le> ai_added (xs ! j)" if "i \<le> j" "j < length xs" for i j
    using sorted_nth_mono [OF sorted that(1)] that by simp
  have v: "valid_entries env self dur = map ((!) xs) (filter ?P [0..<length xs])"
    using valid_entries_filter [of env self dur] xs by simp
  show ?thesis
  proof (cases "xs \<noteq> [] \<and> 2 ^ 64 \<le> duration_as_secs (ai_added (last xs) + dur)")
    case True
    then have over: "?over (xs ! (length xs - 1))"
      by (auto simp: grace_period_over_iff last_conv_nth)
    have "?P i \<longleftrightarrow> length xs - 1 \<le> i" if i: "i < length xs" for i
    proof
      assume "?P i"
      then have "i < length xs - 1 \<and> length xs - 1 < length xs \<longrightarrow> False" using over by blast
      with i show "length xs - 1 \<le> i" by auto
    qed (use i in auto)
    moreover obtain n where "length xs = Suc n" using True by (cases "length xs") auto
    ultimately have "filter ?P [0..<length xs] = [length xs - 1]"
      using filter_upt_from [of "length xs" ?P] by simp
    with v have "valid_entries env self dur = [last xs]" using True by (auto simp: last_conv_nth)
    with True show ?thesis by simp
  next
    case False
    have fits: "duration_as_secs (ai_added (xs ! j) + dur) < 2 ^ 64" if j: "j < length xs" for j
    proof -
      have "ai_added (xs ! j) \<le> ai_added (last xs)"
        using mono [of j "length xs - 1"] j by (cases xs rule: rev_cases) (auto simp: last_conv_nth)
      from duration_as_secs_mono [OF add_right_mono [OF this, of dur]] False j show ?thesis by auto
    qed
    have "?P i \<longleftrightarrow> Suc i = length xs \<or> timestamp_now env \<le> ai_added (xs ! Suc i) + dur"
      if i: "i < length xs" for i
    proof -
      have "?P i \<longleftrightarrow> (\<forall>j. i < j \<and> j < length xs \<longrightarrow> timestamp_now env \<le> ai_added (xs ! j) + dur)"
        using fits by (simp add: grace_period_over_iff not_less not_le)
      also have "\<dots> \<longleftrightarrow> Suc i = length xs \<or> timestamp_now env \<le> ai_added (xs ! Suc i) + dur"
      proof
        assume R: "Suc i = length xs \<or> timestamp_now env \<le> ai_added (xs ! Suc i) + dur"
        show "\<forall>j. i < j \<and> j < length xs \<longrightarrow> timestamp_now env \<le> ai_added (xs ! j) + dur"
        proof (intro allI impI)
          fix j assume j: "i < j \<and> j < length xs"
          with R mono [of "Suc i" j] show "timestamp_now env \<le> ai_added (xs ! j) + dur" by auto
        qed
      qed (use i in auto)
      finally show ?thesis .
    qed
    then have "filter ?P [0..<length xs] = filter (\<lambda>i. Suc i = length xs \<or>
        timestamp_now env \<le> ai_added (xs ! Suc i) + dur) [0..<length xs]"
      by (intro filter_cong) auto
    with v False show ?thesis by auto
  qed
qed

theorem valid_entries_spec_witness:
  "let es = [\<lparr>ai_image_hash = [1], ai_added = 0\<rparr>, \<lparr>ai_image_hash = [2], ai_added = 10 ^ 9\<rparr>,
       \<lparr>ai_image_hash = [3], ai_added = 99 * 10 ^ 9\<rparr>]
   in valid_entries (ex_env ''a'' 100) \<lparr>adh_allowed_tee_proposals = es\<rparr> (10 ^ 9) = [es ! 1, es ! 2] \<and>
     valid_entries (ex_env ''a'' 101) \<lparr>adh_allowed_tee_proposals = es\<rparr> (10 ^ 9) = [es ! 2]"
  using valid_entries_spec [of "\<lparr>adh_allowed_tee_proposals =
      [\<lparr>ai_image_hash = [1], ai_added = 0\<rparr>, \<lparr>ai_image_hash = [2], ai_added = 10 ^ 9\<rparr>,
       \<lparr>ai_image_hash = [3], ai_added = 99 * 10 ^ 9\<rparr>]\<rparr>", OF refl, where dur = "10 ^ 9"]
  by (simp add: Let_def duration_as_secs_def timestamp_now_def ex_env_def upt_rec)

lemma valid_entries_suffix: "\<exists>xs. adh_allowed_tee_proposals self = xs @ valid_entries env self dur"
  unfolding valid_entries_def Let_def by (metis append_take_drop_id)

lemma valid_entries_last:
  assumes "adh_allowed_tee_proposals self \<noteq> []"
  shows "valid_entries env self dur \<noteq> [] \<and>
    last (valid_entries env self dur) = last (adh_allowed_tee_proposals self)"
proof -
  obtain k where "valid_entries env self dur = drop k (adh_allowed_tee_proposals self)"
    "k < length (adh_allowed_tee_proposals self)"
    using assms valid_entries_drop [of env self dur] by blast
  then show ?thesis by (simp add: last_drop)
qed

text \<open>Cleaning up does not change what is valid.\<close>

lemma rposition_drop:
  assumes "rposition P xs = Some k"
  shows "rposition P (drop k xs) = Some 0"
  using assms
proof (induction xs arbitrary: k)
  case (Cons x xs)
  then show ?case by (cases k) (auto split: option.splits if_splits)
qed simp

lemma valid_entries_cleanup [simp]:
  "valid_entries env (cleanup_expired_hashes env self dur) dur = valid_entries env self dur"
proof (cases "rposition (grace_period_over (timestamp_now env) dur) (adh_allowed_tee_proposals self)")
  case None
  then show ?thesis by (simp add: valid_entries_def cleanup_expired_hashes_def)
next
  case (Some k)
  with rposition_drop [OF Some] show ?thesis
    by (simp add: valid_entries_def cleanup_expired_hashes_def)
qed

section \<open>Insertion keeps the order\<close>

text \<open>Distinct hashes, in the order of addition, none added after \<open>now\<close>.\<close>

definition wf_images :: "timestamp \<Rightarrow> allowed_docker_image_hashes \<Rightarrow> bool" where
  "wf_images now self \<longleftrightarrow>
     distinct (map ai_image_hash (adh_allowed_tee_proposals self)) \<and>
     sorted (map ai_added (adh_allowed_tee_proposals self)) \<and>
     list_all (\<lambda>e. ai_added e \<le> now) (adh_allowed_tee_proposals self)"

lemma wf_images_mono: "wf_images now self \<Longrightarrow> now \<le> now' \<Longrightarrow> wf_images now' self"
  by (auto simp: wf_images_def list_all_iff)

lemma remove_first_filter:
  "distinct (map f xs) \<Longrightarrow> remove_first (\<lambda>e. f e = h) xs = filter (\<lambda>e. f e \<noteq> h) xs"
proof (induction xs)
  case (Cons x xs)
  then have "f x \<notin> f ` set xs" by simp
  then have "filter (\<lambda>e. f e \<noteq> f x) xs = xs" by (metis (mono_tags, lifting) filter_True image_eqI)
  with Cons show ?case by auto
qed simp

lemma insert_image_eq:
  assumes "wf_images (timestamp_now env) self"
  shows "adh_allowed_tee_proposals (allowed_docker_image_hashes_insert env self h dur) =
    filter (\<lambda>e. ai_image_hash e \<noteq> h) (valid_entries env self dur) @
      [\<lparr>ai_image_hash = h, ai_added = timestamp_now env\<rparr>]"
proof -
  let ?v = "valid_entries env self dur"
  obtain xs where xs: "adh_allowed_tee_proposals self = xs @ ?v"
    using valid_entries_suffix by blast
  have dist: "distinct (map ai_image_hash ?v)"
    using assms by (simp add: wf_images_def xs)
  have "\<forall>e \<in> set (filter (\<lambda>e. ai_image_hash e \<noteq> h) ?v). \<not> timestamp_now env < ai_added e"
    using assms by (auto simp: wf_images_def xs list_all_iff not_less)
  then have "rposition (\<lambda>e. timestamp_now env < ai_added e)
      (filter (\<lambda>e. ai_image_hash e \<noteq> h) ?v) = None"
    by (simp only: rposition_None)
  then show ?thesis
    by (simp add: allowed_docker_image_hashes_insert_def cleanup_expired_hashes_def Let_def
        remove_first_filter [OF dist] vec_insert_def)
qed

lemma insert_image_wf_images:
  assumes "wf_images (timestamp_now env) self"
  shows "wf_images (timestamp_now env) (allowed_docker_image_hashes_insert env self h dur)"
proof -
  obtain xs where xs: "adh_allowed_tee_proposals self = xs @ valid_entries env self dur"
    using valid_entries_suffix by blast
  show ?thesis
    unfolding wf_images_def insert_image_eq [OF assms]
    using assms by (auto simp: wf_images_def xs list_all_iff sorted_append distinct_map_filter
        intro!: sorted_wrt_filter [where P = "\<lambda>e. ai_image_hash e \<noteq> h", unfolded sorted_wrt_map]
        simp: sorted_wrt_map sorted_wrt_append sorted_map_same)
qed

text \<open>
  C19. Voting an image in puts it at the end of the list as the latest entry and keeps the invariant of
  the list: the hashes are distinct and the entries are sorted by the time of their addition. What is
  kept besides the new image are the other entries that were valid before. This relies on block time
  that does not run backwards, since the search for the position looks for the last later entry.
\<close>

theorem insert_image_wf:
  assumes "wf_images (timestamp_now env) self"
  shows "wf_images (timestamp_now env) (allowed_docker_image_hashes_insert env self h dur) \<and>
    adh_allowed_tee_proposals (allowed_docker_image_hashes_insert env self h dur) =
      filter (\<lambda>e. ai_image_hash e \<noteq> h) (valid_entries env self dur) @
        [\<lparr>ai_image_hash = h, ai_added = timestamp_now env\<rparr>] \<and>
    h \<in> set (get_image_hashes env (allowed_docker_image_hashes_insert env self h dur) dur)"
proof -
  let ?s = "allowed_docker_image_hashes_insert env self h dur"
  note eq = insert_image_eq [OF assms]
  have "h \<in> set (get_image_hashes env ?s dur)"
    using valid_entries_last [of ?s env dur] last_in_set [of "valid_entries env ?s dur"]
    by (force simp: eq get_image_hashes_def)
  with insert_image_wf_images [OF assms] eq show ?thesis by simp
qed

definition ex_images :: allowed_docker_image_hashes where
  "ex_images = \<lparr>adh_allowed_tee_proposals =
     [\<lparr>ai_image_hash = [1], ai_added = 0\<rparr>, \<lparr>ai_image_hash = [2], ai_added = 7\<rparr>]\<rparr>"

theorem insert_image_wf_witness:
  "adh_allowed_tee_proposals (allowed_docker_image_hashes_insert (ex_env ''a'' 1) ex_images [2] (10 ^ 12)) =
     [\<lparr>ai_image_hash = [1], ai_added = 0\<rparr>, \<lparr>ai_image_hash = [2], ai_added = 10 ^ 9\<rparr>]"
proof -
  have "wf_images (timestamp_now (ex_env ''a'' 1)) ex_images"
    by (simp add: wf_images_def ex_images_def timestamp_now_def ex_env_def)
  from insert_image_wf [OF this, of "[2]" "10 ^ 12"] show ?thesis
    by (simp add: valid_entries_def ex_images_def grace_period_over_def timestamp_checked_add_def
        duration_checked_add_def duration_as_secs_def timestamp_now_def ex_env_def)
qed

section \<open>Compose hashes identify the images\<close>

lemma str_replace_skip:
  assumes "pat = p # ps" "p \<notin> set xs"
  shows "str_replace pat to (xs @ ys) = xs @ str_replace pat to ys"
  using assms(2) by (induction xs) (auto simp: assms(1))

lemma str_replace_match:
  assumes "pat \<noteq> []"
  shows "str_replace pat to (pat @ ys) = to @ str_replace pat to ys"
  using assms by (cases pat) simp_all

definition yaml_parts :: "string \<times> string \<times> string" where
  "yaml_parts =
     (let t = LAUNCHER_DOCKER_COMPOSE_YAML_TEMPLATE;
          a = takeWhile (\<lambda>c. c \<noteq> CHR ''{'') t;
          t' = drop (length a + length ''{{LAUNCHER_IMAGE_HASH}}'') t;
          b = takeWhile (\<lambda>c. c \<noteq> CHR ''{'') t'
      in (a, b, drop (length b + length ''{{DEFAULT_IMAGE_DIGEST_HASH}}'') t'))"

lemma template_parts:
  "case yaml_parts of (a, b, c) \<Rightarrow>
     LAUNCHER_DOCKER_COMPOSE_YAML_TEMPLATE =
       a @ ''{{LAUNCHER_IMAGE_HASH}}'' @ b @ ''{{DEFAULT_IMAGE_DIGEST_HASH}}'' @ c \<and>
     \<not> List.member a (CHR ''{'') \<and> \<not> List.member b (CHR ''{'') \<and> \<not> List.member c (CHR ''{'')"
  by code_simp

lemma filled_yaml_eq:
  assumes "CHR ''{'' \<notin> set (th_hex_encode th l)"
  shows "case yaml_parts of (a, b, c) \<Rightarrow>
    filled_yaml th l m = a @ th_hex_encode th l @ b @ th_hex_encode th m @ c"
proof -
  obtain a b c where parts: "yaml_parts = (a, b, c)" by (cases yaml_parts)
  let ?L = "''{{LAUNCHER_IMAGE_HASH}}''" and ?M = "''{{DEFAULT_IMAGE_DIGEST_HASH}}''"
  have t: "LAUNCHER_DOCKER_COMPOSE_YAML_TEMPLATE = a @ ?L @ b @ ?M @ c"
    and no: "CHR ''{'' \<notin> set a" "CHR ''{'' \<notin> set b" "CHR ''{'' \<notin> set c"
    using template_parts by (simp_all add: parts)
  have c: "str_replace ?L x c = c" "str_replace ?M x c = c" for x
    using str_replace_skip [of ?L "CHR ''{''" _ c x "[]"] str_replace_skip [of ?M "CHR ''{''" _ c x "[]"] no(3)
    by simp_all
  have "str_replace ?L x (?M @ c) = ?M @ c" for x
    using c by simp
  then have "str_replace ?L x (a @ ?L @ b @ ?M @ c) = a @ x @ b @ ?M @ c" for x
    using no str_replace_skip [of ?L "CHR ''{''"] str_replace_match [of ?L] by (simp del: str_replace.simps)
  moreover have "str_replace ?M x (a @ th_hex_encode th l @ b @ ?M @ c) = a @ th_hex_encode th l @ b @ x @ c" for x
    using no assms c str_replace_skip [of ?M "CHR ''{''"] str_replace_match [of ?M]
    by (simp del: str_replace.simps)
  ultimately show ?thesis by (simp add: parts filled_yaml_def t del: str_replace.simps append_Cons)
qed

lemma filled_yaml_inject:
  assumes hex: "\<forall>x \<in> {l, m, l', m'}. length (th_hex_encode th x) = 64 \<and> CHR ''{'' \<notin> set (th_hex_encode th x)"
    and inj: "inj_on (th_hex_encode th) {l, m, l', m'}"
  shows "filled_yaml th l m = filled_yaml th l' m' \<longleftrightarrow> l = l' \<and> m = m'"
proof -
  obtain a b c where parts: "yaml_parts = (a, b, c)" by (cases yaml_parts)
  have "filled_yaml th l m = filled_yaml th l' m' \<longleftrightarrow>
      th_hex_encode th l = th_hex_encode th l' \<and> th_hex_encode th m = th_hex_encode th m'"
    using filled_yaml_eq [of th l m] filled_yaml_eq [of th l' m'] hex by (simp add: parts)
  also have "\<dots> \<longleftrightarrow> l = l' \<and> m = m'"
    using inj by (auto simp: inj_on_eq_iff)
  finally show ?thesis .
qed

text \<open>
  C20. A compose hash identifies the pair of images it allows. Hex encodings of 32-byte hashes are 64
  characters without braces and differ for different hashes; where SHA-256 does not collide on the two
  filled templates, the compose hashes of two (launcher image, MPC image) pairs are equal only for the
  same launcher image and the same MPC image. No choice of hashes makes one placeholder of the template
  spill into the other.
\<close>

theorem compose_hash_identifies_images:
  assumes "\<forall>x \<in> {l, m, l', m'}. length (th_hex_encode th x) = 64 \<and> CHR ''{'' \<notin> set (th_hex_encode th x)"
    and "inj_on (th_hex_encode th) {l, m, l', m'}"
    and "inj_on (th_sha256 th) {as_bytes (filled_yaml th l m), as_bytes (filled_yaml th l' m')}"
    and "get_docker_compose_hash th l m = Inr h" "get_docker_compose_hash th l' m' = Inr h'"
  shows "h = h' \<longleftrightarrow> l = l' \<and> m = m'"
proof -
  let ?x = "as_bytes (filled_yaml th l m)" and ?y = "as_bytes (filled_yaml th l' m')"
  have "h = th_sha256 th ?x" "h' = th_sha256 th ?y"
    using assms(4,5) by (simp_all add: get_docker_compose_hash_def Let_def split: if_splits)
  with inj_on_eq_iff [OF assms(3), of ?x ?y] have "h = h' \<longleftrightarrow> ?x = ?y" by simp
  then show ?thesis by (simp add: inj_as_bytes filled_yaml_inject [OF assms(1,2)])
qed

definition toy_hex :: "byte list \<Rightarrow> string" where
  "toy_hex bs = concat (map (\<lambda>b. if b = 0 then ''00'' else ''01'') bs)"

definition toy_compose_libs :: tee_libs where
  "toy_compose_libs = toy_libs\<lparr>th_hex_encode := toy_hex, th_sha256 := (\<lambda>bs. replicate 31 0 @
     [if bs = as_bytes (filled_yaml (toy_libs\<lparr>th_hex_encode := toy_hex\<rparr>) (replicate 32 0) (replicate 32 0))
      then 1 else 0])\<rparr>"

lemma filled_yaml_toy: "filled_yaml toy_compose_libs l m = filled_yaml (toy_libs\<lparr>th_hex_encode := toy_hex\<rparr>) l m"
  by (simp add: filled_yaml_def toy_compose_libs_def)

theorem compose_hash_identifies_images_witness:
  "get_docker_compose_hash toy_compose_libs (replicate 32 0) (replicate 32 0) \<noteq>
   get_docker_compose_hash toy_compose_libs (replicate 32 0) (replicate 32 1)"
proof -
  let ?th = toy_compose_libs and ?z = "replicate 32 0" and ?o = "replicate 32 1"
  have hex: "th_hex_encode ?th ?z = concat (replicate 32 ''00'')" "th_hex_encode ?th ?o = concat (replicate 32 ''01'')"
    by (simp_all add: toy_compose_libs_def toy_hex_def numeral_eq_Suc)
  have 1: "\<forall>x \<in> {?z, ?z, ?z, ?o}. length (th_hex_encode ?th x) = 64 \<and> CHR ''{'' \<notin> set (th_hex_encode ?th x)"
    by (simp add: hex) (simp add: numeral_eq_Suc)
  have 2: "inj_on (th_hex_encode ?th) {?z, ?z, ?z, ?o}"
    by (simp add: hex) (simp add: numeral_eq_Suc)
  have 3: "inj_on (th_sha256 ?th) {as_bytes (filled_yaml ?th ?z ?z), as_bytes (filled_yaml ?th ?z ?o)}"
    by (auto simp: filled_yaml_toy) (simp add: toy_compose_libs_def split: if_splits)
  obtain h h' where h: "get_docker_compose_hash ?th ?z ?z = Inr h" "get_docker_compose_hash ?th ?z ?o = Inr h'"
    by (simp add: get_docker_compose_hash_def toy_compose_libs_def)
  from compose_hash_identifies_images [OF 1 2 3 h] show ?thesis by (simp add: h)
qed

section \<open>Launcher images\<close>

abbreviation launcher_set :: "allowed_launcher_images \<Rightarrow> launcher_image_hash set" where
  "launcher_set ali \<equiv> al_launcher_hash ` set (ali_entries ali)"

text \<open>Removal takes out the launcher unless it is unknown or the only one.\<close>

lemma allowed_launcher_images_remove_eq:
  assumes "allowed_launcher_images_remove self h = (self', b)"
  shows "b \<longleftrightarrow> h \<in> launcher_set self \<and> launcher_set self \<noteq> {h}"
    and "launcher_set self' = (if b then launcher_set self - {h} else launcher_set self)"
    and "ali_entries self \<noteq> [] \<Longrightarrow> ali_entries self' \<noteq> []"
    and "set (ali_entries self') \<subseteq> set (ali_entries self)"
proof -
  let ?f = "filter (\<lambda>e. al_launcher_hash e \<noteq> h) (ali_entries self)"
  have none: "?f = [] \<longleftrightarrow> launcher_set self \<subseteq> {h}"
    by (auto simp: filter_empty_conv)
  have shorter: "length ?f < length (ali_entries self) \<longleftrightarrow> h \<in> launcher_set self"
  proof
    assume "length ?f < length (ali_entries self)"
    then have "?f \<noteq> ali_entries self" by auto
    then show "h \<in> launcher_set self" by (auto simp: filter_id_conv)
  qed (auto intro: length_filter_less)
  have img: "al_launcher_hash ` set ?f = launcher_set self - {h}" by auto
  have res: "(self', b) = (if ?f = [] then (self, False)
      else (self\<lparr>ali_entries := ?f\<rparr>, length ?f < length (ali_entries self)))"
    using assms unfolding allowed_launcher_images_remove_def Let_def length_0_conv by (rule sym)
  show b: "b \<longleftrightarrow> h \<in> launcher_set self \<and> launcher_set self \<noteq> {h}"
    using res none shorter by (cases "?f = []") auto
  show "launcher_set self' = (if b then launcher_set self - {h} else launcher_set self)"
  proof (cases "?f = []")
    case False
    with res have self': "self' = self\<lparr>ali_entries := ?f\<rparr>" and "b \<longleftrightarrow> h \<in> launcher_set self"
      using shorter by simp_all
    with img show ?thesis by auto
  qed (use res in simp)
  show "ali_entries self \<noteq> [] \<Longrightarrow> ali_entries self' \<noteq> []" "set (ali_entries self') \<subseteq> set (ali_entries self)"
    using res by (auto split: if_splits)
qed

end
