(* ===== verification/TeeState.thy ===== *)
theory TeeState
  imports TeeProposal KeyState
begin

text \<open>
  The TEE state of the contract: \<^verbatim>\<open>crates/contract/src/tee/tee_state.rs\<close>. It holds the allowlists, the
  votes on them and the attestations, one for each TLS key. Attestations are verified when they are
  submitted and re-verified against the allowlists of the moment.
\<close>

section \<open>Data\<close>

record node_id =
  ni_account_id :: account_id
  ni_tls_public_key :: near_public_key
  ni_account_public_key :: "near_public_key option"

text \<open>\<^verbatim>\<open>PartialEq\<close> of a node id ignores the account key.\<close>

definition node_id_eq :: "node_id \<Rightarrow> node_id \<Rightarrow> bool" where
  "node_id_eq a b \<longleftrightarrow> ni_account_id a = ni_account_id b \<and> ni_tls_public_key a = ni_tls_public_key b"

datatype tee_quote_status = TeeValid | TeeInvalid

datatype attestation_submission_error = InvalidAttestation tee_verification_error | InvalidTlsKey

datatype participant_insertion = NewlyInsertedParticipant | UpdatedExistingParticipant

datatype tee_validation_result = TeeFull | TeePartial participants

datatype attestation_check_error =
  CallerNotParticipant | AttestationNotFound | AttestationOwnerMismatch | AttestationKeyMismatch

record node_attestation =
  na_node_id :: node_id
  na_verified_attestation :: verified_attestation

record tee_state =
  ts_allowed_docker_image_hashes :: allowed_docker_image_hashes
  ts_allowed_launcher_images :: allowed_launcher_images
  ts_votes :: code_hashes_votes
  ts_launcher_votes :: launcher_hash_votes
  ts_stored_attestations :: "(near_public_key, node_attestation) amap"

definition tee_state_default :: tee_state where
  "tee_state_default =
     \<lparr>ts_allowed_docker_image_hashes = \<lparr>adh_allowed_tee_proposals = []\<rparr>,
      ts_allowed_launcher_images = \<lparr>ali_entries = []\<rparr>,
      ts_votes = \<lparr>chv_proposal_by_account = []\<rparr>,
      ts_launcher_votes = \<lparr>lhv_vote_by_account = []\<rparr>,
      ts_stored_attestations = []\<rparr>"

section \<open>Attestations\<close>

definition mocked_attestation :: "participant_entry \<Rightarrow> node_attestation" where
  "mocked_attestation e =
     \<lparr>na_node_id = \<lparr>ni_account_id = entry_account e, ni_tls_public_key = pi_sign_pk (entry_info e),
        ni_account_public_key = None\<rparr>,
      na_verified_attestation = VerMock MockValid\<rparr>"

definition with_mocked_participant_attestations :: "participants \<Rightarrow> tee_state" where
  "with_mocked_participant_attestations ps =
     tee_state_default\<lparr>ts_stored_attestations :=
       foldl (\<lambda>m e. am_insert (pi_sign_pk (entry_info e)) (mocked_attestation e) m) [] (ps_participants ps)\<rparr>"

definition current_time_seconds :: "env \<Rightarrow> nat" where
  "current_time_seconds env = env_block_timestamp env div 10 ^ 6 div 1000"

definition get_allowed_mpc_docker_images ::
  "env \<Rightarrow> tee_state \<Rightarrow> duration \<Rightarrow> allowed_mpc_docker_image list" where
  "get_allowed_mpc_docker_images env ts dur = valid_entries env (ts_allowed_docker_image_hashes ts) dur"

definition get_allowed_mpc_docker_image_hashes ::
  "env \<Rightarrow> tee_state \<Rightarrow> duration \<Rightarrow> mpc_docker_image_hash list" where
  "get_allowed_mpc_docker_image_hashes env ts dur =
     map ai_image_hash (get_allowed_mpc_docker_images env ts dur)"

abbreviation get_allowed_launcher_compose_hashes :: "tee_state \<Rightarrow> launcher_docker_compose_hash list" where
  "get_allowed_launcher_compose_hashes ts \<equiv> all_compose_hashes (ts_allowed_launcher_images ts)"

text \<open>\<^verbatim>\<open>Ed25519PublicKey::try_from(&near_public_key)\<close>.\<close>

definition ed25519_of_near :: "near_public_key \<Rightarrow> (crypto_conversion_error + byte list) res" where
  "ed25519_of_near pk = (case curve_type_of pk of
       ED25519 \<Rightarrow> bind_res (copy_from_slice ED25519_PUBLIC_KEY_SIZE (key_data pk)) (Inr \<circ> Inr)
     | SECP256K1 \<Rightarrow> Inr (Inl UnsupportedCurve))"

text \<open>The key of the account, zeroes where there is none or it is not an Ed25519 key.\<close>

definition account_key_bytes :: "near_public_key option \<Rightarrow> byte list res" where
  "account_key_bytes account_public_key = (case account_public_key of
       None \<Rightarrow> Inr (replicate 32 0)
     | Some pk \<Rightarrow> bind_res (ed25519_of_near pk) (\<lambda>r.
         Inr (case r of Inl _ \<Rightarrow> replicate 32 0 | Inr bytes \<Rightarrow> bytes)))"

definition tee_add_participant ::
  "tee_libs \<Rightarrow> env \<Rightarrow> tee_state \<Rightarrow> node_id \<Rightarrow> attestation \<Rightarrow> duration \<Rightarrow>
     (attestation_submission_error + (tee_state \<times> participant_insertion)) res" where
  "tee_add_participant th env ts node_id attestation dur =
     bind_res (ed25519_of_near (ni_tls_public_key node_id)) (\<lambda>r. case r of
       Inl _ \<Rightarrow> Inr (Inl InvalidTlsKey)
     | Inr tls_public_key \<Rightarrow>
         bind_res (account_key_bytes (ni_account_public_key node_id)) (\<lambda>account_key.
         bind_res (attestation_verify th attestation
           (report_data_v1_to_bytes th \<lparr>rd_tls_public_key = tls_public_key, rd_account_public_key = account_key\<rparr>)
           (current_time_seconds env) (get_allowed_mpc_docker_image_hashes env ts dur)
           (get_allowed_launcher_compose_hashes ts) (th_default_measurements th)) (\<lambda>v. case v of
             Inl e \<Rightarrow> Inr (Inl (InvalidAttestation e))
           | Inr verified_attestation \<Rightarrow>
               let tls_pk = ni_tls_public_key node_id;
                   insertion = map_of (ts_stored_attestations ts) tls_pk
               in Inr (Inr (ts\<lparr>ts_stored_attestations := am_insert tls_pk
                      \<lparr>na_node_id = node_id, na_verified_attestation = verified_attestation\<rparr>
                      (ts_stored_attestations ts)\<rparr>,
                    case insertion of Some _ \<Rightarrow> UpdatedExistingParticipant
                    | None \<Rightarrow> NewlyInsertedParticipant)))))"

definition reverify_participants :: "env \<Rightarrow> tee_state \<Rightarrow> node_id \<Rightarrow> duration \<Rightarrow> tee_quote_status" where
  "reverify_participants env ts node_id dur =
     (case map_of (ts_stored_attestations ts) (ni_tls_public_key node_id) of
        None \<Rightarrow> TeeInvalid
      | Some participant_attestation \<Rightarrow>
          (case re_verify (na_verified_attestation participant_attestation) (current_time_seconds env)
              (get_allowed_mpc_docker_image_hashes env ts dur) (get_allowed_launcher_compose_hashes ts) of
             Inr _ \<Rightarrow> TeeValid
           | Inl _ \<Rightarrow> TeeInvalid))"

definition find_node_id_by_tls_key :: "tee_state \<Rightarrow> near_public_key \<Rightarrow> node_id option" where
  "find_node_id_by_tls_key ts tls_public_key =
     map_option na_node_id (map_of (ts_stored_attestations ts) tls_public_key)"

text \<open>The filter of \<^verbatim>\<open>reverify_and_cleanup_participants\<close>.\<close>

definition has_valid_attestation :: "env \<Rightarrow> tee_state \<Rightarrow> duration \<Rightarrow> participant_entry \<Rightarrow> bool" where
  "has_valid_attestation env ts dur e =
     (let tls_public_key = pi_sign_pk (entry_info e);
          maybe_node = find_node_id_by_tls_key ts tls_public_key;
          node_id = \<lparr>ni_account_id = entry_account e, ni_tls_public_key = tls_public_key,
            ni_account_public_key = Option.bind maybe_node ni_account_public_key\<rparr>
      in reverify_participants env ts node_id dur = TeeValid)"

definition reverify_and_cleanup_participants ::
  "env \<Rightarrow> tee_state \<Rightarrow> participants \<Rightarrow> duration \<Rightarrow> tee_state \<times> tee_validation_result" where
  "reverify_and_cleanup_participants env ts ps dur =
     (let ts' = ts\<lparr>ts_allowed_docker_image_hashes :=
            cleanup_expired_hashes env (ts_allowed_docker_image_hashes ts) dur\<rparr>;
          valid = filter (has_valid_attestation env ts' dur) (ps_participants ps)
      in if length valid \<noteq> participants_len ps
         then (ts', TeePartial (participants_init (ps_next_id ps) valid))
         else (ts', TeeFull))"

section \<open>Allowlists\<close>

definition tee_vote :: "tee_state \<Rightarrow> mpc_docker_image_hash \<Rightarrow> nat \<Rightarrow> tee_state \<times> nat" where
  "tee_vote ts code_hash participant =
     (let (votes, n) = code_hashes_vote participant code_hash (ts_votes ts) in (ts\<lparr>ts_votes := votes\<rparr>, n))"

definition whitelist_tee_proposal ::
  "tee_libs \<Rightarrow> env \<Rightarrow> tee_state \<Rightarrow> mpc_docker_image_hash \<Rightarrow> duration \<Rightarrow> tee_state res" where
  "whitelist_tee_proposal th env ts tee_proposal dur =
     bind_res (add_mpc_image_compose_hashes th (ts_allowed_launcher_images ts) tee_proposal) (\<lambda>launchers.
     Inr (ts\<lparr>ts_votes := code_hashes_clear_votes (ts_votes ts),
       ts_allowed_launcher_images := launchers,
       ts_allowed_docker_image_hashes :=
         allowed_docker_image_hashes_insert env (ts_allowed_docker_image_hashes ts) tee_proposal dur\<rparr>))"

definition vote_launcher :: "tee_state \<Rightarrow> launcher_vote_action \<Rightarrow> nat \<Rightarrow> tee_state \<times> nat" where
  "vote_launcher ts action participant =
     (let (votes, n) = launcher_hash_vote participant action (ts_launcher_votes ts)
      in (ts\<lparr>ts_launcher_votes := votes\<rparr>, n))"

definition add_launcher_image ::
  "tee_libs \<Rightarrow> env \<Rightarrow> tee_state \<Rightarrow> launcher_image_hash \<Rightarrow> duration \<Rightarrow> (tee_state \<times> bool) res" where
  "add_launcher_image th env ts launcher_hash dur =
     (let mpc_image_hashes = get_image_hashes env (ts_allowed_docker_image_hashes ts) dur in
      bind_res (allowed_launcher_images_add th (ts_allowed_launcher_images ts) launcher_hash
        mpc_image_hashes) (\<lambda>(launchers, added).
      Inr (ts\<lparr>ts_launcher_votes := launcher_hash_clear_votes (ts_launcher_votes ts),
        ts_allowed_launcher_images := launchers\<rparr>, added)))"

definition remove_launcher_image :: "tee_state \<Rightarrow> launcher_image_hash \<Rightarrow> tee_state \<times> bool" where
  "remove_launcher_image ts launcher_hash =
     (let (launchers, removed) = allowed_launcher_images_remove (ts_allowed_launcher_images ts) launcher_hash
      in (ts\<lparr>ts_launcher_votes := launcher_hash_clear_votes (ts_launcher_votes ts),
            ts_allowed_launcher_images := launchers\<rparr>, removed))"

abbreviation get_allowed_launcher_hashes :: "tee_state \<Rightarrow> launcher_image_hash list" where
  "get_allowed_launcher_hashes ts \<equiv> launcher_hashes (ts_allowed_launcher_images ts)"

definition clean_non_participants :: "tee_state \<Rightarrow> participants \<Rightarrow> tee_state" where
  "clean_non_participants ts ps =
     (let active_tls_keys = set (map (\<lambda>e. pi_sign_pk (entry_info e)) (ps_participants ps));
          stale_keys = filter (\<lambda>tls_pk. tls_pk \<notin> active_tls_keys) (map fst (ts_stored_attestations ts))
      in ts\<lparr>ts_stored_attestations := fold am_remove stale_keys (ts_stored_attestations ts)\<rparr>)"

definition tee_get_tee_accounts :: "tee_state \<Rightarrow> node_id list" where
  "tee_get_tee_accounts ts = map (na_node_id \<circ> snd) (ts_stored_attestations ts)"

definition is_caller_an_attested_participant ::
  "env \<Rightarrow> tee_state \<Rightarrow> participants \<Rightarrow> attestation_check_error + unit" where
  "is_caller_an_attested_participant env ts ps =
     (let signer_pk = env_signer_account_pk env; signer_id = env_signer_account_id env in
      bind_res (ok_or (participants_info ps signer_id) CallerNotParticipant) (\<lambda>info.
      bind_res (ok_or (map_of (ts_stored_attestations ts) (pi_sign_pk info)) AttestationNotFound) (\<lambda>attestation.
      if ni_account_id (na_node_id attestation) \<noteq> signer_id then Inl AttestationOwnerMismatch
      else case ni_account_public_key (na_node_id attestation) of
        Some node_pk \<Rightarrow> if node_pk \<noteq> signer_pk then Inl AttestationKeyMismatch else Inr ()
      | None \<Rightarrow> Inr ())))"

section \<open>Invariant\<close>

text \<open>An attestation is stored under its own TLS key.\<close>

definition wf_tee :: "timestamp \<Rightarrow> tee_state \<Rightarrow> bool" where
  "wf_tee now ts \<longleftrightarrow>
     wf_images now (ts_allowed_docker_image_hashes ts) \<and>
     distinct (map al_launcher_hash (ali_entries (ts_allowed_launcher_images ts))) \<and>
     wf_chv (ts_votes ts) \<and> wf_lhv (ts_launcher_votes ts) \<and>
     wf_amap (ts_stored_attestations ts) \<and>
     (\<forall>k a. map_of (ts_stored_attestations ts) k = Some a \<longrightarrow> ni_tls_public_key (na_node_id a) = k)"

lemma wf_teeD:
  assumes "wf_tee now ts"
  shows "wf_images now (ts_allowed_docker_image_hashes ts)"
    "distinct (map al_launcher_hash (ali_entries (ts_allowed_launcher_images ts)))"
    "wf_chv (ts_votes ts)" "wf_lhv (ts_launcher_votes ts)" "wf_amap (ts_stored_attestations ts)"
    "\<And>k a. map_of (ts_stored_attestations ts) k = Some a \<Longrightarrow> ni_tls_public_key (na_node_id a) = k"
  using assms by (auto simp: wf_tee_def)

lemma wf_tee_mono: "wf_tee now ts \<Longrightarrow> now \<le> now' \<Longrightarrow> wf_tee now' ts"
  by (auto simp: wf_tee_def intro: wf_images_mono)

lemma wf_tee_default: "wf_tee now tee_state_default"
  by (simp add: wf_tee_def wf_images_def tee_state_default_def)

lemma mocked_attestations_wf:
  assumes "wf_amap m" "\<And>k a. map_of m k = Some a \<Longrightarrow> ni_tls_public_key (na_node_id a) = k"
  shows "wf_amap (foldl (\<lambda>m e. am_insert (pi_sign_pk (entry_info e)) (mocked_attestation e) m) m es) \<and>
    (\<forall>k a. map_of (foldl (\<lambda>m e. am_insert (pi_sign_pk (entry_info e)) (mocked_attestation e) m) m es) k = Some a \<longrightarrow>
      ni_tls_public_key (na_node_id a) = k)"
  using assms
proof (induction es arbitrary: m)
  case (Cons e es)
  let ?m = "am_insert (pi_sign_pk (entry_info e)) (mocked_attestation e) m"
  have "wf_amap ?m" "\<And>k a. map_of ?m k = Some a \<Longrightarrow> ni_tls_public_key (na_node_id a) = k"
    using Cons.prems by (auto simp: mocked_attestation_def split: if_splits)
  from Cons.IH [OF this] show ?case by simp
qed simp

lemma wf_tee_mocked: "wf_tee now (with_mocked_participant_attestations ps)"
  using mocked_attestations_wf [of "[]" "ps_participants ps"] wf_tee_default [of now]
  by (simp add: wf_tee_def with_mocked_participant_attestations_def)

lemma wf_images_cleanup:
  assumes "wf_images now self"
  shows "wf_images now (cleanup_expired_hashes env self dur)"
proof -
  obtain xs where xs: "adh_allowed_tee_proposals self = xs @ valid_entries env self dur"
    using valid_entries_suffix by blast
  then show ?thesis
    using assms unfolding wf_images_def xs
    by (simp add: cleanup_expired_hashes_def sorted_append)
qed

lemma reverify_cleanup_wf:
  assumes "wf_tee now ts" "reverify_and_cleanup_participants env ts ps dur = (ts', r)"
  shows "wf_tee now ts'"
proof -
  have "ts' = ts\<lparr>ts_allowed_docker_image_hashes := cleanup_expired_hashes env (ts_allowed_docker_image_hashes ts) dur\<rparr>"
    using assms(2) by (auto simp: reverify_and_cleanup_participants_def Let_def split: if_splits)
  with assms(1) show ?thesis by (simp add: wf_tee_def wf_images_cleanup)
qed

lemma add_participant_Inr:
  assumes "tee_add_participant th env ts node_id att dur = Inr (Inr (ts', ins))"
  obtains tls key v where "ed25519_of_near (ni_tls_public_key node_id) = Inr (Inr tls)"
    "account_key_bytes (ni_account_public_key node_id) = Inr key"
    "attestation_verify th att
       (report_data_v1_to_bytes th \<lparr>rd_tls_public_key = tls, rd_account_public_key = key\<rparr>)
       (current_time_seconds env) (get_allowed_mpc_docker_image_hashes env ts dur)
       (get_allowed_launcher_compose_hashes ts) (th_default_measurements th) = Inr (Inr v)"
    "ts' = ts\<lparr>ts_stored_attestations := am_insert (ni_tls_public_key node_id)
       \<lparr>na_node_id = node_id, na_verified_attestation = v\<rparr> (ts_stored_attestations ts)\<rparr>"
    "ins = (if ni_tls_public_key node_id \<in> dom (map_of (ts_stored_attestations ts))
       then UpdatedExistingParticipant else NewlyInsertedParticipant)"
proof -
  obtain r where r: "ed25519_of_near (ni_tls_public_key node_id) = Inr r"
    using assms by (auto simp: tee_add_participant_def res_simps)
  then obtain tls where tls: "r = Inr tls"
    using assms by (cases r) (auto simp: tee_add_participant_def)
  obtain key where key: "account_key_bytes (ni_account_public_key node_id) = Inr key"
    using assms by (auto simp: tee_add_participant_def r tls res_simps)
  obtain v where v: "attestation_verify th att
       (report_data_v1_to_bytes th \<lparr>rd_tls_public_key = tls, rd_account_public_key = key\<rparr>)
       (current_time_seconds env) (get_allowed_mpc_docker_image_hashes env ts dur)
       (get_allowed_launcher_compose_hashes ts) (th_default_measurements th) = Inr v"
    using assms by (auto simp: tee_add_participant_def r tls key res_simps)
  then obtain w where w: "v = Inr w"
    using assms by (cases v) (auto simp: tee_add_participant_def r tls key)
  show thesis
    using assms by (intro that [OF r [unfolded tls] key v [unfolded w]])
      (auto simp: tee_add_participant_def r tls key v w Let_def dom_def split: option.splits)
qed

lemma add_participant_wf:
  assumes "wf_tee now ts" "tee_add_participant th env ts node_id att dur = Inr (Inr (ts', ins))"
  shows "wf_tee now ts'"
proof -
  obtain v where "ts' = ts\<lparr>ts_stored_attestations := am_insert (ni_tls_public_key node_id)
      \<lparr>na_node_id = node_id, na_verified_attestation = v\<rparr> (ts_stored_attestations ts)\<rparr>"
    using assms(2) by (rule add_participant_Inr)
  with assms(1) show ?thesis by (simp add: wf_tee_def)
qed

lemma tee_vote_wf: "wf_tee now ts \<Longrightarrow> wf_tee now (fst (tee_vote ts h i))"
  using chv.wf_cast [of "ts_votes ts" i h] by (auto simp: wf_tee_def tee_vote_def split: prod.splits)

lemma vote_launcher_wf: "wf_tee now ts \<Longrightarrow> wf_tee now (fst (vote_launcher ts a i))"
  using lhv.wf_cast [of "ts_launcher_votes ts" i a] by (auto simp: wf_tee_def vote_launcher_def split: prod.splits)

lemma map_res_Inr: "map_res f xs = Inr ys \<longleftrightarrow> list_all2 (\<lambda>x y. f x = Inr y) xs ys"
  by (induction xs arbitrary: ys) (auto simp: res_simps list_all2_Cons1)

text \<open>Whitelisting an image extends every launcher entry by the image's compose hash.\<close>

lemma add_mpc_image_entries:
  assumes "add_mpc_image_compose_hashes th ali h = Inr ali'"
  shows "list_all2 (\<lambda>e e'. al_launcher_hash e' = al_launcher_hash e \<and>
      (\<exists>c. get_docker_compose_hash th (al_launcher_hash e) h = Inr c \<and>
        set (al_compose_hashes e') = insert c (set (al_compose_hashes e))))
    (ali_entries ali) (ali_entries ali')"
proof -
  obtain es where es: "map_res (\<lambda>entry.
       bind_res (get_docker_compose_hash th (al_launcher_hash entry) h) (\<lambda>compose_hash.
       Inr (if List.member (al_compose_hashes entry) compose_hash then entry
            else entry\<lparr>al_compose_hashes := al_compose_hashes entry @ [compose_hash]\<rparr>)))
       (ali_entries ali) = Inr es" "ali' = ali\<lparr>ali_entries := es\<rparr>"
    using assms by (auto simp: add_mpc_image_compose_hashes_def res_simps)
  have "al_launcher_hash e' = al_launcher_hash e \<and>
      (\<exists>c. get_docker_compose_hash th (al_launcher_hash e) h = Inr c \<and>
        set (al_compose_hashes e') = insert c (set (al_compose_hashes e)))"
    if e': "bind_res (get_docker_compose_hash th (al_launcher_hash e) h) (\<lambda>c.
       Inr (if List.member (al_compose_hashes e) c then e
            else e\<lparr>al_compose_hashes := al_compose_hashes e @ [c]\<rparr>)) = Inr e'" for e e'
  proof -
    obtain c where c: "get_docker_compose_hash th (al_launcher_hash e) h = Inr c"
      using e' by (cases "get_docker_compose_hash th (al_launcher_hash e) h") simp_all
    then show ?thesis
      using e' by (cases "List.member (al_compose_hashes e) c") (auto simp: insert_absorb)
  qed
  with es show ?thesis
    unfolding map_res_Inr by (auto elim!: list_all2_mono)
qed

lemma list_all2_member: "list_all2 P xs ys \<Longrightarrow> y \<in> set ys \<Longrightarrow> \<exists>x \<in> set xs. P x y"
  by (induction rule: list_all2_induct) auto

lemma list_all2_map_eq: "list_all2 (\<lambda>x y. f y = f x \<and> Q x y) xs ys \<Longrightarrow> map f ys = map f xs"
  by (induction rule: list_all2_induct) auto

lemma whitelist_wf:
  assumes "wf_tee (timestamp_now env) ts" "whitelist_tee_proposal th env ts h dur = Inr ts'"
  shows "wf_tee (timestamp_now env) ts'"
proof -
  obtain l where l: "add_mpc_image_compose_hashes th (ts_allowed_launcher_images ts) h = Inr l"
    and ts': "ts' = ts\<lparr>ts_votes := code_hashes_clear_votes (ts_votes ts), ts_allowed_launcher_images := l,
       ts_allowed_docker_image_hashes :=
         allowed_docker_image_hashes_insert env (ts_allowed_docker_image_hashes ts) h dur\<rparr>"
    using assms(2) by (auto simp: whitelist_tee_proposal_def res_simps)
  have "map al_launcher_hash (ali_entries l) = map al_launcher_hash (ali_entries (ts_allowed_launcher_images ts))"
    using add_mpc_image_entries [OF l] by (rule list_all2_map_eq)
  then show ?thesis
    using assms(1) insert_image_wf_images [OF wf_teeD(1) [OF assms(1)]]
    by (simp add: wf_tee_def ts' code_hashes_clear_votes_def)
qed

lemma launcher_add_Inr:
  assumes "allowed_launcher_images_add th ali l ms = Inr (ali', b)"
  obtains "l \<in> launcher_set ali" "ali' = ali" "\<not> b"
  | hs where "l \<notin> launcher_set ali" "b" "list_all2 (\<lambda>m h. get_docker_compose_hash th l m = Inr h) ms hs"
      "ali' = ali\<lparr>ali_entries := ali_entries ali @ [\<lparr>al_launcher_hash = l, al_compose_hashes = hs\<rparr>]\<rparr>"
proof (cases "list_ex (\<lambda>e. al_launcher_hash e = l) (ali_entries ali)")
  case True
  then have "l \<in> launcher_set ali" by (auto simp: list_ex_iff)
  then show thesis
    by (rule that(1)) (use True assms in \<open>simp_all add: allowed_launcher_images_add_def\<close>)
next
  case False
  then have l: "l \<notin> launcher_set ali" by (auto simp: list_ex_iff)
  obtain hs where hs: "map_res (get_docker_compose_hash th l) ms = Inr hs"
    using assms False
    by (cases "map_res (get_docker_compose_hash th l) ms") (simp_all add: allowed_launcher_images_add_def)
  show thesis
    by (rule that(2) [OF l _ iffD1 [OF map_res_Inr hs]])
      (use assms False hs in \<open>simp_all add: allowed_launcher_images_add_def\<close>)
qed

lemma add_launcher_Inr:
  assumes "add_launcher_image th env ts l dur = Inr (ts', b)"
  obtains ali where "allowed_launcher_images_add th (ts_allowed_launcher_images ts) l
      (get_image_hashes env (ts_allowed_docker_image_hashes ts) dur) = Inr (ali, b)"
    "ts' = ts\<lparr>ts_launcher_votes := launcher_hash_clear_votes (ts_launcher_votes ts),
       ts_allowed_launcher_images := ali\<rparr>"
  using assms by (auto simp: add_launcher_image_def res_simps)

lemma add_launcher_wf:
  assumes "wf_tee now ts" "add_launcher_image th env ts l dur = Inr (ts', b)"
  shows "wf_tee now ts'"
proof -
  obtain ali where ali: "allowed_launcher_images_add th (ts_allowed_launcher_images ts) l
      (get_image_hashes env (ts_allowed_docker_image_hashes ts) dur) = Inr (ali, b)"
    and ts': "ts' = ts\<lparr>ts_launcher_votes := launcher_hash_clear_votes (ts_launcher_votes ts),
       ts_allowed_launcher_images := ali\<rparr>"
    using assms(2) by (rule add_launcher_Inr)
  have "distinct (map al_launcher_hash (ali_entries ali))"
    using launcher_add_Inr [OF ali] wf_teeD(2) [OF assms(1)] by cases auto
  with assms(1) show ?thesis by (simp add: wf_tee_def ts' launcher_hash_clear_votes_def)
qed

lemma remove_launcher_wf:
  assumes "wf_tee now ts"
  shows "wf_tee now (fst (remove_launcher_image ts l))"
  using assms
  by (auto simp: wf_tee_def remove_launcher_image_def allowed_launcher_images_remove_def Let_def
      launcher_hash_clear_votes_def distinct_map_filter)

lemma fold_am_remove:
  "wf_amap m \<Longrightarrow> wf_amap (fold am_remove ks m) \<and>
     map_of (fold am_remove ks m) = (\<lambda>k. if k \<in> set ks then None else map_of m k)"
proof (induction ks arbitrary: m)
  case (Cons k ks)
  from Cons.IH [OF wf_am_remove [OF Cons.prems, of k]] show ?case by (auto simp: fun_eq_iff)
qed simp

lemma clean_non_participants_attestations:
  assumes "wf_tee now ts"
  shows "wf_tee now (clean_non_participants ts ps) \<and>
    map_of (ts_stored_attestations (clean_non_participants ts ps)) k =
      (if k \<in> (\<lambda>e. pi_sign_pk (entry_info e)) ` set (ps_participants ps)
       then map_of (ts_stored_attestations ts) k else None)"
proof -
  let ?ks = "filter (\<lambda>k. k \<notin> (\<lambda>e. pi_sign_pk (entry_info e)) ` set (ps_participants ps))
    (map fst (ts_stored_attestations ts))"
  have eq: "ts_stored_attestations (clean_non_participants ts ps) = fold am_remove ?ks (ts_stored_attestations ts)"
    by (simp add: clean_non_participants_def Let_def)
  have lookup: "map_of (fold am_remove ?ks (ts_stored_attestations ts)) k =
      (if k \<in> (\<lambda>e. pi_sign_pk (entry_info e)) ` set (ps_participants ps)
       then map_of (ts_stored_attestations ts) k else None)" for k
    using fold_am_remove [OF wf_teeD(5) [OF assms], of ?ks]
    by (auto simp: map_of_eq_None_iff)
  then have "\<And>k a. map_of (fold am_remove ?ks (ts_stored_attestations ts)) k = Some a \<Longrightarrow>
      ni_tls_public_key (na_node_id a) = k"
    using wf_teeD(6) [OF assms] by (auto split: if_splits)
  with assms fold_am_remove [OF wf_teeD(5) [OF assms], of ?ks]
  have "wf_tee now (clean_non_participants ts ps)"
    by (simp add: wf_tee_def clean_non_participants_def Let_def)
  with lookup show ?thesis by (simp only: eq)
qed

section \<open>Every allowed pair of images has its compose hash\<close>

definition compose_covered :: "tee_libs \<Rightarrow> tee_state \<Rightarrow> mpc_docker_image_hash set \<Rightarrow> bool" where
  "compose_covered th ts images \<longleftrightarrow>
     (\<forall>e \<in> set (ali_entries (ts_allowed_launcher_images ts)). \<forall>m \<in> images.
       \<exists>c \<in> set (al_compose_hashes e). get_docker_compose_hash th (al_launcher_hash e) m = Inr c)"

abbreviation allowed_images :: "env \<Rightarrow> tee_state \<Rightarrow> duration \<Rightarrow> mpc_docker_image_hash set" where
  "allowed_images env ts dur \<equiv> set (get_allowed_mpc_docker_image_hashes env ts dur)"

lemma compose_covered_subset: "compose_covered th ts A \<Longrightarrow> B \<subseteq> A \<Longrightarrow> compose_covered th ts B"
  by (auto simp: compose_covered_def)

lemma valid_entries_subset: "set (valid_entries env self dur) \<subseteq> set (adh_allowed_tee_proposals self)"
  by (simp add: valid_entries_def set_drop_subset)

text \<open>
  An image that is no longer allowed does not become allowed again by waiting, by a shorter grace
  duration or by times of addition that are rounded down. (A duration so long that a deadline does not
  fit 64-bit seconds counts as over, so this needs deadlines that fit.)
\<close>

lemma valid_hashes_antimono:
  assumes le: "timestamp_now env \<le> timestamp_now env'" "dur' \<le> dur"
    and es: "list_all2 (\<lambda>e e'. ai_image_hash e' = ai_image_hash e \<and> ai_added e' \<le> ai_added e \<and>
      duration_as_secs (ai_added e + dur) < 2 ^ 64)
      (adh_allowed_tee_proposals self) (adh_allowed_tee_proposals self')"
  shows "ai_image_hash ` set (valid_entries env' self' dur') \<subseteq> ai_image_hash ` set (valid_entries env self dur)"
proof
  let ?xs = "adh_allowed_tee_proposals self" and ?ys = "adh_allowed_tee_proposals self'"
  note ex = list_all2_lengthD [OF es] list_all2_nthD [OF es]
  have over: "grace_period_over (timestamp_now env') dur' (?ys ! j)"
    if "j < length ?xs" "grace_period_over (timestamp_now env) dur (?xs ! j)" for j
    using that ex(2) [OF that(1)] le by (auto simp: grace_period_over_iff)
  fix m assume "m \<in> ai_image_hash ` set (valid_entries env' self' dur')"
  then obtain i where i: "i < length ?ys" "m = ai_image_hash (?ys ! i)"
    "\<And>j. i < j \<Longrightarrow> j < length ?ys \<Longrightarrow> \<not> grace_period_over (timestamp_now env') dur' (?ys ! j)"
    unfolding valid_entries_filter [of env' self' dur'] by auto
  have "?xs ! i \<in> set (valid_entries env self dur)"
    using i(1,3) ex(1) over unfolding valid_entries_filter [of env self dur] by auto
  moreover have "ai_image_hash (?xs ! i) = m" using ex(2) [of i] i(1,2) ex(1) by simp
  ultimately show "m \<in> ai_image_hash ` set (valid_entries env self dur)" by blast
qed

lemma allowed_images_eq:
  "allowed_images env ts dur = ai_image_hash ` set (valid_entries env (ts_allowed_docker_image_hashes ts) dur)"
  by (simp add: get_allowed_mpc_docker_image_hashes_def get_allowed_mpc_docker_images_def)

lemma whitelist_covered:
  assumes wf: "wf_tee (timestamp_now env) ts" and cov: "compose_covered th ts (allowed_images env ts dur)"
    and w: "whitelist_tee_proposal th env ts h dur = Inr ts'"
  shows "compose_covered th ts' (allowed_images env ts' dur)"
proof -
  obtain l where l: "add_mpc_image_compose_hashes th (ts_allowed_launcher_images ts) h = Inr l"
    and ts': "ts_allowed_launcher_images ts' = l" "ts_allowed_docker_image_hashes ts' =
         allowed_docker_image_hashes_insert env (ts_allowed_docker_image_hashes ts) h dur"
    using w by (auto simp: whitelist_tee_proposal_def res_simps)
  have "set (valid_entries env (ts_allowed_docker_image_hashes ts') dur) \<subseteq>
      set (valid_entries env (ts_allowed_docker_image_hashes ts) dur) \<union>
      {\<lparr>ai_image_hash = h, ai_added = timestamp_now env\<rparr>}"
    using valid_entries_subset [of env "ts_allowed_docker_image_hashes ts'" dur]
    by (auto simp: ts'(2) insert_image_eq [OF wf_teeD(1) [OF wf]])
  then have sub: "allowed_images env ts' dur \<subseteq> insert h (allowed_images env ts dur)"
    by (fastforce simp: get_allowed_mpc_docker_image_hashes_def get_allowed_mpc_docker_images_def)
  have "\<exists>c \<in> set (al_compose_hashes e'). get_docker_compose_hash th (al_launcher_hash e') m = Inr c"
    if e': "e' \<in> set (ali_entries l)" and m: "m \<in> insert h (allowed_images env ts dur)" for e' m
  proof -
    obtain e c where e: "e \<in> set (ali_entries (ts_allowed_launcher_images ts))"
      "al_launcher_hash e' = al_launcher_hash e" "get_docker_compose_hash th (al_launcher_hash e) h = Inr c"
      "set (al_compose_hashes e') = insert c (set (al_compose_hashes e))"
      using list_all2_member [OF add_mpc_image_entries [OF l] e'] by blast
    then show ?thesis using cov m by (auto simp: compose_covered_def)
  qed
  with sub show ?thesis by (auto simp: compose_covered_def ts'(1))
qed

lemma add_launcher_covered:
  assumes cov: "compose_covered th ts (allowed_images env ts dur)"
    and a: "add_launcher_image th env ts l dur = Inr (ts', b)"
  shows "compose_covered th ts' (allowed_images env ts' dur)"
proof -
  obtain ali where ali: "allowed_launcher_images_add th (ts_allowed_launcher_images ts) l
      (get_image_hashes env (ts_allowed_docker_image_hashes ts) dur) = Inr (ali, b)"
    and ts': "ts_allowed_launcher_images ts' = ali"
      "ts_allowed_docker_image_hashes ts' = ts_allowed_docker_image_hashes ts"
    using a by (rule add_launcher_Inr) simp
  have same: "allowed_images env ts' dur = set (get_image_hashes env (ts_allowed_docker_image_hashes ts) dur)"
    "allowed_images env ts dur = set (get_image_hashes env (ts_allowed_docker_image_hashes ts) dur)"
    by (simp_all add: get_allowed_mpc_docker_image_hashes_def get_allowed_mpc_docker_images_def ts'(2)
        get_image_hashes_def)
  show ?thesis
    using launcher_add_Inr [OF ali]
  proof cases
    case 1
    then show ?thesis using cov by (simp add: compose_covered_def ts'(1) same)
  next
    case (2 hs)
    have "\<exists>c \<in> set hs. get_docker_compose_hash th l m = Inr c"
      if "m \<in> set (get_image_hashes env (ts_allowed_docker_image_hashes ts) dur)" for m
      using 2(3) that by (force simp: list_all2_conv_all_nth in_set_conv_nth)
    with 2(4) cov show ?thesis by (auto simp: compose_covered_def ts'(1) same)
  qed
qed

lemma remove_launcher_covered:
  assumes "compose_covered th ts A"
  shows "compose_covered th (fst (remove_launcher_image ts l)) A"
proof -
  obtain ali b where r: "allowed_launcher_images_remove (ts_allowed_launcher_images ts) l = (ali, b)"
    by (cases "allowed_launcher_images_remove (ts_allowed_launcher_images ts) l")
  with allowed_launcher_images_remove_eq(4) [OF r] assms show ?thesis
    by (auto simp: compose_covered_def remove_launcher_image_def)
qed

text \<open>
  The state-changing operations on the TEE state, as the methods of the contract perform them at one
  time and under one grace duration.
\<close>

inductive tee_op :: "tee_libs \<Rightarrow> env \<Rightarrow> duration \<Rightarrow> tee_state \<Rightarrow> tee_state \<Rightarrow> bool"
  for th env dur where
  op_vote: "tee_op th env dur ts (fst (tee_vote ts h i))"
| op_whitelist: "whitelist_tee_proposal th env ts h dur = Inr ts' \<Longrightarrow> tee_op th env dur ts ts'"
| op_vote_launcher: "tee_op th env dur ts (fst (vote_launcher ts a i))"
| op_add_launcher: "add_launcher_image th env ts l dur = Inr (ts', b) \<Longrightarrow> tee_op th env dur ts ts'"
| op_remove_launcher: "tee_op th env dur ts (fst (remove_launcher_image ts l))"
| op_add_participant:
    "tee_add_participant th env ts node_id att dur = Inr (Inr (ts', ins)) \<Longrightarrow> tee_op th env dur ts ts'"
| op_reverify: "tee_op th env dur ts (fst (reverify_and_cleanup_participants env ts ps dur))"
| op_clean: "tee_op th env dur ts (clean_non_participants ts ps)"

lemma reverify_state:
  "fst (reverify_and_cleanup_participants env ts ps dur) = ts\<lparr>ts_allowed_docker_image_hashes :=
     cleanup_expired_hashes env (ts_allowed_docker_image_hashes ts) dur\<rparr>"
  by (simp add: reverify_and_cleanup_participants_def Let_def)

lemma compose_covered_cong:
  "ts_allowed_launcher_images ts' = ts_allowed_launcher_images ts \<Longrightarrow>
     compose_covered th ts' A = compose_covered th ts A"
  by (simp add: compose_covered_def)

text \<open>The invariant on the allowlists: well-formed, and every launcher covers every allowed image.\<close>

definition tee_covered :: "tee_libs \<Rightarrow> env \<Rightarrow> duration \<Rightarrow> tee_state \<Rightarrow> bool" where
  "tee_covered th env dur ts \<longleftrightarrow>
     wf_tee (timestamp_now env) ts \<and> compose_covered th ts (allowed_images env ts dur)"

lemma tee_op_covered:
  assumes "tee_op th env dur ts ts'" "tee_covered th env dur ts"
  shows "tee_covered th env dur ts'"
proof -
  have wf: "wf_tee (timestamp_now env) ts" and cov: "compose_covered th ts (allowed_images env ts dur)"
    using assms(2) by (simp_all add: tee_covered_def)
  have same: "tee_covered th env dur ts'"
    if "wf_tee (timestamp_now env) ts'" "ts_allowed_launcher_images ts' = ts_allowed_launcher_images ts"
      "valid_entries env (ts_allowed_docker_image_hashes ts') dur =
        valid_entries env (ts_allowed_docker_image_hashes ts) dur"
    using that cov compose_covered_cong [OF that(2), of th] by (simp add: tee_covered_def allowed_images_eq)
  show ?thesis
    using assms(1)
  proof cases
    case (op_whitelist h)
    with whitelist_wf [OF wf] whitelist_covered [OF wf cov] show ?thesis by (auto simp: tee_covered_def)
  next
    case (op_add_launcher l b)
    with add_launcher_wf [OF wf] add_launcher_covered [OF cov] show ?thesis by (auto simp: tee_covered_def)
  next
    case (op_remove_launcher l)
    then have "allowed_images env ts' dur = allowed_images env ts dur"
      by (simp add: allowed_images_eq remove_launcher_image_def split: prod.split)
    with op_remove_launcher remove_launcher_wf [OF wf] remove_launcher_covered [OF cov] show ?thesis
      by (simp add: tee_covered_def)
  next
    case (op_vote h i)
    with tee_vote_wf [OF wf] show ?thesis by (intro same) (simp_all add: tee_vote_def split: prod.splits)
  next
    case (op_vote_launcher a i)
    with vote_launcher_wf [OF wf] show ?thesis
      by (intro same) (simp_all add: vote_launcher_def split: prod.splits)
  next
    case (op_add_participant node_id att ins)
    with add_participant_wf [OF wf] show ?thesis
      by (intro same) (auto elim!: add_participant_Inr)
  next
    case (op_reverify ps)
    with reverify_cleanup_wf [OF wf prod.collapse [symmetric]] show ?thesis
      by (intro same) (simp_all add: reverify_state)
  next
    case (op_clean ps)
    with clean_non_participants_attestations [OF wf] show ?thesis
      by (intro same) (simp_all add: clean_non_participants_def Let_def)
  qed
qed

lemma tee_ops_covered:
  "(tee_op th env dur)\<^sup>*\<^sup>* ts ts' \<Longrightarrow> tee_covered th env dur ts \<Longrightarrow> tee_covered th env dur ts'"
  by (induction rule: rtranclp_induct) (auto intro: tee_op_covered)

text \<open>Later, and under a grace duration that is not longer, the same state is still covered.\<close>

lemma tee_covered_later:
  assumes "tee_covered th env dur ts" "timestamp_now env \<le> timestamp_now env'" "dur' \<le> dur"
    and fits: "duration_as_secs (timestamp_now env + dur) < 2 ^ 64"
  shows "tee_covered th env' dur' ts"
proof -
  have "ai_added e \<le> timestamp_now env" if "e \<in> set (adh_allowed_tee_proposals (ts_allowed_docker_image_hashes ts))" for e
    using assms(1) that by (auto simp: tee_covered_def wf_tee_def wf_images_def list_all_iff)
  then have "duration_as_secs (ai_added e + dur) < 2 ^ 64"
    if "e \<in> set (adh_allowed_tee_proposals (ts_allowed_docker_image_hashes ts))" for e
    using that fits duration_as_secs_mono [of "ai_added e + dur" "timestamp_now env + dur"] by fastforce
  then have "allowed_images env' ts dur' \<subseteq> allowed_images env ts dur"
    unfolding allowed_images_eq
    by (intro valid_hashes_antimono assms(2,3)) (auto simp: list_all2_same)
  with assms(1,2) show ?thesis
    by (auto simp: tee_covered_def intro: wf_tee_mono compose_covered_subset)
qed

section \<open>Re-verification\<close>

lemma has_valid_attestation_iff:
  "has_valid_attestation env ts dur e \<longleftrightarrow>
     (\<exists>a. map_of (ts_stored_attestations ts) (pi_sign_pk (entry_info e)) = Some a \<and>
       re_verify (na_verified_attestation a) (current_time_seconds env)
         (get_allowed_mpc_docker_image_hashes env ts dur) (get_allowed_launcher_compose_hashes ts) = Inr ())"
  by (auto simp: has_valid_attestation_def Let_def reverify_participants_def split: option.splits sum.splits)

lemma has_valid_attestation_cleanup:
  "has_valid_attestation env (ts\<lparr>ts_allowed_docker_image_hashes :=
       cleanup_expired_hashes env (ts_allowed_docker_image_hashes ts) dur\<rparr>) dur = has_valid_attestation env ts dur"
  by (simp add: fun_eq_iff has_valid_attestation_iff get_allowed_mpc_docker_image_hashes_def
      get_allowed_mpc_docker_images_def)

lemma reverify_cleanup_eq:
  "reverify_and_cleanup_participants env ts ps dur =
     (ts\<lparr>ts_allowed_docker_image_hashes := cleanup_expired_hashes env (ts_allowed_docker_image_hashes ts) dur\<rparr>,
      if \<forall>e \<in> set (ps_participants ps). has_valid_attestation env ts dur e then TeeFull
      else TeePartial (participants_init (ps_next_id ps) (filter (has_valid_attestation env ts dur) (ps_participants ps))))"
proof -
  let ?P = "has_valid_attestation env ts dur"
  have "length (filter ?P (ps_participants ps)) = participants_len ps \<longleftrightarrow> (\<forall>e \<in> set (ps_participants ps). ?P e)"
    unfolding participants_len_def by (metis filter_True length_filter_less less_irrefl)
  then show ?thesis
    by (simp add: reverify_and_cleanup_participants_def has_valid_attestation_cleanup Let_def)
qed



text \<open>
  A caller counts as an attested participant exactly when the signer is a participant, an attestation
  is stored under the participant's TLS key, that attestation was submitted by the same account, and the
  account key it was submitted with, if one is recorded, is the key that signed this call.
\<close>

lemma attested_caller_iff:
  "is_caller_an_attested_participant env ts ps = Inr () \<longleftrightarrow>
     (\<exists>info a. participants_info ps (env_signer_account_id env) = Some info \<and>
       map_of (ts_stored_attestations ts) (pi_sign_pk info) = Some a \<and>
       ni_account_id (na_node_id a) = env_signer_account_id env \<and>
       ni_account_public_key (na_node_id a) \<in> {None, Some (env_signer_account_pk env)})"
proof (cases "participants_info ps (env_signer_account_id env)")
  case (Some info)
  then show ?thesis
  proof (cases "map_of (ts_stored_attestations ts) (pi_sign_pk info)")
    case (Some a)
    with \<open>participants_info ps (env_signer_account_id env) = Some info\<close> show ?thesis
      by (cases "ni_account_public_key (na_node_id a)")
        (simp_all add: is_caller_an_attested_participant_def)
  qed (simp add: is_caller_an_attested_participant_def)
qed (simp add: is_caller_an_attested_participant_def)

end
