(* ===== verification/AttestationDto.thy ===== *)
theory AttestationDto
  imports Attestations
begin

text \<open>
  The wire format of attestations and its conversion to and from the contract's types:
  \<^verbatim>\<open>crates/contract/src/dto_mapping.rs\<close> with \<^verbatim>\<open>HexBytes\<close> of \<^verbatim>\<open>crates/attestation/src/tcb_info.rs\<close>. On the
  wire the digests are hex strings; a conversion to the contract's types fails on any malformed one.
\<close>

section \<open>Wire types\<close>

record dto_event_log =
  dev_imr :: nat
  dev_event_type :: nat
  dev_digest :: string
  dev_event :: string
  dev_event_payload :: string

record dto_tcb_info =
  dtcb_mrtd :: string
  dtcb_rtmr0 :: string
  dtcb_rtmr1 :: string
  dtcb_rtmr2 :: string
  dtcb_rtmr3 :: string
  dtcb_os_image_hash :: string
  dtcb_compose_hash :: string
  dtcb_device_id :: string
  dtcb_app_compose :: string
  dtcb_event_log :: "dto_event_log list"

record dto_collateral =
  dqc_tcb_info_issuer_chain :: string
  dqc_tcb_info :: string
  dqc_tcb_info_signature :: "byte list"
  dqc_qe_identity_issuer_chain :: string
  dqc_qe_identity :: string
  dqc_qe_identity_signature :: "byte list"
  dqc_pck_crl_issuer_chain :: string
  dqc_root_ca_crl :: "byte list"
  dqc_pck_crl :: "byte list"
  dqc_pck_certificate_chain :: "string option"

record dto_dstack_attestation =
  dda_quote :: "byte list"
  dda_collateral :: dto_collateral
  dda_tcb_info :: dto_tcb_info

datatype dto_mock_attestation =
  DtoMockValid
| DtoMockInvalid
| DtoMockWithConstraints "byte list option" "byte list option" "nat option"

datatype dto_attestation = DtoDstack dto_dstack_attestation | DtoMock dto_mock_attestation

datatype dto_verified_attestation =
  DtoVerifiedDstack "byte list" "byte list" nat
| DtoVerifiedMock dto_mock_attestation

section \<open>Conversions\<close>

text \<open>The two kinds of decoding errors of the \<^verbatim>\<open>hex\<close> crate are not told apart.\<close>

datatype parsing_error = WrongLength nat | UnexpectedHexCharacter

definition hex_bytes_try_from :: "tee_libs \<Rightarrow> nat \<Rightarrow> string \<Rightarrow> parsing_error + byte list" where
  "hex_bytes_try_from th n s =
     (if length s \<noteq> 2 * n then Inl (WrongLength (length s))
      else case th_hex_decode th s of
        None \<Rightarrow> Inl UnexpectedHexCharacter
      | Some bytes \<Rightarrow> if length bytes = n then Inr bytes else Inl (WrongLength (length s)))"

definition try_convert :: "tee_libs \<Rightarrow> nat \<Rightarrow> string \<Rightarrow> byte list res" where
  "try_convert th n s =
     (case hex_bytes_try_from th n s of
        Inl _ \<Rightarrow> Inl (Err (ConversionError DataConversion)) | Inr bytes \<Rightarrow> Inr bytes)"

definition event_log_of_dto :: "tee_libs \<Rightarrow> dto_event_log \<Rightarrow> event_log res" where
  "event_log_of_dto th e =
     bind_res (try_convert th 48 (dev_digest e)) (\<lambda>digest.
     Inr \<lparr>ev_imr = dev_imr e, ev_event_type = dev_event_type e, ev_digest = digest,
          ev_event = dev_event e, ev_event_payload = dev_event_payload e\<rparr>)"

fun event_logs_of_dto :: "tee_libs \<Rightarrow> dto_event_log list \<Rightarrow> event_log list res" where
  "event_logs_of_dto th [] = Inr []"
| "event_logs_of_dto th (e # es) =
     bind_res (event_log_of_dto th e) (\<lambda>x. bind_res (event_logs_of_dto th es) (\<lambda>xs. Inr (x # xs)))"

definition tcb_info_of_dto :: "tee_libs \<Rightarrow> dto_tcb_info \<Rightarrow> tcb_info res" where
  "tcb_info_of_dto th t =
     bind_res (event_logs_of_dto th (dtcb_event_log t)) (\<lambda>event_log.
     bind_res (if dtcb_os_image_hash t = [] then Inr None
       else bind_res (try_convert th 32 (dtcb_os_image_hash t)) (Inr \<circ> Some)) (\<lambda>os_image_hash.
     bind_res (try_convert th 48 (dtcb_mrtd t)) (\<lambda>mrtd.
     bind_res (try_convert th 48 (dtcb_rtmr0 t)) (\<lambda>rtmr0.
     bind_res (try_convert th 48 (dtcb_rtmr1 t)) (\<lambda>rtmr1.
     bind_res (try_convert th 48 (dtcb_rtmr2 t)) (\<lambda>rtmr2.
     bind_res (try_convert th 48 (dtcb_rtmr3 t)) (\<lambda>rtmr3.
     bind_res (try_convert th 32 (dtcb_compose_hash t)) (\<lambda>compose_hash.
     bind_res (try_convert th 32 (dtcb_device_id t)) (\<lambda>device_id.
     Inr \<lparr>tcb_mrtd = mrtd, tcb_rtmr0 = rtmr0, tcb_rtmr1 = rtmr1, tcb_rtmr2 = rtmr2, tcb_rtmr3 = rtmr3,
          tcb_os_image_hash = os_image_hash, tcb_compose_hash = compose_hash, tcb_device_id = device_id,
          tcb_app_compose = dtcb_app_compose t, tcb_event_log = event_log\<rparr>)))))))))"

definition collateral_of_dto :: "dto_collateral \<Rightarrow> quote_collateral" where
  "collateral_of_dto c =
     \<lparr>qc_tcb_info_issuer_chain = dqc_tcb_info_issuer_chain c, qc_tcb_info = dqc_tcb_info c,
      qc_tcb_info_signature = dqc_tcb_info_signature c, qc_qe_identity_issuer_chain = dqc_qe_identity_issuer_chain c,
      qc_qe_identity = dqc_qe_identity c, qc_qe_identity_signature = dqc_qe_identity_signature c,
      qc_pck_crl_issuer_chain = dqc_pck_crl_issuer_chain c, qc_root_ca_crl = dqc_root_ca_crl c,
      qc_pck_crl = dqc_pck_crl c, qc_pck_certificate_chain = dqc_pck_certificate_chain c\<rparr>"

definition dstack_attestation_of_dto :: "tee_libs \<Rightarrow> dto_dstack_attestation \<Rightarrow> dstack_attestation res" where
  "dstack_attestation_of_dto th d =
     bind_res (tcb_info_of_dto th (dda_tcb_info d)) (\<lambda>tcb.
     Inr \<lparr>da_quote = dda_quote d, da_collateral = collateral_of_dto (dda_collateral d), da_tcb_info = tcb\<rparr>)"

definition mock_attestation_of_dto :: "dto_mock_attestation \<Rightarrow> mock_attestation" where
  "mock_attestation_of_dto m = (case m of
       DtoMockValid \<Rightarrow> MockValid
     | DtoMockInvalid \<Rightarrow> MockInvalid
     | DtoMockWithConstraints h l e \<Rightarrow> MockWithConstraints h l e)"

definition attestation_of_dto :: "tee_libs \<Rightarrow> dto_attestation \<Rightarrow> attestation res" where
  "attestation_of_dto th a = (case a of
       DtoDstack d \<Rightarrow> bind_res (dstack_attestation_of_dto th d) (Inr \<circ> AttDstack)
     | DtoMock m \<Rightarrow> Inr (AttMock (mock_attestation_of_dto m)))"

definition dto_of_event_log :: "tee_libs \<Rightarrow> event_log \<Rightarrow> dto_event_log" where
  "dto_of_event_log th e =
     \<lparr>dev_imr = ev_imr e, dev_event_type = ev_event_type e, dev_digest = th_hex_encode th (ev_digest e),
      dev_event = ev_event e, dev_event_payload = ev_event_payload e\<rparr>"

definition dto_of_tcb_info :: "tee_libs \<Rightarrow> tcb_info \<Rightarrow> dto_tcb_info" where
  "dto_of_tcb_info th t =
     \<lparr>dtcb_mrtd = th_hex_encode th (tcb_mrtd t), dtcb_rtmr0 = th_hex_encode th (tcb_rtmr0 t),
      dtcb_rtmr1 = th_hex_encode th (tcb_rtmr1 t), dtcb_rtmr2 = th_hex_encode th (tcb_rtmr2 t),
      dtcb_rtmr3 = th_hex_encode th (tcb_rtmr3 t),
      dtcb_os_image_hash = (case tcb_os_image_hash t of Some v \<Rightarrow> th_hex_encode th v | None \<Rightarrow> []),
      dtcb_compose_hash = th_hex_encode th (tcb_compose_hash t),
      dtcb_device_id = th_hex_encode th (tcb_device_id t), dtcb_app_compose = tcb_app_compose t,
      dtcb_event_log = map (dto_of_event_log th) (tcb_event_log t)\<rparr>"

definition dto_of_collateral :: "quote_collateral \<Rightarrow> dto_collateral" where
  "dto_of_collateral c =
     \<lparr>dqc_tcb_info_issuer_chain = qc_tcb_info_issuer_chain c, dqc_tcb_info = qc_tcb_info c,
      dqc_tcb_info_signature = qc_tcb_info_signature c, dqc_qe_identity_issuer_chain = qc_qe_identity_issuer_chain c,
      dqc_qe_identity = qc_qe_identity c, dqc_qe_identity_signature = qc_qe_identity_signature c,
      dqc_pck_crl_issuer_chain = qc_pck_crl_issuer_chain c, dqc_root_ca_crl = qc_root_ca_crl c,
      dqc_pck_crl = qc_pck_crl c, dqc_pck_certificate_chain = qc_pck_certificate_chain c\<rparr>"

definition dto_of_dstack_attestation :: "tee_libs \<Rightarrow> dstack_attestation \<Rightarrow> dto_dstack_attestation" where
  "dto_of_dstack_attestation th d =
     \<lparr>dda_quote = da_quote d, dda_collateral = dto_of_collateral (da_collateral d),
      dda_tcb_info = dto_of_tcb_info th (da_tcb_info d)\<rparr>"

definition dto_of_mock_attestation :: "mock_attestation \<Rightarrow> dto_mock_attestation" where
  "dto_of_mock_attestation m = (case m of
       MockValid \<Rightarrow> DtoMockValid
     | MockInvalid \<Rightarrow> DtoMockInvalid
     | MockWithConstraints h l e \<Rightarrow> DtoMockWithConstraints h l e)"

definition dto_of_verified_attestation :: "verified_attestation \<Rightarrow> dto_verified_attestation" where
  "dto_of_verified_attestation v = (case v of
       VerMock m \<Rightarrow> DtoVerifiedMock (dto_of_mock_attestation m)
     | VerDstack d \<Rightarrow> DtoVerifiedDstack (vd_mpc_image_hash d) (vd_launcher_compose_hash d)
         (vd_expiry_timestamp_seconds d))"

section \<open>Round trip\<close>

text \<open>The byte arrays of the contract's types have the sizes of their types.\<close>

definition sized_event :: "event_log \<Rightarrow> bool" where
  "sized_event e \<longleftrightarrow> length (ev_digest e) = 48"

definition sized_tcb_info :: "tcb_info \<Rightarrow> bool" where
  "sized_tcb_info t \<longleftrightarrow>
     length (tcb_mrtd t) = 48 \<and> length (tcb_rtmr0 t) = 48 \<and> length (tcb_rtmr1 t) = 48 \<and>
     length (tcb_rtmr2 t) = 48 \<and> length (tcb_rtmr3 t) = 48 \<and>
     (\<forall>h \<in> set_option (tcb_os_image_hash t). length h = 32) \<and>
     length (tcb_compose_hash t) = 32 \<and> length (tcb_device_id t) = 32 \<and>
     list_all sized_event (tcb_event_log t)"

text \<open>What the documentation of \<^verbatim>\<open>hex\<close> says of encoding and decoding.\<close>

definition hex_laws :: "tee_libs \<Rightarrow> bool" where
  "hex_laws th \<longleftrightarrow> (\<forall>bs. th_hex_decode th (th_hex_encode th bs) = Some bs \<and>
     length (th_hex_encode th bs) = 2 * length bs)"

lemma try_convert_encode: "hex_laws th \<Longrightarrow> length bs = n \<Longrightarrow> try_convert th n (th_hex_encode th bs) = Inr bs"
  by (simp add: hex_laws_def try_convert_def hex_bytes_try_from_def)

text \<open>A converted string has the length of its type, twice over.\<close>

lemma try_convert_Inr:
  "try_convert th n s = Inr bs \<Longrightarrow> length bs = n \<and> length s = 2 * n \<and> th_hex_decode th s = Some bs"
  by (auto simp: try_convert_def hex_bytes_try_from_def split: sum.splits if_splits option.splits)

lemma event_logs_roundtrip:
  "hex_laws th \<Longrightarrow> list_all sized_event es \<Longrightarrow> event_logs_of_dto th (map (dto_of_event_log th) es) = Inr es"
  by (induction es) (simp_all add: event_log_of_dto_def dto_of_event_log_def sized_event_def try_convert_encode)

lemma tcb_info_roundtrip:
  assumes "hex_laws th" "sized_tcb_info t"
  shows "tcb_info_of_dto th (dto_of_tcb_info th t) = Inr t"
proof -
  have os: "(if dtcb_os_image_hash (dto_of_tcb_info th t) = [] then Inr None
       else bind_res (try_convert th 32 (dtcb_os_image_hash (dto_of_tcb_info th t))) (Inr \<circ> Some)) =
     Inr (tcb_os_image_hash t)"
  proof (cases "tcb_os_image_hash t")
    case (Some h)
    then have "length h = 32" using assms(2) by (simp add: sized_tcb_info_def)
    with assms(1) have "length (th_hex_encode th h) = 64"
      by (simp add: hex_laws_def)
    then have "th_hex_encode th h \<noteq> []" by auto
    with Some try_convert_encode [OF assms(1) \<open>length h = 32\<close>] show ?thesis
      by (simp add: dto_of_tcb_info_def)
  qed (simp add: dto_of_tcb_info_def)
  have logs: "event_logs_of_dto th (dtcb_event_log (dto_of_tcb_info th t)) = Inr (tcb_event_log t)"
    using assms event_logs_roundtrip by (simp add: dto_of_tcb_info_def sized_tcb_info_def)
  show ?thesis
    unfolding tcb_info_of_dto_def os logs
    using assms by (simp add: dto_of_tcb_info_def try_convert_encode sized_tcb_info_def)
qed

text \<open>
  C17. An attestation survives the wire format: converting a Dstack attestation whose digests have the
  sizes of their types to the interface type and back gives the attestation itself, with its event log
  in order and with an absent OS image hash still absent. The documented laws of hex encoding are all
  that is assumed.
\<close>

theorem attestation_dto_roundtrip:
  assumes "hex_laws th" "sized_tcb_info (da_tcb_info d)"
  shows "attestation_of_dto th (DtoDstack (dto_of_dstack_attestation th d)) = Inr (AttDstack d)"
  using tcb_info_roundtrip [OF assms]
  by (simp add: attestation_of_dto_def dstack_attestation_of_dto_def dto_of_dstack_attestation_def
      collateral_of_dto_def dto_of_collateral_def)

section \<open>An instance\<close>

definition hex_digit :: "nat \<Rightarrow> char" where
  "hex_digit n = (if n < 10 then char_of (48 + n) else char_of (87 + n))"

definition hex_value :: "char \<Rightarrow> nat option" where
  "hex_value c = (let n = of_char c :: nat in
     if 48 \<le> n \<and> n \<le> 57 then Some (n - 48) else if 97 \<le> n \<and> n \<le> 102 then Some (n - 87) else None)"

definition lower_hex_encode :: "byte list \<Rightarrow> string" where
  "lower_hex_encode bs = concat (map (\<lambda>b. [hex_digit (unat b div 16), hex_digit (unat b mod 16)]) bs)"

fun lower_hex_decode :: "string \<Rightarrow> byte list option" where
  "lower_hex_decode [] = Some []"
| "lower_hex_decode [c] = None"
| "lower_hex_decode (c # d # cs) =
     (case (hex_value c, hex_value d, lower_hex_decode cs) of
        (Some x, Some y, Some bs) \<Rightarrow> Some (of_nat (16 * x + y) # bs) | _ \<Rightarrow> None)"

lemma hex_value_digit: "n < 16 \<Longrightarrow> hex_value (hex_digit n) = Some n"
  by (simp add: hex_value_def hex_digit_def Let_def)

lemma lower_hex_inverse: "lower_hex_decode (lower_hex_encode bs) = Some bs"
proof (induction bs)
  case (Cons b bs)
  have "unat b < 256" using unsigned_less [of b] by simp
  then have "hex_value (hex_digit (unat b div 16)) = Some (unat b div 16)" by (intro hex_value_digit) simp
  moreover have "hex_value (hex_digit (unat b mod 16)) = Some (unat b mod 16)" by (intro hex_value_digit) simp
  moreover have "of_nat (16 * (unat b div 16) + unat b mod 16) = b" by simp
  ultimately show ?case
    using Cons.IH by (simp add: lower_hex_encode_def del: of_nat_add of_nat_mult)
qed (simp add: lower_hex_encode_def)

definition hex_libs :: tee_libs where
  "hex_libs = toy_libs\<lparr>th_hex_encode := lower_hex_encode, th_hex_decode := lower_hex_decode\<rparr>"

lemma hex_libs_laws: "hex_laws hex_libs"
proof -
  have "length (lower_hex_encode bs) = 2 * length bs" for bs
    by (induction bs) (simp_all add: lower_hex_encode_def)
  then show ?thesis by (simp add: hex_laws_def hex_libs_def lower_hex_inverse)
qed

definition ex_sized_dstack :: dstack_attestation where
  "ex_sized_dstack = (toy_dstack [1] [])\<lparr>da_tcb_info :=
     \<lparr>tcb_mrtd = replicate 48 1, tcb_rtmr0 = replicate 48 2, tcb_rtmr1 = replicate 48 3,
      tcb_rtmr2 = replicate 48 4, tcb_rtmr3 = replicate 48 5, tcb_os_image_hash = None,
      tcb_compose_hash = replicate 32 6, tcb_device_id = replicate 32 255, tcb_app_compose = ''compose'',
      tcb_event_log = toy_events\<rparr>\<rparr>"

theorem attestation_dto_roundtrip_witness:
  "attestation_of_dto hex_libs (DtoDstack (dto_of_dstack_attestation hex_libs ex_sized_dstack)) =
     Inr (AttDstack ex_sized_dstack)"
proof (rule attestation_dto_roundtrip [OF hex_libs_laws])
  show "sized_tcb_info (da_tcb_info ex_sized_dstack)"
    by (simp add: sized_tcb_info_def ex_sized_dstack_def toy_dstack_def toy_events_def toy_event_def
        sized_event_def length_toy_sha384)
qed

end
