(* ===== verification/Config.thy ===== *)
theory Config
  imports Host
begin

text \<open>
  The configuration of the contract (\<^verbatim>\<open>crates/contract/src/config.rs\<close>): its defaults, the optional
  overrides given at initialisation, and the conversions to and from the interface type. Every field
  is a \<^verbatim>\<open>u64\<close>.
\<close>

record config =
  cfg_key_event_timeout_blocks :: nat
  cfg_tee_upgrade_deadline_duration_seconds :: nat
  cfg_contract_upgrade_deposit_tera_gas :: nat
  cfg_sign_call_gas_attachment_requirement_tera_gas :: nat
  cfg_ckd_call_gas_attachment_requirement_tera_gas :: nat
  cfg_return_signature_and_clean_state_on_success_call_tera_gas :: nat
  cfg_return_ck_and_clean_state_on_success_call_tera_gas :: nat
  cfg_fail_on_timeout_tera_gas :: nat
  cfg_clean_tee_status_tera_gas :: nat
  cfg_cleanup_orphaned_node_migrations_tera_gas :: nat
  cfg_remove_non_participant_update_votes_tera_gas :: nat

text \<open>The configuration as the interface has it, and the overrides of an initialisation.\<close>

record dto_config =
  dcfg_key_event_timeout_blocks :: nat
  dcfg_tee_upgrade_deadline_duration_seconds :: nat
  dcfg_contract_upgrade_deposit_tera_gas :: nat
  dcfg_sign_call_gas_attachment_requirement_tera_gas :: nat
  dcfg_ckd_call_gas_attachment_requirement_tera_gas :: nat
  dcfg_return_signature_and_clean_state_on_success_call_tera_gas :: nat
  dcfg_return_ck_and_clean_state_on_success_call_tera_gas :: nat
  dcfg_fail_on_timeout_tera_gas :: nat
  dcfg_clean_tee_status_tera_gas :: nat
  dcfg_cleanup_orphaned_node_migrations_tera_gas :: nat
  dcfg_remove_non_participant_update_votes_tera_gas :: nat

record init_config =
  ic_key_event_timeout_blocks :: "nat option"
  ic_tee_upgrade_deadline_duration_seconds :: "nat option"
  ic_contract_upgrade_deposit_tera_gas :: "nat option"
  ic_sign_call_gas_attachment_requirement_tera_gas :: "nat option"
  ic_ckd_call_gas_attachment_requirement_tera_gas :: "nat option"
  ic_return_signature_and_clean_state_on_success_call_tera_gas :: "nat option"
  ic_return_ck_and_clean_state_on_success_call_tera_gas :: "nat option"
  ic_fail_on_timeout_tera_gas :: "nat option"
  ic_clean_tee_status_tera_gas :: "nat option"
  ic_cleanup_orphaned_node_migrations_tera_gas :: "nat option"
  ic_remove_non_participant_update_votes_tera_gas :: "nat option"

abbreviation DEFAULT_KEY_EVENT_TIMEOUT_BLOCKS :: nat where
  "DEFAULT_KEY_EVENT_TIMEOUT_BLOCKS \<equiv> 30"

abbreviation DEFAULT_TEE_UPGRADE_DEADLINE_DURATION_SECONDS :: nat where
  "DEFAULT_TEE_UPGRADE_DEADLINE_DURATION_SECONDS \<equiv> 7 * 24 * 60 * 60"

abbreviation DEFAULT_CONTRACT_UPGRADE_DEPOSIT_TERA_GAS :: nat where
  "DEFAULT_CONTRACT_UPGRADE_DEPOSIT_TERA_GAS \<equiv> 50"

abbreviation DEFAULT_SIGN_CALL_GAS_ATTACHMENT_REQUIREMENT_TERA_GAS :: nat where
  "DEFAULT_SIGN_CALL_GAS_ATTACHMENT_REQUIREMENT_TERA_GAS \<equiv> 15"

abbreviation DEFAULT_CKD_CALL_GAS_ATTACHMENT_REQUIREMENT_TERA_GAS :: nat where
  "DEFAULT_CKD_CALL_GAS_ATTACHMENT_REQUIREMENT_TERA_GAS \<equiv> 15"

abbreviation DEFAULT_RETURN_SIGNATURE_AND_CLEAN_STATE_ON_SUCCESS_CALL_TERA_GAS :: nat where
  "DEFAULT_RETURN_SIGNATURE_AND_CLEAN_STATE_ON_SUCCESS_CALL_TERA_GAS \<equiv> 7"

abbreviation DEFAULT_RETURN_CK_AND_CLEAN_STATE_ON_SUCCESS_CALL_TERA_GAS :: nat where
  "DEFAULT_RETURN_CK_AND_CLEAN_STATE_ON_SUCCESS_CALL_TERA_GAS \<equiv> 7"

abbreviation DEFAULT_FAIL_ON_TIMEOUT_TERA_GAS :: nat where
  "DEFAULT_FAIL_ON_TIMEOUT_TERA_GAS \<equiv> 2"

abbreviation DEFAULT_CLEAN_TEE_STATUS_TERA_GAS :: nat where
  "DEFAULT_CLEAN_TEE_STATUS_TERA_GAS \<equiv> 10"

abbreviation DEFAULT_CLEANUP_ORPHANED_NODE_MIGRATIONS_TERA_GAS :: nat where
  "DEFAULT_CLEANUP_ORPHANED_NODE_MIGRATIONS_TERA_GAS \<equiv> 3"

abbreviation DEFAULT_REMOVE_NON_PARTICIPANT_UPDATE_VOTES_TERA_GAS :: nat where
  "DEFAULT_REMOVE_NON_PARTICIPANT_UPDATE_VOTES_TERA_GAS \<equiv> 5"

definition config_default :: config where
  "config_default =
     \<lparr>cfg_key_event_timeout_blocks = DEFAULT_KEY_EVENT_TIMEOUT_BLOCKS,
      cfg_tee_upgrade_deadline_duration_seconds = DEFAULT_TEE_UPGRADE_DEADLINE_DURATION_SECONDS,
      cfg_contract_upgrade_deposit_tera_gas = DEFAULT_CONTRACT_UPGRADE_DEPOSIT_TERA_GAS,
      cfg_sign_call_gas_attachment_requirement_tera_gas = DEFAULT_SIGN_CALL_GAS_ATTACHMENT_REQUIREMENT_TERA_GAS,
      cfg_ckd_call_gas_attachment_requirement_tera_gas = DEFAULT_CKD_CALL_GAS_ATTACHMENT_REQUIREMENT_TERA_GAS,
      cfg_return_signature_and_clean_state_on_success_call_tera_gas = DEFAULT_RETURN_SIGNATURE_AND_CLEAN_STATE_ON_SUCCESS_CALL_TERA_GAS,
      cfg_return_ck_and_clean_state_on_success_call_tera_gas = DEFAULT_RETURN_CK_AND_CLEAN_STATE_ON_SUCCESS_CALL_TERA_GAS,
      cfg_fail_on_timeout_tera_gas = DEFAULT_FAIL_ON_TIMEOUT_TERA_GAS,
      cfg_clean_tee_status_tera_gas = DEFAULT_CLEAN_TEE_STATUS_TERA_GAS,
      cfg_cleanup_orphaned_node_migrations_tera_gas = DEFAULT_CLEANUP_ORPHANED_NODE_MIGRATIONS_TERA_GAS,
      cfg_remove_non_participant_update_votes_tera_gas = DEFAULT_REMOVE_NON_PARTICIPANT_UPDATE_VOTES_TERA_GAS\<rparr>"

text \<open>\<^verbatim>\<open>if let Some(v) = x { config.f = v; }\<close> for each field in turn.\<close>

definition override :: "nat option \<Rightarrow> (nat \<Rightarrow> config) \<Rightarrow> config \<Rightarrow> config" where
  "override x set_field config = (case x of Some v \<Rightarrow> set_field v | None \<Rightarrow> config)"

definition config_of_init :: "init_config \<Rightarrow> config" where
  "config_of_init ext = (let
       config = config_default;
       config = override (ic_key_event_timeout_blocks ext)
         (\<lambda>v. config\<lparr>cfg_key_event_timeout_blocks := v\<rparr>) config;
       config = override (ic_tee_upgrade_deadline_duration_seconds ext)
         (\<lambda>v. config\<lparr>cfg_tee_upgrade_deadline_duration_seconds := v\<rparr>) config;
       config = override (ic_contract_upgrade_deposit_tera_gas ext)
         (\<lambda>v. config\<lparr>cfg_contract_upgrade_deposit_tera_gas := v\<rparr>) config;
       config = override (ic_sign_call_gas_attachment_requirement_tera_gas ext)
         (\<lambda>v. config\<lparr>cfg_sign_call_gas_attachment_requirement_tera_gas := v\<rparr>) config;
       config = override (ic_ckd_call_gas_attachment_requirement_tera_gas ext)
         (\<lambda>v. config\<lparr>cfg_ckd_call_gas_attachment_requirement_tera_gas := v\<rparr>) config;
       config = override (ic_return_signature_and_clean_state_on_success_call_tera_gas ext)
         (\<lambda>v. config\<lparr>cfg_return_signature_and_clean_state_on_success_call_tera_gas := v\<rparr>) config;
       config = override (ic_return_ck_and_clean_state_on_success_call_tera_gas ext)
         (\<lambda>v. config\<lparr>cfg_return_ck_and_clean_state_on_success_call_tera_gas := v\<rparr>) config;
       config = override (ic_fail_on_timeout_tera_gas ext)
         (\<lambda>v. config\<lparr>cfg_fail_on_timeout_tera_gas := v\<rparr>) config;
       config = override (ic_clean_tee_status_tera_gas ext)
         (\<lambda>v. config\<lparr>cfg_clean_tee_status_tera_gas := v\<rparr>) config;
       config = override (ic_cleanup_orphaned_node_migrations_tera_gas ext)
         (\<lambda>v. config\<lparr>cfg_cleanup_orphaned_node_migrations_tera_gas := v\<rparr>) config;
       config = override (ic_remove_non_participant_update_votes_tera_gas ext)
         (\<lambda>v. config\<lparr>cfg_remove_non_participant_update_votes_tera_gas := v\<rparr>) config
     in config)"

definition dto_of_config :: "config \<Rightarrow> dto_config" where
  "dto_of_config c =
     \<lparr>dcfg_key_event_timeout_blocks = cfg_key_event_timeout_blocks c,
      dcfg_tee_upgrade_deadline_duration_seconds = cfg_tee_upgrade_deadline_duration_seconds c,
      dcfg_contract_upgrade_deposit_tera_gas = cfg_contract_upgrade_deposit_tera_gas c,
      dcfg_sign_call_gas_attachment_requirement_tera_gas = cfg_sign_call_gas_attachment_requirement_tera_gas c,
      dcfg_ckd_call_gas_attachment_requirement_tera_gas = cfg_ckd_call_gas_attachment_requirement_tera_gas c,
      dcfg_return_signature_and_clean_state_on_success_call_tera_gas = cfg_return_signature_and_clean_state_on_success_call_tera_gas c,
      dcfg_return_ck_and_clean_state_on_success_call_tera_gas = cfg_return_ck_and_clean_state_on_success_call_tera_gas c,
      dcfg_fail_on_timeout_tera_gas = cfg_fail_on_timeout_tera_gas c,
      dcfg_clean_tee_status_tera_gas = cfg_clean_tee_status_tera_gas c,
      dcfg_cleanup_orphaned_node_migrations_tera_gas = cfg_cleanup_orphaned_node_migrations_tera_gas c,
      dcfg_remove_non_participant_update_votes_tera_gas = cfg_remove_non_participant_update_votes_tera_gas c\<rparr>"

definition config_of_dto :: "dto_config \<Rightarrow> config" where
  "config_of_dto c =
     \<lparr>cfg_key_event_timeout_blocks = dcfg_key_event_timeout_blocks c,
      cfg_tee_upgrade_deadline_duration_seconds = dcfg_tee_upgrade_deadline_duration_seconds c,
      cfg_contract_upgrade_deposit_tera_gas = dcfg_contract_upgrade_deposit_tera_gas c,
      cfg_sign_call_gas_attachment_requirement_tera_gas = dcfg_sign_call_gas_attachment_requirement_tera_gas c,
      cfg_ckd_call_gas_attachment_requirement_tera_gas = dcfg_ckd_call_gas_attachment_requirement_tera_gas c,
      cfg_return_signature_and_clean_state_on_success_call_tera_gas = dcfg_return_signature_and_clean_state_on_success_call_tera_gas c,
      cfg_return_ck_and_clean_state_on_success_call_tera_gas = dcfg_return_ck_and_clean_state_on_success_call_tera_gas c,
      cfg_fail_on_timeout_tera_gas = dcfg_fail_on_timeout_tera_gas c,
      cfg_clean_tee_status_tera_gas = dcfg_clean_tee_status_tera_gas c,
      cfg_cleanup_orphaned_node_migrations_tera_gas = dcfg_cleanup_orphaned_node_migrations_tera_gas c,
      cfg_remove_non_participant_update_votes_tera_gas = dcfg_remove_non_participant_update_votes_tera_gas c\<rparr>"

section \<open>Facts\<close>

lemma override_simps [simp]: "override None g c = c" "override (Some v) g c = g v"
  by (simp_all add: override_def)

text \<open>Each override sets its own field and no other: a field without one has its default.\<close>

lemma override_field:
  "override x (\<lambda>v. c\<lparr>cfg_key_event_timeout_blocks := v\<rparr>) c =
     c\<lparr>cfg_key_event_timeout_blocks := case x of None \<Rightarrow> cfg_key_event_timeout_blocks c | Some v \<Rightarrow> v\<rparr>"
  "override x (\<lambda>v. c\<lparr>cfg_tee_upgrade_deadline_duration_seconds := v\<rparr>) c =
     c\<lparr>cfg_tee_upgrade_deadline_duration_seconds := case x of None \<Rightarrow> cfg_tee_upgrade_deadline_duration_seconds c | Some v \<Rightarrow> v\<rparr>"
  "override x (\<lambda>v. c\<lparr>cfg_contract_upgrade_deposit_tera_gas := v\<rparr>) c =
     c\<lparr>cfg_contract_upgrade_deposit_tera_gas := case x of None \<Rightarrow> cfg_contract_upgrade_deposit_tera_gas c | Some v \<Rightarrow> v\<rparr>"
  "override x (\<lambda>v. c\<lparr>cfg_sign_call_gas_attachment_requirement_tera_gas := v\<rparr>) c =
     c\<lparr>cfg_sign_call_gas_attachment_requirement_tera_gas := case x of None \<Rightarrow> cfg_sign_call_gas_attachment_requirement_tera_gas c | Some v \<Rightarrow> v\<rparr>"
  "override x (\<lambda>v. c\<lparr>cfg_ckd_call_gas_attachment_requirement_tera_gas := v\<rparr>) c =
     c\<lparr>cfg_ckd_call_gas_attachment_requirement_tera_gas := case x of None \<Rightarrow> cfg_ckd_call_gas_attachment_requirement_tera_gas c | Some v \<Rightarrow> v\<rparr>"
  "override x (\<lambda>v. c\<lparr>cfg_return_signature_and_clean_state_on_success_call_tera_gas := v\<rparr>) c =
     c\<lparr>cfg_return_signature_and_clean_state_on_success_call_tera_gas := case x of None \<Rightarrow> cfg_return_signature_and_clean_state_on_success_call_tera_gas c | Some v \<Rightarrow> v\<rparr>"
  "override x (\<lambda>v. c\<lparr>cfg_return_ck_and_clean_state_on_success_call_tera_gas := v\<rparr>) c =
     c\<lparr>cfg_return_ck_and_clean_state_on_success_call_tera_gas := case x of None \<Rightarrow> cfg_return_ck_and_clean_state_on_success_call_tera_gas c | Some v \<Rightarrow> v\<rparr>"
  "override x (\<lambda>v. c\<lparr>cfg_fail_on_timeout_tera_gas := v\<rparr>) c =
     c\<lparr>cfg_fail_on_timeout_tera_gas := case x of None \<Rightarrow> cfg_fail_on_timeout_tera_gas c | Some v \<Rightarrow> v\<rparr>"
  "override x (\<lambda>v. c\<lparr>cfg_clean_tee_status_tera_gas := v\<rparr>) c =
     c\<lparr>cfg_clean_tee_status_tera_gas := case x of None \<Rightarrow> cfg_clean_tee_status_tera_gas c | Some v \<Rightarrow> v\<rparr>"
  "override x (\<lambda>v. c\<lparr>cfg_cleanup_orphaned_node_migrations_tera_gas := v\<rparr>) c =
     c\<lparr>cfg_cleanup_orphaned_node_migrations_tera_gas := case x of None \<Rightarrow> cfg_cleanup_orphaned_node_migrations_tera_gas c | Some v \<Rightarrow> v\<rparr>"
  "override x (\<lambda>v. c\<lparr>cfg_remove_non_participant_update_votes_tera_gas := v\<rparr>) c =
     c\<lparr>cfg_remove_non_participant_update_votes_tera_gas := case x of None \<Rightarrow> cfg_remove_non_participant_update_votes_tera_gas c | Some v \<Rightarrow> v\<rparr>"
  by (cases x; simp)+

lemma config_of_init_fields:
  "cfg_key_event_timeout_blocks (config_of_init ext) =
     (case ic_key_event_timeout_blocks ext of None \<Rightarrow> cfg_key_event_timeout_blocks config_default | Some v \<Rightarrow> v)"
  "cfg_tee_upgrade_deadline_duration_seconds (config_of_init ext) =
     (case ic_tee_upgrade_deadline_duration_seconds ext of None \<Rightarrow> cfg_tee_upgrade_deadline_duration_seconds config_default | Some v \<Rightarrow> v)"
  "cfg_contract_upgrade_deposit_tera_gas (config_of_init ext) =
     (case ic_contract_upgrade_deposit_tera_gas ext of None \<Rightarrow> cfg_contract_upgrade_deposit_tera_gas config_default | Some v \<Rightarrow> v)"
  "cfg_sign_call_gas_attachment_requirement_tera_gas (config_of_init ext) =
     (case ic_sign_call_gas_attachment_requirement_tera_gas ext of None \<Rightarrow> cfg_sign_call_gas_attachment_requirement_tera_gas config_default | Some v \<Rightarrow> v)"
  "cfg_ckd_call_gas_attachment_requirement_tera_gas (config_of_init ext) =
     (case ic_ckd_call_gas_attachment_requirement_tera_gas ext of None \<Rightarrow> cfg_ckd_call_gas_attachment_requirement_tera_gas config_default | Some v \<Rightarrow> v)"
  "cfg_return_signature_and_clean_state_on_success_call_tera_gas (config_of_init ext) =
     (case ic_return_signature_and_clean_state_on_success_call_tera_gas ext of None \<Rightarrow> cfg_return_signature_and_clean_state_on_success_call_tera_gas config_default | Some v \<Rightarrow> v)"
  "cfg_return_ck_and_clean_state_on_success_call_tera_gas (config_of_init ext) =
     (case ic_return_ck_and_clean_state_on_success_call_tera_gas ext of None \<Rightarrow> cfg_return_ck_and_clean_state_on_success_call_tera_gas config_default | Some v \<Rightarrow> v)"
  "cfg_fail_on_timeout_tera_gas (config_of_init ext) =
     (case ic_fail_on_timeout_tera_gas ext of None \<Rightarrow> cfg_fail_on_timeout_tera_gas config_default | Some v \<Rightarrow> v)"
  "cfg_clean_tee_status_tera_gas (config_of_init ext) =
     (case ic_clean_tee_status_tera_gas ext of None \<Rightarrow> cfg_clean_tee_status_tera_gas config_default | Some v \<Rightarrow> v)"
  "cfg_cleanup_orphaned_node_migrations_tera_gas (config_of_init ext) =
     (case ic_cleanup_orphaned_node_migrations_tera_gas ext of None \<Rightarrow> cfg_cleanup_orphaned_node_migrations_tera_gas config_default | Some v \<Rightarrow> v)"
  "cfg_remove_non_participant_update_votes_tera_gas (config_of_init ext) =
     (case ic_remove_non_participant_update_votes_tera_gas ext of None \<Rightarrow> cfg_remove_non_participant_update_votes_tera_gas config_default | Some v \<Rightarrow> v)"
  by (simp_all only: config_of_init_def Let_def override_field) (simp_all cong: option.case_cong)

lemma config_dto_inverse [simp]: "config_of_dto (dto_of_config c) = c"
  by (simp add: config_of_dto_def dto_of_config_def)

lemma dto_config_inverse [simp]: "dto_of_config (config_of_dto c) = c"
  by (simp add: config_of_dto_def dto_of_config_def)

end
