(* ===== verification/Requests.thy ===== *)
theory Requests
  imports Config Crypto Domains
begin

text \<open>
  The requests users make and what the nodes answer: \<^verbatim>\<open>primitives/signature.rs\<close>,
  \<^verbatim>\<open>primitives/ckd.rs\<close> and \<^verbatim>\<open>crypto_shared/types.rs\<close> of \<^verbatim>\<open>crates/contract\<close>, the interface types
  \<^verbatim>\<open>types/sign.rs\<close>, \<^verbatim>\<open>types/ckd.rs\<close>, \<^verbatim>\<open>types/metrics.rs\<close> and \<^verbatim>\<open>types/foreign_chain.rs\<close> of
  \<^verbatim>\<open>crates/near-mpc-contract-interface\<close>, and the promises a call hands to the runtime.
\<close>

section \<open>Payloads\<close>

abbreviation ECDSA_PAYLOAD_SIZE_BYTES :: nat where
  "ECDSA_PAYLOAD_SIZE_BYTES \<equiv> 32"

abbreviation EDDSA_PAYLOAD_SIZE_LOWER_BOUND_BYTES :: nat where
  "EDDSA_PAYLOAD_SIZE_LOWER_BOUND_BYTES \<equiv> 32"

abbreviation EDDSA_PAYLOAD_SIZE_UPPER_BOUND_BYTES :: nat where
  "EDDSA_PAYLOAD_SIZE_UPPER_BOUND_BYTES \<equiv> 1232"

text \<open>A \<^verbatim>\<open>Bytes<MIN_LEN, MAX_LEN>\<close> is its bytes; the bounds are those of its constructor in the payload.\<close>

datatype payload = PayloadEcdsa "byte list" | PayloadEddsa "byte list"

definition bytes_new :: "nat \<Rightarrow> nat \<Rightarrow> byte list \<Rightarrow> byte list res" where
  "bytes_new min_len max_len bytes =
     (if length bytes < min_len \<or> length bytes > max_len then Inl (Err (InvalidParameters MalformedPayload))
      else Inr bytes)"

definition as_fixed_bytes :: "nat \<Rightarrow> byte list \<Rightarrow> byte list res" where
  "as_fixed_bytes n bytes = (if length bytes = n then Inr bytes else Inl (Panic UnwrapFailed))"

text \<open>\<^verbatim>\<open>unwrap\<close> and \<^verbatim>\<open>expect\<close> turn an error into a panic.\<close>

definition unwrap :: "'a res \<Rightarrow> 'a res" where
  "unwrap r = (case r of Inl (Err _) \<Rightarrow> Inl (Panic UnwrapFailed) | _ \<Rightarrow> r)"

definition from_legacy_ecdsa :: "byte list \<Rightarrow> payload res" where
  "from_legacy_ecdsa bytes =
     bind_res (unwrap (bytes_new ECDSA_PAYLOAD_SIZE_BYTES ECDSA_PAYLOAD_SIZE_BYTES bytes))
       (Inr \<circ> PayloadEcdsa)"

definition as_ecdsa :: "payload \<Rightarrow> byte list option res" where
  "as_ecdsa p = (case p of
       PayloadEcdsa bytes \<Rightarrow> bind_res (as_fixed_bytes ECDSA_PAYLOAD_SIZE_BYTES bytes) (Inr \<circ> Some)
     | PayloadEddsa _ \<Rightarrow> Inr None)"

definition as_eddsa :: "payload \<Rightarrow> byte list option" where
  "as_eddsa p = (case p of PayloadEcdsa _ \<Rightarrow> None | PayloadEddsa bytes \<Rightarrow> Some bytes)"

section \<open>Signature requests\<close>

type_synonym crypto_hash = "byte list"

record yield_index =
  yi_data_id :: crypto_hash

record signature_request =
  sr_tweak :: tweak
  sr_payload :: payload
  sr_domain_id :: domain_id

definition signature_request_new ::
  "crypto \<Rightarrow> domain_id \<Rightarrow> payload \<Rightarrow> account_id \<Rightarrow> string \<Rightarrow> signature_request" where
  "signature_request_new cr domain payload predecessor_id path =
     \<lparr>sr_tweak = derive_tweak cr predecessor_id path, sr_payload = payload, sr_domain_id = domain\<rparr>"

record sign_request_args =
  sra_path :: string
  sra_payload_v2 :: "payload option"
  sra_deprecated_payload :: "byte list option"
  sra_domain_id :: "domain_id option"
  sra_deprecated_key_version :: "nat option"

record sign_request =
  srq_payload :: payload
  srq_path :: string
  srq_domain_id :: domain_id

definition sign_request_try_from :: "sign_request_args \<Rightarrow> sign_request res" where
  "sign_request_try_from args =
     bind_res (case (sra_payload_v2 args, sra_deprecated_payload args) of
         (Some payload, None) \<Rightarrow> Inr payload
       | (None, Some payload) \<Rightarrow> from_legacy_ecdsa payload
       | _ \<Rightarrow> Inl (Err (InvalidParameters MalformedPayload))) (\<lambda>payload.
     bind_res (case (sra_domain_id args, sra_deprecated_key_version args) of
         (Some domain_id, None) \<Rightarrow> Inr domain_id
       | (None, Some key_version) \<Rightarrow> Inr key_version
       | _ \<Rightarrow> Inl (Err (InvalidParameters InvalidDomainId))) (\<lambda>domain_id.
     Inr \<lparr>srq_payload = payload, srq_path = sra_path args, srq_domain_id = domain_id\<rparr>))"

record metrics =
  mt_sign_with_v1_payload_count :: nat
  mt_sign_with_v2_payload_count :: nat

section \<open>Confidential key derivation requests\<close>

record ckd_request_args =
  cka_derivation_path :: string
  cka_app_public_key :: "byte list"
  cka_domain_id :: domain_id

record ckd_request =
  ckr_app_public_key :: "byte list"
  ckr_app_id :: "byte list"
  ckr_domain_id :: domain_id

record ckd_response =
  ckp_big_y :: "byte list"
  ckp_big_c :: "byte list"

definition ckd_request_new ::
  "crypto \<Rightarrow> byte list \<Rightarrow> domain_id \<Rightarrow> account_id \<Rightarrow> string \<Rightarrow> ckd_request" where
  "ckd_request_new cr app_public_key domain_id predecessor_id path =
     \<lparr>ckr_app_public_key = app_public_key, ckr_app_id = derive_app_id cr predecessor_id path,
      ckr_domain_id = domain_id\<rparr>"

section \<open>Foreign chain requests\<close>

datatype evm_finality = EvmLatest | EvmSafe | EvmFinalized

datatype solana_finality = SolProcessed | SolConfirmed | SolFinalized

datatype starknet_finality = AcceptedOnL2 | AcceptedOnL1

datatype evm_extractor = EvmBlockHash | EvmLog nat

datatype solana_extractor = SolanaProgramIdIndex nat | SolanaDataHash nat

datatype bitcoin_extractor = BtcBlockHash

datatype starknet_extractor = StarkBlockHash | StarkLog nat

record evm_rpc_request =
  evm_tx_id :: "byte list"
  evm_extractors :: "evm_extractor list"
  evm_req_finality :: evm_finality

record solana_rpc_request =
  sol_tx_id :: "byte list"
  sol_req_finality :: solana_finality
  sol_extractors :: "solana_extractor list"

record bitcoin_rpc_request =
  btc_tx_id :: "byte list"
  btc_confirmations :: nat
  btc_extractors :: "bitcoin_extractor list"

record starknet_rpc_request =
  stark_tx_id :: "byte list"
  stark_req_finality :: starknet_finality
  stark_extractors :: "starknet_extractor list"

datatype foreign_chain_rpc_request =
  RpcAbstract evm_rpc_request
| RpcEthereum evm_rpc_request
| RpcSolana solana_rpc_request
| RpcBitcoin bitcoin_rpc_request
| RpcStarknet starknet_rpc_request

fun request_chain :: "foreign_chain_rpc_request \<Rightarrow> foreign_chain" where
  "request_chain (RpcAbstract _) = Abstract"
| "request_chain (RpcEthereum _) = Ethereum"
| "request_chain (RpcSolana _) = Solana"
| "request_chain (RpcBitcoin _) = Bitcoin"
| "request_chain (RpcStarknet _) = Starknet"

datatype foreign_tx_payload_version = PayloadV1

record verify_foreign_tx_request_args =
  vfa_request :: foreign_chain_rpc_request
  vfa_domain_id :: domain_id
  vfa_payload_version :: foreign_tx_payload_version

record verify_foreign_tx_request =
  vfr_request :: foreign_chain_rpc_request
  vfr_domain_id :: domain_id
  vfr_payload_version :: foreign_tx_payload_version

record verify_foreign_tx_response =
  vfp_payload_hash :: "byte list"
  vfp_signature :: signature_response

definition args_into_verify_foreign_tx_request ::
  "verify_foreign_tx_request_args \<Rightarrow> verify_foreign_tx_request" where
  "args_into_verify_foreign_tx_request args =
     \<lparr>vfr_request = vfa_request args, vfr_domain_id = vfa_domain_id args,
      vfr_payload_version = vfa_payload_version args\<rparr>"

text \<open>A policy gives each chain its RPC providers, by their URL.\<close>

record foreign_chain_policy =
  fcp_chains :: "(foreign_chain, string list) amap"

definition foreign_chain_policy_default :: foreign_chain_policy where
  "foreign_chain_policy_default = \<lparr>fcp_chains = []\<rparr>"

record foreign_chain_policy_votes =
  fcv_proposal_by_account :: "(account_id, foreign_chain_policy) amap"

section \<open>Promises\<close>

text \<open>
  What a call hands to the runtime. Serialised arguments and results are kept as the values they
  serialise. \<open>Batch\<close> is a promise on an account with its actions in order, \<open>YieldCreate\<close> the
  promise of \<^verbatim>\<open>env::promise_yield_create\<close> with the data id written to the register, and
  \<open>YieldResume\<close> a call of \<^verbatim>\<open>env::promise_yield_resume\<close>.
\<close>

datatype call_args =
  NoArgs
| ConfigArgs dto_config
| SignArgs signature_request
| CkdArgs ckd_request
| ForeignTxArgs verify_foreign_tx_request

datatype yield_result =
  SignResult signature_response
| CkdResult ckd_response
| ForeignTxResult verify_foreign_tx_response

datatype promise_action =
  Transfer nat
| DeployContract "byte list"
| FunctionCall string call_args nat nat

datatype promise_effect =
  Batch account_id "promise_action list"
| YieldCreate string call_args nat crypto_hash
| YieldResume crypto_hash yield_result

text \<open>The refund of the part of a deposit that exceeds what is required.\<close>

definition refund :: "account_id \<Rightarrow> nat \<Rightarrow> promise_effect list" where
  "refund account_id diff = (if diff > 0 then [Batch account_id [Transfer diff]] else [])"

section \<open>Facts\<close>

lemma unwrap_Inr [simp]: "unwrap r = Inr x \<longleftrightarrow> r = Inr x"
  by (auto simp: unwrap_def split: sum.splits abort.splits)

lemma unwrap_no_Err: "unwrap r \<noteq> Inl (Err e)"
  by (auto simp: unwrap_def split: sum.splits abort.splits)

lemma as_ecdsa_Inr [simp]: "as_ecdsa p = Inr (Some h) \<longleftrightarrow> p = PayloadEcdsa h \<and> length h = 32"
  by (auto simp: as_ecdsa_def as_fixed_bytes_def res_simps split: payload.splits)

lemma as_eddsa_Some [simp]: "as_eddsa p = Some m \<longleftrightarrow> p = PayloadEddsa m"
  by (cases p) (auto simp: as_eddsa_def)

text \<open>
  A converted request carries exactly one payload and exactly one domain; the legacy fields give the
  same request as the current ones.
\<close>

lemma sign_request_try_from_Inr:
  "sign_request_try_from args = Inr r \<longleftrightarrow>
     srq_path r = sra_path args \<and>
     ((sra_payload_v2 args = Some (srq_payload r) \<and> sra_deprecated_payload args = None) \<or>
      (sra_payload_v2 args = None \<and> (\<exists>h. sra_deprecated_payload args = Some h \<and> length h = 32 \<and>
         srq_payload r = PayloadEcdsa h))) \<and>
     ((sra_domain_id args = Some (srq_domain_id r) \<and> sra_deprecated_key_version args = None) \<or>
      (sra_domain_id args = None \<and> sra_deprecated_key_version args = Some (srq_domain_id r)))"
  by (cases r)
    (auto simp: sign_request_try_from_def from_legacy_ecdsa_def bytes_new_def
      res_simps split: option.splits if_splits)

end
