(* ===== verification/Updates.thy ===== *)
theory Updates
  imports Requests Participants Dstack
begin

text \<open>
  Proposed updates of the contract's code or configuration (\<^verbatim>\<open>crates/contract/src/update.rs\<close>): the
  entries by update id, one vote per account, and the promise that carries out an update. What
  \<^verbatim>\<open>size_of\<close> and \<^verbatim>\<open>serde_json\<close> say of the layout is an argument.
\<close>

record update_layout =
  ul_size_of_update_entry :: nat
  ul_size_of_account_id :: nat
  ul_config_json :: "dto_config \<Rightarrow> byte list"

type_synonym update_id = nat

definition update_id_generate :: "update_id \<Rightarrow> (update_id \<times> update_id) res" where
  "update_id_generate self = bind_res (add_u 64 self 1) (\<lambda>self'. Inr (self', self))"

datatype update = ContractUpdate "byte list" | ConfigUpdate dto_config

record propose_update_args =
  pa_code :: "byte list option"
  pa_config :: "dto_config option"

definition update_try_from :: "propose_update_args \<Rightarrow> update res" where
  "update_try_from args = (case (pa_code args, pa_config args) of
       (Some contract, None) \<Rightarrow> Inr (ContractUpdate contract)
     | (None, Some config) \<Rightarrow> Inr (ConfigUpdate config)
     | (Some _, Some _) \<Rightarrow> Inl (Err (ConversionError DataConversion))
     | (None, None) \<Rightarrow> Inl (Err (ConversionError DataConversion)))"

record update_entry =
  ue_update :: update
  ue_bytes_used :: nat

record proposed_updates =
  pu_vote_by_participant :: "(account_id, update_id) amap"
  pu_entries :: "(update_id, update_entry) amap"
  pu_id :: update_id

definition proposed_updates_default :: proposed_updates where
  "proposed_updates_default = \<lparr>pu_vote_by_participant = [], pu_entries = [], pu_id = 0\<rparr>"

definition bytes_used :: "update_layout \<Rightarrow> update \<Rightarrow> nat res" where
  "bytes_used lay update =
     bind_res (mul_u 128 128 (ul_size_of_account_id lay)) (\<lambda>votes.
     bind_res (add_u 128 (ul_size_of_update_entry lay) votes) (\<lambda>bytes_used. case update of
         ContractUpdate code \<Rightarrow> add_u 128 bytes_used (length code)
       | ConfigUpdate config \<Rightarrow> add_u 128 bytes_used (length (ul_config_json lay config))))"

definition required_deposit :: "env \<Rightarrow> nat \<Rightarrow> nat" where
  "required_deposit env bytes = token_saturating_mul (env_storage_byte_cost env) bytes"

definition update_required_deposit :: "update_layout \<Rightarrow> env \<Rightarrow> update \<Rightarrow> nat res" where
  "update_required_deposit lay env update =
     bind_res (bytes_used lay update) (\<lambda>bytes. Inr (required_deposit env bytes))"

definition update_propose ::
  "update_layout \<Rightarrow> proposed_updates \<Rightarrow> update \<Rightarrow> (proposed_updates \<times> update_id) res" where
  "update_propose lay pu update =
     bind_res (bytes_used lay update) (\<lambda>bytes_used.
     bind_res (update_id_generate (pu_id pu)) (\<lambda>(next_id, uid).
     Inr (pu\<lparr>pu_id := next_id,
            pu_entries := am_insert uid \<lparr>ue_update = update, ue_bytes_used = bytes_used\<rparr> (pu_entries pu)\<rparr>, uid)))"

definition update_remove_vote :: "proposed_updates \<Rightarrow> account_id \<Rightarrow> proposed_updates" where
  "update_remove_vote pu voter = pu\<lparr>pu_vote_by_participant := am_remove voter (pu_vote_by_participant pu)\<rparr>"

text \<open>The second component says whether the vote was recorded.\<close>

definition update_vote :: "proposed_updates \<Rightarrow> update_id \<Rightarrow> account_id \<Rightarrow> proposed_updates \<times> bool" where
  "update_vote pu uid voter =
     (let pu' = update_remove_vote pu voter in
      if map_of (pu_entries pu') uid = None then (pu', False)
      else (pu'\<lparr>pu_vote_by_participant := am_insert voter uid (pu_vote_by_participant pu')\<rparr>, True))"

definition update_promise :: "env \<Rightarrow> update \<Rightarrow> nat \<Rightarrow> promise_effect res" where
  "update_promise env update gas = (case update of
       ContractUpdate code \<Rightarrow>
         Inr (Batch (env_current_account_id env) [DeployContract code, FunctionCall ''migrate'' NoArgs 0 gas])
     | ConfigUpdate config \<Rightarrow>
         bind_res (gas_from_tgas (dcfg_contract_upgrade_deposit_tera_gas config)) (\<lambda>new_config_gas_value.
         Inr (Batch (env_current_account_id env)
           [FunctionCall ''update_config'' (ConfigArgs config) 0 new_config_gas_value])))"

definition do_update ::
  "env \<Rightarrow> proposed_updates \<Rightarrow> update_id \<Rightarrow> nat \<Rightarrow> (proposed_updates \<times> promise_effect option) res" where
  "do_update env pu uid gas = (case map_of (pu_entries pu) uid of
       None \<Rightarrow> Inr (pu, None)
     | Some entry \<Rightarrow>
         bind_res (update_promise env (ue_update entry) gas) (\<lambda>promise.
         Inr (pu\<lparr>pu_entries := [], pu_vote_by_participant := []\<rparr>, Some promise)))"

definition update_remove_votes :: "proposed_updates \<Rightarrow> account_id list \<Rightarrow> proposed_updates" where
  "update_remove_votes pu accounts_to_remove = foldl update_remove_vote pu accounts_to_remove"

definition remove_non_participant_votes :: "proposed_updates \<Rightarrow> participants \<Rightarrow> proposed_updates" where
  "remove_non_participant_votes pu ps =
     update_remove_votes pu
       (filter (\<lambda>voter. \<not> is_participant_given_account_id ps voter) (map fst (pu_vote_by_participant pu)))"

datatype update_hash = CodeHash "byte list" | ConfigHash "byte list"

definition update_hash_of :: "tee_libs \<Rightarrow> update_layout \<Rightarrow> update \<Rightarrow> update_hash" where
  "update_hash_of th lay update = (case update of
       ContractUpdate code \<Rightarrow> CodeHash (th_sha256 th code)
     | ConfigUpdate config \<Rightarrow> ConfigHash (th_sha256 th (ul_config_json lay config)))"

record update_votes =
  uv_votes :: "(account_id, update_id) amap"
  uv_updates :: "(update_id, update_hash) amap"

definition all_updates :: "tee_libs \<Rightarrow> update_layout \<Rightarrow> proposed_updates \<Rightarrow> update_votes" where
  "all_updates th lay pu =
     \<lparr>uv_votes = pu_vote_by_participant pu,
      uv_updates = map (\<lambda>(update_id, entry). (update_id, update_hash_of th lay (ue_update entry))) (pu_entries pu)\<rparr>"

section \<open>Invariant\<close>

text \<open>
  Entries have ids below the next one, and a recorded vote is for an entry that exists.
\<close>

definition wf_updates :: "proposed_updates \<Rightarrow> bool" where
  "wf_updates pu \<longleftrightarrow>
     wf_amap (pu_vote_by_participant pu) \<and> wf_amap (pu_entries pu) \<and>
     (\<forall>i e. map_of (pu_entries pu) i = Some e \<longrightarrow> i < pu_id pu) \<and>
     (\<forall>a i. map_of (pu_vote_by_participant pu) a = Some i \<longrightarrow> map_of (pu_entries pu) i \<noteq> None)"

named_theorems update_ops \<open>definitions of the operations on proposed updates\<close>

lemmas [update_ops] = update_propose_def update_id_generate_def update_vote_def update_remove_vote_def
  do_update_def

lemma wf_updates_default: "wf_updates proposed_updates_default"
  by (simp add: wf_updates_def proposed_updates_default_def)

lemmas lookup_form = map_of_eq_Some_iff Some_eq_map_of_iff

lemma update_propose_wf: "update_propose lay pu u = Inr (pu', uid) \<Longrightarrow> wf_updates pu \<Longrightarrow> wf_updates pu'"
  by (force simp: wf_updates_def update_ops res_simps less_Suc_eq simp del: lookup_form split: if_splits)

lemma update_remove_vote_wf: "wf_updates pu \<Longrightarrow> wf_updates (update_remove_vote pu a)"
  by (simp add: wf_updates_def update_ops del: lookup_form)

lemma update_vote_wf: "wf_updates pu \<Longrightarrow> wf_updates (fst (update_vote pu uid a))"
  by (simp add: wf_updates_def update_ops Let_def del: lookup_form)

lemma do_update_wf: "do_update env pu uid gas = Inr (pu', p) \<Longrightarrow> wf_updates pu \<Longrightarrow> wf_updates pu'"
  by (auto simp: wf_updates_def update_ops res_simps simp del: lookup_form split: option.splits)

lemma update_remove_votes_eq:
  "update_remove_votes pu as =
     pu\<lparr>pu_vote_by_participant := foldl (\<lambda>m a. am_remove a m) (pu_vote_by_participant pu) as\<rparr>"
  by (induction as arbitrary: pu) (simp_all add: update_remove_votes_def update_remove_vote_def)

lemma lookup_foldl_remove:
  "map_of (foldl (\<lambda>m a. am_remove a m) m as) k = (if k \<in> set as then None else map_of m k)"
  by (induction as arbitrary: m) simp_all

lemma wf_foldl_remove: "wf_amap m \<Longrightarrow> wf_amap (foldl (\<lambda>m a. am_remove a m) m as)"
  by (induction as arbitrary: m) simp_all

lemma update_remove_votes_wf: "wf_updates pu \<Longrightarrow> wf_updates (update_remove_votes pu as)"
  by (simp add: wf_updates_def update_remove_votes_eq lookup_foldl_remove wf_foldl_remove del: lookup_form)

lemma remove_non_participant_votes_wf: "wf_updates pu \<Longrightarrow> wf_updates (remove_non_participant_votes pu ps)"
  by (simp add: remove_non_participant_votes_def update_remove_votes_wf)

text \<open>The cleanup keeps the votes of participants and no others.\<close>

lemma lookup_remove_non_participant_votes:
  "map_of (pu_vote_by_participant (remove_non_participant_votes pu ps)) a =
     (if a \<in> accounts_of ps then map_of (pu_vote_by_participant pu) a else None)"
proof -
  have "map_of (pu_vote_by_participant pu) a = None" if "a \<notin> fst ` set (pu_vote_by_participant pu)"
    using that by (simp add: map_of_eq_None_iff)
  then show ?thesis
    by (auto simp: remove_non_participant_votes_def update_remove_votes_eq lookup_foldl_remove)
qed

section \<open>Executions\<close>

text \<open>Any operation of the code, with any arguments.\<close>

inductive update_step :: "proposed_updates \<Rightarrow> proposed_updates \<Rightarrow> bool" where
  us_propose: "update_propose lay pu u = Inr (pu', uid) \<Longrightarrow> update_step pu pu'"
| us_vote: "update_step pu (fst (update_vote pu uid voter))"
| us_do_update: "do_update env pu uid gas = Inr (pu', p) \<Longrightarrow> update_step pu pu'"
| us_remove_vote: "update_step pu (update_remove_vote pu voter)"
| us_remove_non_participants: "update_step pu (remove_non_participant_votes pu ps)"

lemma update_step_wf: "update_step pu pu' \<Longrightarrow> wf_updates pu \<Longrightarrow> wf_updates pu'"
  by (induction rule: update_step.induct)
    (auto intro: update_propose_wf update_vote_wf do_update_wf update_remove_vote_wf remove_non_participant_votes_wf)

text \<open>Ids only grow, and the entry of an id that was given out never changes: it stays or goes.\<close>

definition entries_kept :: "proposed_updates \<Rightarrow> proposed_updates \<Rightarrow> bool" where
  "entries_kept pu pu' \<longleftrightarrow> pu_id pu \<le> pu_id pu' \<and>
     (\<forall>i < pu_id pu. map_of (pu_entries pu') i \<in> {None, map_of (pu_entries pu) i})"

lemma entries_kept_refl: "entries_kept pu pu"
  by (simp add: entries_kept_def)

lemma entries_kept_trans: "entries_kept pu pu' \<Longrightarrow> entries_kept pu' pu'' \<Longrightarrow> entries_kept pu pu''"
  unfolding entries_kept_def by (metis empty_iff insert_iff le_trans less_le_trans)

lemma update_step_kept: "update_step pu pu' \<Longrightarrow> entries_kept pu pu'"
  by (induction rule: update_step.induct)
    (auto simp: entries_kept_def update_ops res_simps Let_def remove_non_participant_votes_def
      update_remove_votes_eq split: option.splits)

interpretation upd_evo: evolution update_step wf_updates entries_kept
  using update_step_wf update_step_kept entries_kept_refl entries_kept_trans
  by unfold_locales blast+

text \<open>
  C23. A vote cannot be redirected to another update. Across any execution of proposals, votes,
  withdrawals, cleanups and carried-out updates, an update id that was given out stands for the same
  update or for none: ids are never given out a second time, so a delayed vote for an id either counts
  for the update its voter saw or is refused.
\<close>

theorem update_ids_never_reused:
  assumes "wf_updates pu" "update_propose lay pu u = Inr (pu1, uid)" "update_step\<^sup>*\<^sup>* pu1 pu2"
  shows "(\<forall>e. map_of (pu_entries pu2) uid = Some e \<longrightarrow> ue_update e = u) \<and>
    (\<forall>lay' u' pu3 uid'. update_propose lay' pu2 u' = Inr (pu3, uid') \<longrightarrow> uid' \<noteq> uid)"
proof -
  have p1: "pu_id pu1 = Suc uid" "map_of (pu_entries pu1) uid = Some e \<Longrightarrow> ue_update e = u" for e
    using assms(2) by (auto simp: update_ops res_simps)
  have "entries_kept pu1 pu2"
    by (rule upd_evo.run_rel [OF assms(3) update_propose_wf [OF assms(2,1)]])
  then have "Suc uid \<le> pu_id pu2" "map_of (pu_entries pu2) uid \<in> {None, map_of (pu_entries pu1) uid}"
    by (simp_all add: entries_kept_def p1(1))
  with p1(2) show ?thesis by (auto simp: update_ops res_simps)
qed

text \<open>A layout, and two updates proposed one after the other.\<close>

definition ex_layout :: update_layout where
  "ex_layout = \<lparr>ul_size_of_update_entry = 64, ul_size_of_account_id = 24, ul_config_json = (\<lambda>c. [])\<rparr>"

theorem update_ids_never_reused_witness:
  "\<exists>pu1 pu2. update_propose ex_layout proposed_updates_default (ContractUpdate [1]) = Inr (pu1, 0) \<and>
     update_propose ex_layout pu1 (ContractUpdate [2]) = Inr (pu2, 1) \<and>
     map_option ue_update (map_of (pu_entries pu2) 0) = Some (ContractUpdate [1])"
proof -
  let ?pu1 = "\<lparr>pu_vote_by_participant = [],
    pu_entries = [(0, \<lparr>ue_update = ContractUpdate [1], ue_bytes_used = 3137\<rparr>)], pu_id = 1\<rparr>"
  let ?pu2 = "\<lparr>pu_vote_by_participant = [],
    pu_entries = [(0, \<lparr>ue_update = ContractUpdate [1], ue_bytes_used = 3137\<rparr>),
      (1, \<lparr>ue_update = ContractUpdate [2], ue_bytes_used = 3137\<rparr>)], pu_id = 2\<rparr>"
  have 1: "update_propose ex_layout proposed_updates_default (ContractUpdate [1]) = Inr (?pu1, 0)"
    by (simp add: update_ops bytes_used_def ex_layout_def proposed_updates_default_def add_u_ok mul_u_ok)
  have 2: "update_propose ex_layout ?pu1 (ContractUpdate [2]) = Inr (?pu2, 1)"
    by (simp add: update_ops bytes_used_def ex_layout_def add_u_ok mul_u_ok)
  from update_ids_never_reused [OF wf_updates_default 1 r_into_rtranclp, of ?pu2, OF us_propose [OF 2]]
  have "map_option ue_update (map_of (pu_entries ?pu2) 0) = Some (ContractUpdate [1])"
    by (auto split: option.splits)
  with 1 2 show ?thesis by blast
qed

end
