(* ===== verification/NodeMigrations.thy ===== *)
theory NodeMigrations
  imports Participants
begin

text \<open>
  Backup services and ongoing node migrations (\<^verbatim>\<open>crates/contract/src/node_migrations.rs\<close>).
\<close>

record backup_service_info =
  bs_public_key :: "byte list"

record destination_node_info =
  dn_signer_account_pk :: near_public_key
  dn_destination_node_info :: participant_info

record node_migrations =
  nm_backup_services_info :: "(account_id, backup_service_info) amap"
  nm_ongoing_migrations :: "(account_id, destination_node_info) amap"

definition node_migrations_default :: node_migrations where
  "node_migrations_default = \<lparr>nm_backup_services_info = [], nm_ongoing_migrations = []\<rparr>"

definition set_backup_service_info ::
  "node_migrations \<Rightarrow> account_id \<Rightarrow> backup_service_info \<Rightarrow> node_migrations" where
  "set_backup_service_info nm account_id info =
     nm\<lparr>nm_backup_services_info := am_insert account_id info (nm_backup_services_info nm)\<rparr>"

definition set_destination_node_info ::
  "node_migrations \<Rightarrow> account_id \<Rightarrow> destination_node_info \<Rightarrow> node_migrations" where
  "set_destination_node_info nm account_id info =
     nm\<lparr>nm_ongoing_migrations := am_insert account_id info (nm_ongoing_migrations nm)\<rparr>"

definition remove_account_data :: "node_migrations \<Rightarrow> account_id \<Rightarrow> node_migrations" where
  "remove_account_data nm account_id =
     \<lparr>nm_backup_services_info = am_remove account_id (nm_backup_services_info nm),
      nm_ongoing_migrations = am_remove account_id (nm_ongoing_migrations nm)\<rparr>"

definition remove_migration ::
  "node_migrations \<Rightarrow> account_id \<Rightarrow> node_migrations \<times> destination_node_info option" where
  "remove_migration nm account_id =
     (nm\<lparr>nm_ongoing_migrations := am_remove account_id (nm_ongoing_migrations nm)\<rparr>,
      map_of (nm_ongoing_migrations nm) account_id)"

definition get_for_account ::
  "node_migrations \<Rightarrow> account_id \<Rightarrow> account_id \<times> backup_service_info option \<times> destination_node_info option" where
  "get_for_account nm account_id =
     (account_id, map_of (nm_backup_services_info nm) account_id, map_of (nm_ongoing_migrations nm) account_id)"

text \<open>The two loops of \<^verbatim>\<open>get_all\<close>.\<close>

definition get_all ::
  "node_migrations \<Rightarrow> (account_id, backup_service_info option \<times> destination_node_info option) amap" where
  "get_all nm =
     foldl (\<lambda>combined (id, destination_node_info). case map_of combined id of
         Some entry \<Rightarrow> am_insert id (fst entry, Some destination_node_info) combined
       | None \<Rightarrow> am_insert id (None, Some destination_node_info) combined)
       (foldl (\<lambda>combined (id, backup_service_info). am_insert id (Some backup_service_info, None) combined)
         [] (nm_backup_services_info nm))
       (nm_ongoing_migrations nm)"

section \<open>Facts\<close>

definition wf_migrations :: "node_migrations \<Rightarrow> bool" where
  "wf_migrations nm \<longleftrightarrow> wf_amap (nm_backup_services_info nm) \<and> wf_amap (nm_ongoing_migrations nm)"

lemmas migration_ops = set_backup_service_info_def set_destination_node_info_def remove_account_data_def
  remove_migration_def

lemma wf_migrations_ops [simp]:
  "wf_migrations node_migrations_default"
  "wf_migrations nm \<Longrightarrow> wf_migrations (set_backup_service_info nm a i)"
  "wf_migrations nm \<Longrightarrow> wf_migrations (set_destination_node_info nm a d)"
  "wf_migrations nm \<Longrightarrow> wf_migrations (remove_account_data nm a)"
  "wf_migrations nm \<Longrightarrow> wf_migrations (fst (remove_migration nm a))"
  by (simp_all add: wf_migrations_def migration_ops node_migrations_default_def)

text \<open>A loop of insertions is a lookup in the list and then in the map it started with.\<close>

lemma lookup_foldl_backup:
  assumes "wf_amap xs"
  shows "map_of (foldl (\<lambda>m (id, i). am_insert id (Some i, None) m) m xs) a =
    (case map_of xs a of Some i \<Rightarrow> Some (Some i, None) | None \<Rightarrow> map_of m a)"
  using assms
proof (induction xs arbitrary: m)
  case (Cons x xs)
  then have "map_of xs (fst x) = None" by (simp add: map_of_eq_None_iff)
  with Cons show ?case by (cases x) (auto split: option.split)
qed simp

lemma lookup_foldl_migration:
  assumes "wf_amap xs"
  shows "map_of (foldl (\<lambda>m (id, d). case map_of m id of
         Some entry \<Rightarrow> am_insert id (fst entry, Some d) m | None \<Rightarrow> am_insert id (None, Some d) m) m xs) a =
    (case map_of xs a of
       Some d \<Rightarrow> Some (case map_of m a of Some entry \<Rightarrow> fst entry | None \<Rightarrow> None, Some d) | None \<Rightarrow> map_of m a)"
  using assms
proof (induction xs arbitrary: m)
  case (Cons x xs)
  then have "map_of xs (fst x) = None" by (simp add: map_of_eq_None_iff)
  with Cons show ?case by (cases x) (auto split: option.split)
qed simp

lemma lookup_get_all:
  assumes "wf_migrations nm"
  shows "map_of (get_all nm) a =
    (case (map_of (nm_backup_services_info nm) a, map_of (nm_ongoing_migrations nm) a) of
       (None, None) \<Rightarrow> None | (b, d) \<Rightarrow> Some (b, d))"
  using assms
  by (auto simp: wf_migrations_def get_all_def lookup_foldl_backup lookup_foldl_migration split: option.split)

end
