(* ===== verification/Contract.thy ===== *)
theory Contract
  imports Protocol TeeState AttestationDto Updates NodeMigrations
begin

text \<open>
  The MPC contract (\<^verbatim>\<open>crates/contract/src/lib.rs\<close>): its state and one definition per method. A method
  takes the third-party functions, the host environment, the state and its arguments; it aborts, or
  gives the new state, the promises it hands to the runtime in order, and its return value. The
  runtime discards all changes and promises of a call that aborts. Log lines are left out.
\<close>

section \<open>State\<close>

record mpc_contract =
  mc_protocol_state :: protocol_state
  mc_pending_signature_requests :: "(signature_request, yield_index) amap"
  mc_pending_ckd_requests :: "(ckd_request, yield_index) amap"
  mc_pending_verify_foreign_tx_requests :: "(verify_foreign_tx_request, yield_index) amap"
  mc_proposed_updates :: proposed_updates
  mc_foreign_chain_policy :: foreign_chain_policy
  mc_foreign_chain_policy_votes :: foreign_chain_policy_votes
  mc_config :: config
  mc_tee_state :: tee_state
  mc_accept_requests :: bool
  mc_node_migrations :: node_migrations
  mc_metrics :: metrics

text \<open>The third-party code the contract calls.\<close>

record contract_libs =
  cl_tee :: tee_libs
  cl_crypto :: crypto
  cl_layout :: update_layout

type_synonym 'a outcome = "(mpc_contract \<times> promise_effect list \<times> 'a) res"

abbreviation MINIMUM_SIGN_REQUEST_DEPOSIT :: nat where
  "MINIMUM_SIGN_REQUEST_DEPOSIT \<equiv> 1"

abbreviation MINIMUM_CKD_REQUEST_DEPOSIT :: nat where
  "MINIMUM_CKD_REQUEST_DEPOSIT \<equiv> 1"

section \<open>Helpers\<close>

text \<open>\<^verbatim>\<open>env::panic_str(&err.to_string())\<close> on an error, \<^verbatim>\<open>map_err\<close>, and a cast to the 32-bit \<^verbatim>\<open>usize\<close>.\<close>

definition or_panic :: "'a res \<Rightarrow> 'a res" where
  "or_panic r = (case r of Inl (Err e) \<Rightarrow> Inl (Panic (PanicError e)) | _ \<Rightarrow> r)"

definition map_err :: "('e \<Rightarrow> 'f) \<Rightarrow> 'e + 'a \<Rightarrow> 'f + 'a" where
  "map_err f r = (case r of Inl e \<Rightarrow> Inl (f e) | Inr x \<Rightarrow> Inr x)"

definition cast_u32 :: "nat \<Rightarrow> nat" where
  "cast_u32 n = n mod 2 ^ 32"

definition panic_parameters :: "invalid_parameters \<Rightarrow> abort" where
  "panic_parameters e = Panic (PanicError (InvalidParameters e))"

definition tee_upgrade_deadline_duration :: "mpc_contract \<Rightarrow> duration" where
  "tee_upgrade_deadline_duration c = duration_from_secs (cfg_tee_upgrade_deadline_duration_seconds (mc_config c))"

definition contract_public_key_extended :: "mpc_contract \<Rightarrow> domain_id \<Rightarrow> public_key_extended res" where
  "contract_public_key_extended c domain_id = protocol_public_key (mc_protocol_state c) domain_id"

definition contract_threshold :: "mpc_contract \<Rightarrow> nat res" where
  "contract_threshold c = protocol_threshold (mc_protocol_state c)"

text \<open>The second component says whether the request was already pending.\<close>

definition add_signature_request ::
  "mpc_contract \<Rightarrow> signature_request \<Rightarrow> crypto_hash \<Rightarrow> mpc_contract \<times> bool" where
  "add_signature_request c request data_id =
     (c\<lparr>mc_pending_signature_requests :=
          am_insert request \<lparr>yi_data_id = data_id\<rparr> (mc_pending_signature_requests c)\<rparr>,
      map_of (mc_pending_signature_requests c) request \<noteq> None)"

definition add_ckd_request :: "mpc_contract \<Rightarrow> ckd_request \<Rightarrow> crypto_hash \<Rightarrow> mpc_contract \<times> bool" where
  "add_ckd_request c request data_id =
     (c\<lparr>mc_pending_ckd_requests := am_insert request \<lparr>yi_data_id = data_id\<rparr> (mc_pending_ckd_requests c)\<rparr>,
      map_of (mc_pending_ckd_requests c) request \<noteq> None)"

definition add_verify_foreign_tx_request ::
  "mpc_contract \<Rightarrow> verify_foreign_tx_request \<Rightarrow> crypto_hash \<Rightarrow> mpc_contract \<times> bool" where
  "add_verify_foreign_tx_request c request data_id =
     (c\<lparr>mc_pending_verify_foreign_tx_requests :=
          am_insert request \<lparr>yi_data_id = data_id\<rparr> (mc_pending_verify_foreign_tx_requests c)\<rparr>,
      map_of (mc_pending_verify_foreign_tx_requests c) request \<noteq> None)"

text \<open>\<^verbatim>\<open>env::read_register(DATA_ID_REGISTER)\<close> and its conversion to a \<^verbatim>\<open>CryptoHash\<close>.\<close>

definition read_data_id :: "env \<Rightarrow> crypto_hash res" where
  "read_data_id env = (if length (env_data_id env) = 32 then Inr (env_data_id env) else Inl (Panic UnwrapFailed))"

definition caller_is_signer :: "env \<Rightarrow> bool" where
  "caller_is_signer env \<longleftrightarrow> env_signer_account_id env = env_predecessor_account_id env"

definition assert_caller_is_signer :: "env \<Rightarrow> account_id res" where
  "assert_caller_is_signer env =
     bind_res (ensure (env_signer_account_id env = env_predecessor_account_id env) (Panic AssertFailed)) (\<lambda>_.
     Inr (env_signer_account_id env))"

definition voter_account :: "env \<Rightarrow> mpc_contract \<Rightarrow> account_id res" where
  "voter_account env c =
     (if \<not> caller_is_signer env then Inl (Err (InvalidParameters CallerNotSigner))
      else bind_res (authenticate_update_vote env (mc_protocol_state c)) (\<lambda>_. Inr (env_signer_account_id env)))"

definition voter_or_panic :: "env \<Rightarrow> mpc_contract \<Rightarrow> account_id res" where
  "voter_or_panic env c =
     bind_res (assert_caller_is_signer env) (\<lambda>_. or_panic (voter_account env c))"

definition assert_caller_is_attested_participant_and_protocol_active :: "env \<Rightarrow> mpc_contract \<Rightarrow> unit res" where
  "assert_caller_is_attested_participant_and_protocol_active env c =
     bind_res (active_participants (mc_protocol_state c)) (\<lambda>participants.
     bind_res (assert_caller_is_signer env) (\<lambda>_.
     ensure (is_caller_an_attested_participant env (mc_tee_state c) participants = Inr ()) (Panic AssertFailed)))"

section \<open>User requests\<close>

text \<open>The checks that the three request methods have in common: domain and purpose, gas, deposit.\<close>

definition require_domain :: "mpc_contract \<Rightarrow> domain_id \<Rightarrow> domain_purpose \<Rightarrow> domain_config res" where
  "require_domain c domain_id purpose =
     bind_res (or_panic (protocol_domain_registry (mc_protocol_state c))) (\<lambda>domains.
     bind_res (ok_or (get_domain_by_domain_id domains domain_id)
       (panic_parameters (DomainNotFound domain_id))) (\<lambda>domain_config.
     if dc_purpose domain_config \<noteq> purpose
     then Inl (panic_parameters (WrongDomainPurpose (dc_id domain_config) purpose (dc_purpose domain_config)))
     else Inr domain_config))"

definition require_gas :: "env \<Rightarrow> nat \<Rightarrow> unit res" where
  "require_gas env required_tgas =
     bind_res (gas_from_tgas required_tgas) (\<lambda>gas_required.
     ensure (\<not> env_prepaid_gas env < gas_required) (panic_parameters InsufficientGas))"

definition require_deposit :: "env \<Rightarrow> nat \<Rightarrow> promise_effect list res" where
  "require_deposit env minimum =
     (case token_checked_sub (env_attached_deposit env) minimum of
        None \<Rightarrow> Inl (panic_parameters InsufficientDeposit)
      | Some diff \<Rightarrow> Inr (refund (env_predecessor_account_id env) diff))"

definition check_sign_payload :: "crypto \<Rightarrow> signature_scheme \<Rightarrow> payload \<Rightarrow> unit res" where
  "check_sign_payload cr scheme payload =
     (if scheme = Secp256k1 \<or> scheme = V2Secp256k1 then
        bind_res (as_ecdsa payload) (\<lambda>ecdsa.
        bind_res (ok_or ecdsa (Panic UnwrapFailed)) (\<lambda>hash.
        bind_res (ok_or (cr_k256_scalar_from_repr cr hash) (Panic UnwrapFailed)) (\<lambda>_. Inr ())))
      else if scheme = Ed25519 then
        bind_res (ok_or (as_eddsa payload) (Panic UnwrapFailed)) (\<lambda>_. Inr ())
      else Inl (panic_parameters InvalidDomainId))"

definition count_payload_versions :: "metrics \<Rightarrow> sign_request_args \<Rightarrow> metrics res" where
  "count_payload_versions m args =
     bind_res (if sra_deprecated_payload args \<noteq> None then add_u 64 (mt_sign_with_v1_payload_count m) 1
       else Inr (mt_sign_with_v1_payload_count m)) (\<lambda>v1.
     bind_res (if sra_payload_v2 args \<noteq> None then add_u 64 (mt_sign_with_v2_payload_count m) 1
       else Inr (mt_sign_with_v2_payload_count m)) (\<lambda>v2.
     Inr \<lparr>mt_sign_with_v1_payload_count = v1, mt_sign_with_v2_payload_count = v2\<rparr>))"

definition sign :: "contract_libs \<Rightarrow> env \<Rightarrow> mpc_contract \<Rightarrow> sign_request_args \<Rightarrow> unit outcome" where
  "sign cl env c args =
     bind_res (count_payload_versions (mc_metrics c) args) (\<lambda>metrics.
     bind_res (unwrap (sign_request_try_from args)) (\<lambda>request.
     bind_res (require_domain c (srq_domain_id request) Sign) (\<lambda>domain_config.
     bind_res (check_sign_payload (cl_crypto cl) (dc_scheme domain_config) (srq_payload request)) (\<lambda>_.
     bind_res (require_gas env (cfg_sign_call_gas_attachment_requirement_tera_gas (mc_config c))) (\<lambda>_.
     bind_res (require_deposit env MINIMUM_SIGN_REQUEST_DEPOSIT) (\<lambda>refunds.
     let request = signature_request_new (cl_crypto cl) (srq_domain_id request) (srq_payload request)
           (env_predecessor_account_id env) (srq_path request) in
     bind_res (ensure (mc_accept_requests c) (Panic (PanicError (TeeError TeeValidationFailed)))) (\<lambda>_.
     bind_res (gas_from_tgas (cfg_return_signature_and_clean_state_on_success_call_tera_gas (mc_config c)))
       (\<lambda>callback_gas.
     bind_res (read_data_id env) (\<lambda>return_sig_id.
     Inr (fst (add_signature_request (c\<lparr>mc_metrics := metrics\<rparr>) request return_sig_id),
       refunds @ [YieldCreate ''return_signature_and_clean_state_on_success'' (SignArgs request) callback_gas
         return_sig_id], ()))))))))))"

definition request_app_private_key ::
  "contract_libs \<Rightarrow> env \<Rightarrow> mpc_contract \<Rightarrow> ckd_request_args \<Rightarrow> unit outcome" where
  "request_app_private_key cl env c args =
     bind_res (require_domain c (cka_domain_id args) CKD) (\<lambda>_.
     bind_res (require_gas env (cfg_ckd_call_gas_attachment_requirement_tera_gas (mc_config c))) (\<lambda>_.
     bind_res (require_deposit env MINIMUM_CKD_REQUEST_DEPOSIT) (\<lambda>refunds.
     bind_res (ensure (mc_accept_requests c) (Panic (PanicError (TeeError TeeValidationFailed)))) (\<lambda>_.
     let request = ckd_request_new (cl_crypto cl) (cka_app_public_key args) (cka_domain_id args)
           (env_predecessor_account_id env) (cka_derivation_path args) in
     bind_res (gas_from_tgas (cfg_return_ck_and_clean_state_on_success_call_tera_gas (mc_config c)))
       (\<lambda>callback_gas.
     bind_res (read_data_id env) (\<lambda>return_ck_id.
     Inr (fst (add_ckd_request c request return_ck_id),
       refunds @ [YieldCreate ''return_ck_and_clean_state_on_success'' (CkdArgs request) callback_gas
         return_ck_id], ())))))))"

definition verify_foreign_transaction ::
  "env \<Rightarrow> mpc_contract \<Rightarrow> verify_foreign_tx_request_args \<Rightarrow> unit outcome" where
  "verify_foreign_transaction env c args =
     bind_res (require_domain c (vfa_domain_id args) ForeignTx) (\<lambda>_.
     let requested_chain = request_chain (vfa_request args) in
     bind_res (ensure (map_of (fcp_chains (mc_foreign_chain_policy c)) requested_chain \<noteq> None)
       (panic_parameters (ChainNotInPolicy requested_chain))) (\<lambda>_.
     bind_res (require_gas env (cfg_sign_call_gas_attachment_requirement_tera_gas (mc_config c))) (\<lambda>_.
     bind_res (require_deposit env MINIMUM_SIGN_REQUEST_DEPOSIT) (\<lambda>refunds.
     bind_res (ensure (mc_accept_requests c) (Panic (PanicError (TeeError TeeValidationFailed)))) (\<lambda>_.
     bind_res (gas_from_tgas (cfg_return_signature_and_clean_state_on_success_call_tera_gas (mc_config c)))
       (\<lambda>callback_gas.
     let request = args_into_verify_foreign_tx_request args in
     bind_res (read_data_id env) (\<lambda>return_sig_id.
     Inr (fst (add_verify_foreign_tx_request c request return_sig_id),
       refunds @ [YieldCreate ''return_verify_foreign_tx_and_clean_state_on_success'' (ForeignTxArgs request)
         callback_gas return_sig_id], ()))))))))"

section \<open>Node responses\<close>

text \<open>The match on the response and the public key of \<^verbatim>\<open>respond\<close>.\<close>

definition signature_is_valid ::
  "crypto \<Rightarrow> signature_request \<Rightarrow> signature_response \<Rightarrow> public_key_extended \<Rightarrow> bool res" where
  "signature_is_valid cr request response public_key = (case (response, public_key) of
       (SigSecp256k1 signature_response, PkSecp256k1 near_public_key) \<Rightarrow>
         bind_res (secp256k1_of_near_expect near_public_key) (\<lambda>secp_pk.
         bind_res (map_err (\<lambda>_. Panic UnwrapFailed) (k256_of_secp256k1 cr secp_pk)) (\<lambda>affine.
         bind_res (map_err (\<lambda>_. Err (RespondError RespondTweakNotOnCurve))
           (derive_key_secp256k1 cr affine (sr_tweak request))) (\<lambda>expected_public_key.
         bind_res (as_ecdsa (sr_payload request)) (\<lambda>ecdsa.
         bind_res (ok_or ecdsa (Panic UnwrapFailed)) (\<lambda>payload_hash.
         Inr (is_ok (verify_ecdsa_signature cr signature_response payload_hash expected_public_key)))))))
     | (SigEd25519 signature, PkEd25519 _ public_key_edwards_point) \<Rightarrow>
         let derived = compress
               (derive_public_key_edwards_point_ed25519 cr public_key_edwards_point (sr_tweak request)) in
         bind_res (ok_or (as_eddsa (sr_payload request)) (Panic UnwrapFailed)) (\<lambda>message.
         Inr (is_ok (verify_eddsa_signature cr signature message derived)))
     | _ \<Rightarrow> Inl (Err (RespondError SignatureSchemeMismatch)))"

definition respond ::
  "contract_libs \<Rightarrow> env \<Rightarrow> mpc_contract \<Rightarrow> signature_request \<Rightarrow> signature_response \<Rightarrow> unit outcome" where
  "respond cl env c request response =
     bind_res (assert_caller_is_signer env) (\<lambda>_.
     bind_res (assert_caller_is_attested_participant_and_protocol_active env c) (\<lambda>_.
     bind_res (ensure (is_running_or_resharing (mc_protocol_state c))
       (Err (InvalidState ProtocolStateNotRunning))) (\<lambda>_.
     bind_res (ensure (mc_accept_requests c) (Err (TeeError TeeValidationFailed))) (\<lambda>_.
     bind_res (contract_public_key_extended c (sr_domain_id request)) (\<lambda>public_key.
     bind_res (signature_is_valid (cl_crypto cl) request response public_key) (\<lambda>valid.
     bind_res (ensure valid (Err (RespondError InvalidSignature))) (\<lambda>_.
     case map_of (mc_pending_signature_requests c) request of
       Some yield_index \<Rightarrow>
         Inr (c\<lparr>mc_pending_signature_requests := am_remove request (mc_pending_signature_requests c)\<rparr>,
           [YieldResume (yi_data_id yield_index) (SignResult response)], ())
     | None \<Rightarrow> Inl (Err (InvalidParameters RequestNotFound)))))))))"

definition respond_ckd :: "env \<Rightarrow> mpc_contract \<Rightarrow> ckd_request \<Rightarrow> ckd_response \<Rightarrow> unit outcome" where
  "respond_ckd env c request response =
     bind_res (assert_caller_is_signer env) (\<lambda>_.
     bind_res (ensure (is_running_or_resharing (mc_protocol_state c))
       (Err (InvalidState ProtocolStateNotRunning))) (\<lambda>_.
     bind_res (ensure (mc_accept_requests c) (Err (TeeError TeeValidationFailed))) (\<lambda>_.
     bind_res (assert_caller_is_attested_participant_and_protocol_active env c) (\<lambda>_.
     case map_of (mc_pending_ckd_requests c) request of
       Some yield_index \<Rightarrow>
         Inr (c\<lparr>mc_pending_ckd_requests := am_remove request (mc_pending_ckd_requests c)\<rparr>,
           [YieldResume (yi_data_id yield_index) (CkdResult response)], ())
     | None \<Rightarrow> Inl (Err (InvalidParameters RequestNotFound))))))"

text \<open>The match of \<^verbatim>\<open>respond_verify_foreign_tx\<close>: the signature is checked under the root key.\<close>

definition foreign_tx_signature_is_valid ::
  "crypto \<Rightarrow> verify_foreign_tx_response \<Rightarrow> public_key_extended \<Rightarrow> bool res" where
  "foreign_tx_signature_is_valid cr response public_key = (case (vfp_signature response, public_key) of
       (SigSecp256k1 signature_response, PkSecp256k1 near_public_key) \<Rightarrow>
         bind_res (secp256k1_of_near_expect near_public_key) (\<lambda>secp_pk.
         Inr (is_ok (verify_ecdsa_signature cr signature_response (vfp_payload_hash response) secp_pk)))
     | _ \<Rightarrow> Inl (Err (RespondError SignatureSchemeMismatch)))"

definition respond_verify_foreign_tx ::
  "contract_libs \<Rightarrow> env \<Rightarrow> mpc_contract \<Rightarrow> verify_foreign_tx_request \<Rightarrow> verify_foreign_tx_response \<Rightarrow>
     unit outcome" where
  "respond_verify_foreign_tx cl env c request response =
     bind_res (assert_caller_is_signer env) (\<lambda>_.
     bind_res (assert_caller_is_attested_participant_and_protocol_active env c) (\<lambda>_.
     bind_res (ensure (is_running_or_resharing (mc_protocol_state c))
       (Err (InvalidState ProtocolStateNotRunning))) (\<lambda>_.
     bind_res (ensure (mc_accept_requests c) (Err (TeeError TeeValidationFailed))) (\<lambda>_.
     bind_res (contract_public_key_extended c (vfr_domain_id request)) (\<lambda>public_key.
     bind_res (foreign_tx_signature_is_valid (cl_crypto cl) response public_key) (\<lambda>valid.
     bind_res (ensure valid (Err (RespondError InvalidSignature))) (\<lambda>_.
     case map_of (mc_pending_verify_foreign_tx_requests c) request of
       Some yield_index \<Rightarrow>
         Inr (c\<lparr>mc_pending_verify_foreign_tx_requests :=
             am_remove request (mc_pending_verify_foreign_tx_requests c)\<rparr>,
           [YieldResume (yi_data_id yield_index) (ForeignTxResult response)], ())
     | None \<Rightarrow> Inl (Err (InvalidParameters RequestNotFound)))))))))"

section \<open>Callbacks\<close>

text \<open>\<^verbatim>\<open>PromiseOrValue\<close>: the value of the resumed promise, or the promise that fails the call.\<close>

datatype 'a promise_or_value = PvValue 'a | PvPromise promise_effect

definition fail_on_timeout_promise :: "env \<Rightarrow> mpc_contract \<Rightarrow> promise_effect res" where
  "fail_on_timeout_promise env c =
     bind_res (gas_from_tgas (cfg_fail_on_timeout_tera_gas (mc_config c))) (\<lambda>fail_on_timeout_gas.
     Inr (Batch (env_current_account_id env) [FunctionCall ''fail_on_timeout'' NoArgs 0 fail_on_timeout_gas]))"

definition return_signature_and_clean_state_on_success ::
  "env \<Rightarrow> mpc_contract \<Rightarrow> signature_request \<Rightarrow> signature_response option \<Rightarrow>
     signature_response promise_or_value outcome" where
  "return_signature_and_clean_state_on_success env c request signature = (case signature of
       Some signature \<Rightarrow> Inr (c, [], PvValue signature)
     | None \<Rightarrow>
         bind_res (fail_on_timeout_promise env c) (\<lambda>promise.
         Inr (c\<lparr>mc_pending_signature_requests := am_remove request (mc_pending_signature_requests c)\<rparr>,
           [promise], PvPromise promise)))"

definition return_ck_and_clean_state_on_success ::
  "env \<Rightarrow> mpc_contract \<Rightarrow> ckd_request \<Rightarrow> ckd_response option \<Rightarrow> ckd_response promise_or_value outcome" where
  "return_ck_and_clean_state_on_success env c request ck = (case ck of
       Some ck \<Rightarrow> Inr (c, [], PvValue ck)
     | None \<Rightarrow>
         bind_res (fail_on_timeout_promise env c) (\<lambda>promise.
         Inr (c\<lparr>mc_pending_ckd_requests := am_remove request (mc_pending_ckd_requests c)\<rparr>,
           [promise], PvPromise promise)))"

definition return_verify_foreign_tx_and_clean_state_on_success ::
  "env \<Rightarrow> mpc_contract \<Rightarrow> verify_foreign_tx_request \<Rightarrow> verify_foreign_tx_response option \<Rightarrow>
     verify_foreign_tx_response promise_or_value outcome" where
  "return_verify_foreign_tx_and_clean_state_on_success env c request response = (case response of
       Some response \<Rightarrow> Inr (c, [], PvValue response)
     | None \<Rightarrow>
         bind_res (fail_on_timeout_promise env c) (\<lambda>promise.
         Inr (c\<lparr>mc_pending_verify_foreign_tx_requests :=
             am_remove request (mc_pending_verify_foreign_tx_requests c)\<rparr>,
           [promise], PvPromise promise)))"

definition fail_on_timeout :: "unit outcome" where
  "fail_on_timeout = Inl (Panic (PanicRequest Timeout))"

definition update_config :: "mpc_contract \<Rightarrow> dto_config \<Rightarrow> unit outcome" where
  "update_config c config = Inr (c\<lparr>mc_config := config_of_dto config\<rparr>, [], ())"

section \<open>Attestations\<close>

definition submit_participant_info ::
  "contract_libs \<Rightarrow> env \<Rightarrow> mpc_contract \<Rightarrow> dto_attestation \<Rightarrow> byte list \<Rightarrow> unit outcome" where
  "submit_participant_info cl env c proposed tls_public_key =
     bind_res (attestation_of_dto (cl_tee cl) proposed) (\<lambda>proposed_participant_attestation.
     bind_res (assert_caller_is_signer env) (\<lambda>account_id.
     let initial_storage = env_storage_usage env;
         node_id = \<lparr>ni_account_id = account_id, ni_tls_public_key = near_of_ed25519 tls_public_key,
           ni_account_public_key = Some (env_signer_account_pk env)\<rparr> in
     bind_res (tee_add_participant (cl_tee cl) env (mc_tee_state c) node_id proposed_participant_attestation
       (tee_upgrade_deadline_duration c)) (\<lambda>inserted.
     bind_res (map_err (\<lambda>_. Err (InvalidParameters InvalidTeeRemoteAttestation)) inserted)
       (\<lambda>(tee_state, attestation_insertion_result).
     let c' = c\<lparr>mc_tee_state := tee_state\<rparr>;
         caller_is_not_participant = \<not> is_ok (voter_account env c');
         is_new_attestation = (attestation_insertion_result = NewlyInsertedParticipant) in
     if is_new_attestation \<or> caller_is_not_participant then
       bind_res (sub_u (env_storage_usage env) initial_storage) (\<lambda>storage_used.
       let cost = token_saturating_mul (env_storage_byte_cost env) storage_used;
           attached = env_attached_deposit env in
       if attached < cost then Inl (Err (InvalidParameters InsufficientDeposit))
       else Inr (c', (case token_checked_sub attached cost of
           Some diff \<Rightarrow> refund account_id diff | None \<Rightarrow> []), ()))
     else Inr (c', [], ())))))"

definition get_attestation :: "mpc_contract \<Rightarrow> byte list \<Rightarrow> dto_verified_attestation option" where
  "get_attestation c tls_public_key =
     map_option (dto_of_verified_attestation \<circ> na_verified_attestation)
       (map_of (ts_stored_attestations (mc_tee_state c)) (near_of_ed25519 tls_public_key))"

section \<open>Votes on the protocol state\<close>

definition vote_new_parameters ::
  "env \<Rightarrow> mpc_contract \<Rightarrow> epoch_id \<Rightarrow> threshold_parameters \<Rightarrow> unit outcome" where
  "vote_new_parameters env c prospective_epoch_id proposal =
     (let (tee_state, validation_result) = reverify_and_cleanup_participants env (mc_tee_state c)
            (tp_participants proposal) (tee_upgrade_deadline_duration c);
          c' = c\<lparr>mc_tee_state := tee_state\<rparr> in
      case validation_result of
        TeeFull \<Rightarrow>
          bind_res (protocol_vote_new_parameters env (mc_protocol_state c') prospective_epoch_id proposal) (\<lambda>p.
          Inr (c'\<lparr>mc_protocol_state := commit_state p\<rparr>, [], ()))
      | TeePartial _ \<Rightarrow> Inl (Err (InvalidParameters InvalidTeeRemoteAttestation)))"

definition vote_add_domains :: "env \<Rightarrow> mpc_contract \<Rightarrow> domain_config list \<Rightarrow> unit outcome" where
  "vote_add_domains env c domains =
     bind_res (protocol_vote_add_domains env (mc_protocol_state c) domains) (\<lambda>p.
     Inr (c\<lparr>mc_protocol_state := commit_state p\<rparr>, [], ()))"

definition vote_foreign_chain_policy :: "env \<Rightarrow> mpc_contract \<Rightarrow> foreign_chain_policy \<Rightarrow> unit outcome" where
  "vote_foreign_chain_policy env c policy = (case mc_protocol_state c of
       Running running_state \<Rightarrow>
         let ps = tp_participants (rs_parameters running_state) in
         bind_res (authenticated_account_id env ps) (\<lambda>voter.
         let votes = am_insert voter policy (fcv_proposal_by_account (mc_foreign_chain_policy_votes c));
             total_votes = length (filter (\<lambda>e. map_of votes (entry_account e) = Some policy) (ps_participants ps)) in
         if total_votes = participants_len ps
         then Inr (c\<lparr>mc_foreign_chain_policy := policy,
                mc_foreign_chain_policy_votes := \<lparr>fcv_proposal_by_account = []\<rparr>\<rparr>, [], ())
         else Inr (c\<lparr>mc_foreign_chain_policy_votes := \<lparr>fcv_proposal_by_account = votes\<rparr>\<rparr>, [], ()))
     | _ \<Rightarrow> Inl (Panic PanicText))"

definition start_keygen_instance :: "env \<Rightarrow> mpc_contract \<Rightarrow> key_event_id \<Rightarrow> unit outcome" where
  "start_keygen_instance env c key_event_id =
     bind_res (assert_caller_is_attested_participant_and_protocol_active env c) (\<lambda>_.
     bind_res (protocol_start_keygen_instance env (mc_protocol_state c) key_event_id
       (cfg_key_event_timeout_blocks (mc_config c))) (\<lambda>p.
     Inr (c\<lparr>mc_protocol_state := p\<rparr>, [], ())))"

definition vote_pk :: "contract_libs \<Rightarrow> env \<Rightarrow> mpc_contract \<Rightarrow> key_event_id \<Rightarrow> dto_public_key \<Rightarrow> unit outcome" where
  "vote_pk cl env c key_event_id public_key =
     bind_res (assert_caller_is_attested_participant_and_protocol_active env c) (\<lambda>_.
     bind_res (map_err (\<lambda>_. Err (InvalidParameters MalformedPayload))
       (extended_of_dto (cl_crypto cl) public_key)) (\<lambda>extended_key.
     bind_res (protocol_vote_pk env (mc_protocol_state c) key_event_id extended_key) (\<lambda>p.
     Inr (c\<lparr>mc_protocol_state := commit_state p\<rparr>, [], ()))))"

definition start_reshare_instance :: "env \<Rightarrow> mpc_contract \<Rightarrow> key_event_id \<Rightarrow> unit outcome" where
  "start_reshare_instance env c key_event_id =
     bind_res (assert_caller_is_attested_participant_and_protocol_active env c) (\<lambda>_.
     bind_res (protocol_start_reshare_instance env (mc_protocol_state c) key_event_id
       (cfg_key_event_timeout_blocks (mc_config c))) (\<lambda>p.
     Inr (c\<lparr>mc_protocol_state := p\<rparr>, [], ())))"

text \<open>The three promises that clean up after former participants.\<close>

definition cleanup_promises :: "env \<Rightarrow> config \<Rightarrow> promise_effect list res" where
  "cleanup_promises env cfg =
     bind_res (gas_from_tgas (cfg_remove_non_participant_update_votes_tera_gas cfg)) (\<lambda>votes_gas.
     bind_res (gas_from_tgas (cfg_clean_tee_status_tera_gas cfg)) (\<lambda>tee_gas.
     bind_res (gas_from_tgas (cfg_cleanup_orphaned_node_migrations_tera_gas cfg)) (\<lambda>migrations_gas.
     Inr [Batch (env_current_account_id env) [FunctionCall ''remove_non_participant_update_votes'' NoArgs 0 votes_gas],
          Batch (env_current_account_id env) [FunctionCall ''clean_tee_status'' NoArgs 0 tee_gas],
          Batch (env_current_account_id env)
            [FunctionCall ''cleanup_orphaned_node_migrations'' NoArgs 0 migrations_gas]])))"

definition vote_reshared :: "env \<Rightarrow> mpc_contract \<Rightarrow> key_event_id \<Rightarrow> unit outcome" where
  "vote_reshared env c key_event_id =
     bind_res (assert_caller_is_attested_participant_and_protocol_active env c) (\<lambda>_.
     bind_res (protocol_vote_reshared env (mc_protocol_state c) key_event_id) (\<lambda>(p, new_state).
     case new_state of
       Some new_state \<Rightarrow>
         bind_res (cleanup_promises env (mc_config c)) (\<lambda>promises.
         Inr (c\<lparr>mc_protocol_state := new_state\<rparr>, promises, ()))
     | None \<Rightarrow> Inr (c\<lparr>mc_protocol_state := p\<rparr>, [], ())))"

definition vote_cancel_resharing :: "env \<Rightarrow> mpc_contract \<Rightarrow> unit outcome" where
  "vote_cancel_resharing env c =
     bind_res (protocol_vote_cancel_resharing env (mc_protocol_state c)) (\<lambda>p.
     Inr (c\<lparr>mc_protocol_state := commit_state p\<rparr>, [], ()))"

definition vote_cancel_keygen :: "env \<Rightarrow> mpc_contract \<Rightarrow> nat \<Rightarrow> unit outcome" where
  "vote_cancel_keygen env c next_domain_id =
     bind_res (protocol_vote_cancel_keygen env (mc_protocol_state c) next_domain_id) (\<lambda>p.
     Inr (c\<lparr>mc_protocol_state := commit_state p\<rparr>, [], ()))"

definition vote_abort_key_event_instance :: "env \<Rightarrow> mpc_contract \<Rightarrow> key_event_id \<Rightarrow> unit outcome" where
  "vote_abort_key_event_instance env c key_event_id =
     bind_res (assert_caller_is_attested_participant_and_protocol_active env c) (\<lambda>_.
     bind_res (protocol_vote_abort_key_event_instance env (mc_protocol_state c) key_event_id) (\<lambda>p.
     Inr (c\<lparr>mc_protocol_state := p\<rparr>, [], ())))"

section \<open>Updates\<close>

definition propose_update ::
  "contract_libs \<Rightarrow> env \<Rightarrow> mpc_contract \<Rightarrow> propose_update_args \<Rightarrow> update_id outcome" where
  "propose_update cl env c args =
     bind_res (voter_or_panic env c) (\<lambda>proposer.
     bind_res (update_try_from args) (\<lambda>update.
     let attached = env_attached_deposit env in
     bind_res (update_required_deposit (cl_layout cl) env update) (\<lambda>required.
     bind_res (ensure (\<not> attached < required) (Err (InvalidParameters InsufficientDeposit))) (\<lambda>_.
     bind_res (update_propose (cl_layout cl) (mc_proposed_updates c) update) (\<lambda>(updates, uid).
     Inr (c\<lparr>mc_proposed_updates := updates\<rparr>,
       (case token_checked_sub attached required of Some diff \<Rightarrow> refund proposer diff | None \<Rightarrow> []), uid))))))"

definition vote_update :: "env \<Rightarrow> mpc_contract \<Rightarrow> update_id \<Rightarrow> bool outcome" where
  "vote_update env c uid = (case mc_protocol_state c of
       Running running_state \<Rightarrow>
         bind_res (contract_threshold c) (\<lambda>threshold.
         bind_res (voter_or_panic env c) (\<lambda>voter.
         let (updates, recorded) = update_vote (mc_proposed_updates c) uid voter in
         bind_res (ensure recorded (Err (InvalidParameters UpdateNotFound))) (\<lambda>_.
         let valid_votes_count = length (filter
               (\<lambda>e. map_of (pu_vote_by_participant updates) (entry_account e) = Some uid)
               (ps_participants (tp_participants (rs_parameters running_state)))) in
         if valid_votes_count < threshold then Inr (c\<lparr>mc_proposed_updates := updates\<rparr>, [], False)
         else
           bind_res (gas_from_tgas (cfg_contract_upgrade_deposit_tera_gas (mc_config c))) (\<lambda>update_gas_deposit.
           bind_res (do_update env updates uid update_gas_deposit) (\<lambda>(updates', promise). case promise of
             None \<Rightarrow> Inl (Err (InvalidParameters UpdateNotFound))
           | Some promise \<Rightarrow> Inr (c\<lparr>mc_proposed_updates := updates'\<rparr>, [promise], True))))))
     | _ \<Rightarrow> Inl (Panic PanicText))"

definition remove_update_vote :: "env \<Rightarrow> mpc_contract \<Rightarrow> unit outcome" where
  "remove_update_vote env c = (case mc_protocol_state c of
       Running _ \<Rightarrow>
         bind_res (voter_or_panic env c) (\<lambda>voter.
         Inr (c\<lparr>mc_proposed_updates := update_remove_vote (mc_proposed_updates c) voter\<rparr>, [], ()))
     | _ \<Rightarrow> Inl (Panic PanicText))"

definition remove_non_participant_update_votes :: "mpc_contract \<Rightarrow> unit outcome" where
  "remove_non_participant_update_votes c = (case mc_protocol_state c of
       Running state \<Rightarrow>
         Inr (c\<lparr>mc_proposed_updates :=
           remove_non_participant_votes (mc_proposed_updates c) (tp_participants (rs_parameters state))\<rparr>, [], ())
     | _ \<Rightarrow> Inl (Err (InvalidState ProtocolStateNotRunning)))"

abbreviation contract_proposed_updates :: "contract_libs \<Rightarrow> mpc_contract \<Rightarrow> update_votes" where
  "contract_proposed_updates cl c \<equiv> all_updates (cl_tee cl) (cl_layout cl) (mc_proposed_updates c)"

section \<open>TEE governance\<close>

text \<open>The opening of the three votes on hashes: the voter's participant id and the parameters.\<close>

definition authenticate_tee_voter :: "env \<Rightarrow> mpc_contract \<Rightarrow> (threshold_parameters \<times> nat) res" where
  "authenticate_tee_voter env c =
     bind_res (voter_or_panic env c) (\<lambda>_.
     bind_res (ok_or (protocol_threshold_parameters (mc_protocol_state c)) (Panic PanicText)) (\<lambda>params.
     bind_res (authenticated_participant_id env (tp_participants params)) (\<lambda>participant.
     Inr (params, participant))))"

definition vote_code_hash ::
  "contract_libs \<Rightarrow> env \<Rightarrow> mpc_contract \<Rightarrow> mpc_docker_image_hash \<Rightarrow> unit outcome" where
  "vote_code_hash cl env c code_hash =
     bind_res (authenticate_tee_voter env c) (\<lambda>(_, participant).
     let (tee_state, votes) = tee_vote (mc_tee_state c) code_hash participant in
     bind_res (contract_threshold c) (\<lambda>threshold.
     if votes \<ge> threshold then
       bind_res (whitelist_tee_proposal (cl_tee cl) env tee_state code_hash (tee_upgrade_deadline_duration c))
         (\<lambda>tee_state'. Inr (c\<lparr>mc_tee_state := tee_state'\<rparr>, [], ()))
     else Inr (c\<lparr>mc_tee_state := tee_state\<rparr>, [], ())))"

definition vote_add_launcher_hash ::
  "contract_libs \<Rightarrow> env \<Rightarrow> mpc_contract \<Rightarrow> launcher_image_hash \<Rightarrow> unit outcome" where
  "vote_add_launcher_hash cl env c launcher_hash =
     bind_res (authenticate_tee_voter env c) (\<lambda>(_, participant).
     let (tee_state, votes) = vote_launcher (mc_tee_state c) (AddLauncher launcher_hash) participant in
     bind_res (contract_threshold c) (\<lambda>threshold.
     if votes \<ge> threshold then
       bind_res (add_launcher_image (cl_tee cl) env tee_state launcher_hash (tee_upgrade_deadline_duration c))
         (\<lambda>(tee_state', _). Inr (c\<lparr>mc_tee_state := tee_state'\<rparr>, [], ()))
     else Inr (c\<lparr>mc_tee_state := tee_state\<rparr>, [], ())))"

definition vote_remove_launcher_hash :: "env \<Rightarrow> mpc_contract \<Rightarrow> launcher_image_hash \<Rightarrow> unit outcome" where
  "vote_remove_launcher_hash env c launcher_hash =
     bind_res (authenticate_tee_voter env c) (\<lambda>(params, participant).
     let (tee_state, votes) = vote_launcher (mc_tee_state c) (RemoveLauncher launcher_hash) participant;
         total_participants = participants_len (tp_participants params) in
     if votes \<ge> total_participants
     then Inr (c\<lparr>mc_tee_state := fst (remove_launcher_image tee_state launcher_hash)\<rparr>, [], ())
     else Inr (c\<lparr>mc_tee_state := tee_state\<rparr>, [], ()))"

definition get_tee_accounts :: "mpc_contract \<Rightarrow> node_id list" where
  "get_tee_accounts c = tee_get_tee_accounts (mc_tee_state c)"

definition verify_tee :: "env \<Rightarrow> mpc_contract \<Rightarrow> bool outcome" where
  "verify_tee env c =
     bind_res (voter_or_panic env c) (\<lambda>_. case mc_protocol_state c of
       Running running_state \<Rightarrow>
         let current_params = rs_parameters running_state;
             (tee_state, validation) = reverify_and_cleanup_participants env (mc_tee_state c)
               (tp_participants current_params) (tee_upgrade_deadline_duration c);
             c' = c\<lparr>mc_tee_state := tee_state\<rparr> in
         (case validation of
            TeeFull \<Rightarrow> Inr (c'\<lparr>mc_accept_requests := True\<rparr>, [], True)
          | TeePartial participants_with_valid_attestation \<Rightarrow>
              let threshold = cast_u32 (tp_threshold current_params);
                  remaining = participants_len participants_with_valid_attestation in
              if threshold > remaining then Inr (c'\<lparr>mc_accept_requests := False\<rparr>, [], False)
              else
                bind_res (unwrap (threshold_parameters_new participants_with_valid_attestation threshold))
                  (\<lambda>threshold_parameters.
                bind_res (validate_incoming_proposal current_params threshold_parameters) (\<lambda>_.
                bind_res (transition_to_resharing_no_checks running_state threshold_parameters)
                  (\<lambda>(running_state', res). case res of
                    Some resharing \<Rightarrow> Inr (c'\<lparr>mc_accept_requests := True,
                      mc_protocol_state := Resharing resharing\<rparr>, [], True)
                  | None \<Rightarrow> Inr (c'\<lparr>mc_accept_requests := True,
                      mc_protocol_state := Running running_state'\<rparr>, [], True)))))
     | _ \<Rightarrow> Inl (Err (InvalidState ProtocolStateNotRunning)))"

definition clean_tee_status :: "mpc_contract \<Rightarrow> unit outcome" where
  "clean_tee_status c = (case mc_protocol_state c of
       Running state \<Rightarrow>
         Inr (c\<lparr>mc_tee_state := clean_non_participants (mc_tee_state c) (tp_participants (rs_parameters state))\<rparr>,
           [], ())
     | _ \<Rightarrow> Inl (Err (InvalidState ProtocolStateNotRunning)))"

section \<open>Node migrations\<close>

definition migration_info ::
  "mpc_contract \<Rightarrow> (account_id, backup_service_info option \<times> destination_node_info option) amap" where
  "migration_info c = get_all (mc_node_migrations c)"

definition register_backup_service :: "env \<Rightarrow> mpc_contract \<Rightarrow> backup_service_info \<Rightarrow> unit outcome" where
  "register_backup_service env c backup_service_info =
     bind_res (assert_caller_is_signer env) (\<lambda>account_id.
     bind_res (is_existing_or_prospective_participant (mc_protocol_state c) account_id) (\<lambda>participant.
     bind_res (ensure participant (Err (InvalidState NotParticipant))) (\<lambda>_.
     Inr (c\<lparr>mc_node_migrations :=
       set_backup_service_info (mc_node_migrations c) account_id backup_service_info\<rparr>, [], ()))))"

definition start_node_migration :: "env \<Rightarrow> mpc_contract \<Rightarrow> destination_node_info \<Rightarrow> unit outcome" where
  "start_node_migration env c destination_node_info =
     bind_res (assert_caller_is_signer env) (\<lambda>account_id. case mc_protocol_state c of
       Running running_state \<Rightarrow>
         bind_res (ensure (running_is_participant_given_account_id running_state account_id)
           (Err (InvalidState NotParticipant))) (\<lambda>_.
         Inr (c\<lparr>mc_node_migrations :=
           set_destination_node_info (mc_node_migrations c) account_id destination_node_info\<rparr>, [], ()))
     | _ \<Rightarrow> Inl (Err (InvalidState ProtocolStateNotRunning)))"

definition conclude_node_migration :: "env \<Rightarrow> mpc_contract \<Rightarrow> keyset \<Rightarrow> unit outcome" where
  "conclude_node_migration env c keyset =
     bind_res (assert_caller_is_signer env) (\<lambda>account_id. case mc_protocol_state c of
       Running running_state \<Rightarrow>
         bind_res (ensure (running_is_participant_given_account_id running_state account_id)
           (Err (InvalidState NotParticipant))) (\<lambda>_.
         bind_res (ensure (rs_keyset running_state = keyset) (Err (NodeMigrationError KeysetMismatch))) (\<lambda>_.
         let (migrations, removed) = remove_migration (mc_node_migrations c) account_id in
         bind_res (ok_or removed (Err (NodeMigrationError MigrationNotFound))) (\<lambda>expected_destination_node.
         bind_res (ensure (dn_signer_account_pk expected_destination_node = env_signer_account_pk env)
           (Err (NodeMigrationError AccountPublicKeyMismatch))) (\<lambda>_.
         let node_id = \<lparr>ni_account_id = account_id,
               ni_tls_public_key = pi_sign_pk (dn_destination_node_info expected_destination_node),
               ni_account_public_key = Some (dn_signer_account_pk expected_destination_node)\<rparr> in
         bind_res (ensure (reverify_participants env (mc_tee_state c) node_id
             (tee_upgrade_deadline_duration c) = TeeValid)
           (Err (InvalidParameters InvalidTeeRemoteAttestation))) (\<lambda>_.
         bind_res (threshold_parameters_update_info (rs_parameters running_state) account_id
             (dn_destination_node_info expected_destination_node)) (\<lambda>params.
         Inr (c\<lparr>mc_node_migrations := migrations,
                mc_protocol_state := Running (running_state\<lparr>rs_parameters := params\<rparr>)\<rparr>, [], ())))))))
     | _ \<Rightarrow> Inl (Err (InvalidState ProtocolStateNotRunning)))"

text \<open>The loop of \<^verbatim>\<open>cleanup_orphaned_node_migrations\<close> over the accounts with a backup service.\<close>

fun cleanup_accounts :: "protocol_state \<Rightarrow> node_migrations \<Rightarrow> account_id list \<Rightarrow> node_migrations res" where
  "cleanup_accounts p nm [] = Inr nm"
| "cleanup_accounts p nm (account_id # rest) =
     bind_res (is_existing_or_prospective_participant p account_id) (\<lambda>participant.
     cleanup_accounts p (if participant then nm else remove_account_data nm account_id) rest)"

definition cleanup_orphaned_node_migrations :: "mpc_contract \<Rightarrow> unit outcome" where
  "cleanup_orphaned_node_migrations c =
     bind_res (cleanup_accounts (mc_protocol_state c) (mc_node_migrations c)
       (map fst (nm_backup_services_info (mc_node_migrations c)))) (\<lambda>migrations.
     Inr (c\<lparr>mc_node_migrations := migrations\<rparr>, [], ()))"

section \<open>Initialisation\<close>

definition metrics_default :: metrics where
  "metrics_default = \<lparr>mt_sign_with_v1_payload_count = 0, mt_sign_with_v2_payload_count = 0\<rparr>"

definition initial_contract :: "running_state \<Rightarrow> threshold_parameters \<Rightarrow> init_config option \<Rightarrow> mpc_contract" where
  "initial_contract running_state parameters init_config =
     \<lparr>mc_protocol_state = Running running_state,
      mc_pending_signature_requests = [], mc_pending_ckd_requests = [],
      mc_pending_verify_foreign_tx_requests = [],
      mc_proposed_updates = proposed_updates_default,
      mc_foreign_chain_policy = foreign_chain_policy_default,
      mc_foreign_chain_policy_votes = \<lparr>fcv_proposal_by_account = []\<rparr>,
      mc_config = (case init_config of Some ext \<Rightarrow> config_of_init ext | None \<Rightarrow> config_default),
      mc_tee_state = with_mocked_participant_attestations (tp_participants parameters),
      mc_accept_requests = True,
      mc_node_migrations = node_migrations_default,
      mc_metrics = metrics_default\<rparr>"

definition init :: "threshold_parameters \<Rightarrow> init_config option \<Rightarrow> mpc_contract res" where
  "init parameters init_config =
     bind_res (threshold_parameters_validate parameters) (\<lambda>_.
     Inr (initial_contract
       (running_new domain_registry_default \<lparr>ks_epoch_id = 0, ks_domains = []\<rparr> parameters add_domains_votes_default)
       parameters init_config))"

definition init_running ::
  "domain_config list \<Rightarrow> nat \<Rightarrow> keyset \<Rightarrow> threshold_parameters \<Rightarrow> init_config option \<Rightarrow> mpc_contract res" where
  "init_running domains next_domain_id keyset parameters init_config =
     bind_res (threshold_parameters_validate parameters) (\<lambda>_.
     bind_res (from_raw_validated domains next_domain_id) (\<lambda>domains.
     bind_res (ensure (map dc_id (dr_domains domains) = map kfd_domain_id (ks_domains keyset))
       (Err (DomainError DomainsMismatch))) (\<lambda>_.
     Inr (initial_contract (running_new domains keyset parameters add_domains_votes_default)
       parameters init_config))))"

section \<open>Views\<close>

definition view_public_key :: "mpc_contract \<Rightarrow> domain_id option \<Rightarrow> dto_public_key res" where
  "view_public_key c domain_id =
     (let domain_id = (case domain_id of Some d \<Rightarrow> d | None \<Rightarrow> legacy_ecdsa_id) in
      bind_res (contract_public_key_extended c domain_id) dto_of_extended)"

definition derived_public_key ::
  "contract_libs \<Rightarrow> env \<Rightarrow> mpc_contract \<Rightarrow> string \<Rightarrow> account_id option \<Rightarrow> domain_id option \<Rightarrow>
     dto_public_key res" where
  "derived_public_key cl env c path predecessor domain_id =
     (let cr = cl_crypto cl;
          predecessor = (case predecessor of Some p \<Rightarrow> p | None \<Rightarrow> env_predecessor_account_id env);
          tweak = derive_tweak cr predecessor path;
          domain = (case domain_id of Some d \<Rightarrow> d | None \<Rightarrow> legacy_ecdsa_id) in
      bind_res (contract_public_key_extended c domain) (\<lambda>public_key. case public_key of
        PkSecp256k1 near_public_key \<Rightarrow>
          bind_res (secp256k1_of_near_expect near_public_key) (\<lambda>secp_pk.
          bind_res (map_err (\<lambda>_. Panic UnwrapFailed) (k256_of_secp256k1 cr secp_pk)) (\<lambda>affine.
          bind_res (map_err (\<lambda>_. Err (PublicKeyError PublicKeyTweakNotOnCurve))
            (derive_key_secp256k1 cr affine tweak)) (Inr \<circ> DtoSecp256k1)))
      | PkEd25519 _ edwards_point \<Rightarrow>
          Inr (DtoEd25519 (compress (derive_public_key_edwards_point_ed25519 cr edwards_point tweak)))
      | PkBls12381 public_key \<Rightarrow> Inr public_key))"

definition latest_key_version :: "mpc_contract \<Rightarrow> signature_scheme option \<Rightarrow> nat res" where
  "latest_key_version c scheme =
     bind_res (unwrap (protocol_most_recent_domain_for_protocol (mc_protocol_state c)
       (case scheme of Some s \<Rightarrow> s | None \<Rightarrow> Secp256k1))) (Inr \<circ> cast_u32)"

definition view_allowed_docker_image_hashes :: "env \<Rightarrow> mpc_contract \<Rightarrow> mpc_docker_image_hash list" where
  "view_allowed_docker_image_hashes env c =
     rev (map ai_image_hash
       (get_allowed_mpc_docker_images env (mc_tee_state c) (tee_upgrade_deadline_duration c)))"

abbreviation view_allowed_launcher_compose_hashes :: "mpc_contract \<Rightarrow> launcher_docker_compose_hash list" where
  "view_allowed_launcher_compose_hashes c \<equiv> get_allowed_launcher_compose_hashes (mc_tee_state c)"

abbreviation view_allowed_launcher_image_hashes :: "mpc_contract \<Rightarrow> launcher_image_hash list" where
  "view_allowed_launcher_image_hashes c \<equiv> get_allowed_launcher_hashes (mc_tee_state c)"

abbreviation view_launcher_hash_votes :: "mpc_contract \<Rightarrow> launcher_hash_votes" where
  "view_launcher_hash_votes c \<equiv> ts_launcher_votes (mc_tee_state c)"

abbreviation view_code_hash_votes :: "mpc_contract \<Rightarrow> code_hashes_votes" where
  "view_code_hash_votes c \<equiv> ts_votes (mc_tee_state c)"

definition get_pending_request :: "mpc_contract \<Rightarrow> signature_request \<Rightarrow> yield_index option" where
  "get_pending_request c request = map_of (mc_pending_signature_requests c) request"

abbreviation get_pending_ckd_request :: "mpc_contract \<Rightarrow> ckd_request \<Rightarrow> yield_index option" where
  "get_pending_ckd_request c request \<equiv> map_of (mc_pending_ckd_requests c) request"

definition get_pending_verify_foreign_tx_request ::
  "mpc_contract \<Rightarrow> verify_foreign_tx_request \<Rightarrow> yield_index option" where
  "get_pending_verify_foreign_tx_request c request = map_of (mc_pending_verify_foreign_tx_requests c) request"

abbreviation view_config :: "mpc_contract \<Rightarrow> dto_config" where
  "view_config c \<equiv> dto_of_config (mc_config c)"

abbreviation get_foreign_chain_policy :: "mpc_contract \<Rightarrow> foreign_chain_policy" where
  "get_foreign_chain_policy c \<equiv> mc_foreign_chain_policy c"

abbreviation get_foreign_chain_policy_proposals :: "mpc_contract \<Rightarrow> (account_id, foreign_chain_policy) amap" where
  "get_foreign_chain_policy_proposals c \<equiv>
     foldl (\<lambda>m (account_id, policy). am_insert account_id policy m) []
       (fcv_proposal_by_account (mc_foreign_chain_policy_votes c))"

end
