(* ===== verification/ContractRequests.thy ===== *)
theory ContractRequests
  imports Contract
begin

text \<open>
  What the request and response methods of the contract promise together: the pending maps as an
  interface with its laws, the conditions under which requests are taken and answered, the key an
  accepted signature verifies under, and what a duplicate request does to the one before it.
\<close>

section \<open>Pending requests\<close>

text \<open>A map from requests to yields, as the three kinds of requests use it.\<close>

locale pending_requests =
  fixes get :: "'s \<Rightarrow> 'k \<Rightarrow> yield_index option"
    and add :: "'s \<Rightarrow> 'k \<Rightarrow> crypto_hash \<Rightarrow> 's \<times> bool"
    and remove :: "'k \<Rightarrow> 's \<Rightarrow> 's"
  assumes get_add: "get (fst (add s k d)) k' = (if k' = k then Some \<lparr>yi_data_id = d\<rparr> else get s k')"
    and add_pending: "snd (add s k d) \<longleftrightarrow> get s k \<noteq> None"
    and get_remove: "get (remove k s) k' = (if k' = k then None else get s k')"
begin

definition ids :: "'s \<Rightarrow> crypto_hash set" where
  "ids s = {d. \<exists>k. get s k = Some \<lparr>yi_data_id = d\<rparr>}"

definition one_each :: "'s \<Rightarrow> bool" where
  "one_each s \<longleftrightarrow> (\<forall>k k' y. get s k = Some y \<longrightarrow> get s k' = Some y \<longrightarrow> k' = k)"

lemma override: "get (fst (add (fst (add s k d)) k d')) k = Some \<lparr>yi_data_id = d'\<rparr>"
  "snd (add (fst (add s k d)) k d')"
  by (simp_all add: get_add add_pending)

lemma override_loses: "one_each s \<Longrightarrow> get s k = Some \<lparr>yi_data_id = d\<rparr> \<Longrightarrow> d' \<noteq> d \<Longrightarrow> d \<notin> ids (fst (add s k d'))"
  by (auto simp: ids_def one_each_def get_add split: if_splits)

lemma ids_add: "ids (fst (add s k d)) \<subseteq> insert d (ids s)"
  by (auto simp: ids_def get_add split: if_splits)

lemma ids_remove: "one_each s \<Longrightarrow> get s k = Some \<lparr>yi_data_id = d\<rparr> \<Longrightarrow> ids (remove k s) = ids s - {d}"
  unfolding ids_def one_each_def get_remove by (auto split: if_splits) (metis option.inject yield_index.ext_inject)

lemma ids_remove_subset: "ids (remove k s) \<subseteq> ids s"
  by (auto simp: ids_def get_remove split: if_splits)

lemma one_each_add: "one_each s \<Longrightarrow> d \<notin> ids s \<Longrightarrow> one_each (fst (add s k d))"
  by (auto simp: ids_def one_each_def get_add)

lemma one_each_remove: "one_each s \<Longrightarrow> one_each (remove k s)"
  by (auto simp: one_each_def get_remove)

end

abbreviation remove_signature_request :: "signature_request \<Rightarrow> mpc_contract \<Rightarrow> mpc_contract" where
  "remove_signature_request k c \<equiv>
     c\<lparr>mc_pending_signature_requests := am_remove k (mc_pending_signature_requests c)\<rparr>"

abbreviation remove_ckd_request :: "ckd_request \<Rightarrow> mpc_contract \<Rightarrow> mpc_contract" where
  "remove_ckd_request k c \<equiv> c\<lparr>mc_pending_ckd_requests := am_remove k (mc_pending_ckd_requests c)\<rparr>"

abbreviation remove_foreign_request :: "verify_foreign_tx_request \<Rightarrow> mpc_contract \<Rightarrow> mpc_contract" where
  "remove_foreign_request k c \<equiv>
     c\<lparr>mc_pending_verify_foreign_tx_requests := am_remove k (mc_pending_verify_foreign_tx_requests c)\<rparr>"

interpretation sigs: pending_requests get_pending_request add_signature_request remove_signature_request
  by unfold_locales (auto simp: get_pending_request_def add_signature_request_def)

interpretation ckds: pending_requests get_pending_ckd_request add_ckd_request remove_ckd_request
  by unfold_locales (auto simp: add_ckd_request_def)

interpretation ftxs: pending_requests get_pending_verify_foreign_tx_request add_verify_foreign_tx_request
    remove_foreign_request
  by unfold_locales (auto simp: get_pending_verify_foreign_tx_request_def add_verify_foreign_tx_request_def)

section \<open>The methods on success\<close>

lemma map_err_Inr [simp]: "map_err f r = Inr x \<longleftrightarrow> r = Inr x"
  by (cases r) (simp_all add: map_err_def)

lemma map_err_simps [simp]: "map_err f (Inr x) = Inr x" "map_err f (Inl e) = Inl (f e)"
  by (simp_all add: map_err_def)

lemma or_panic_Inr [simp]: "or_panic r = Inr x \<longleftrightarrow> r = Inr x"
  by (auto simp: or_panic_def split: sum.splits abort.splits)

lemma assert_caller_is_signer_Inr [simp]:
  "assert_caller_is_signer env = Inr a \<longleftrightarrow> env_signer_account_id env = env_predecessor_account_id env \<and>
     a = env_signer_account_id env"
  by (auto simp: assert_caller_is_signer_def res_simps)

lemma require_domain_Inr:
  "require_domain c d purpose = Inr dc \<longleftrightarrow>
     (\<exists>reg. protocol_domain_registry (mc_protocol_state c) = Inr reg \<and>
       get_domain_by_domain_id reg d = Some dc \<and> dc_purpose dc = purpose)"
  by (auto simp: require_domain_def res_simps)

lemma require_gas_Inr [simp]:
  "require_gas env t = Inr u \<longleftrightarrow> t * 10 ^ 12 < 2 ^ 64 \<and> t * 10 ^ 12 \<le> env_prepaid_gas env"
  by (auto simp: require_gas_def gas_from_tgas_def res_simps)

lemma require_deposit_Inr [simp]:
  "require_deposit env n = Inr es \<longleftrightarrow> n \<le> env_attached_deposit env \<and>
     es = refund (env_predecessor_account_id env) (env_attached_deposit env - n)"
  by (auto simp: require_deposit_def token_checked_sub_def checked_sub_def)

lemma read_data_id_Inr [simp]:
  "read_data_id env = Inr d \<longleftrightarrow> length (env_data_id env) = 32 \<and> d = env_data_id env"
  by (auto simp: read_data_id_def)

text \<open>The request a successful \<^verbatim>\<open>sign\<close> makes pending.\<close>

definition made_request :: "contract_libs \<Rightarrow> env \<Rightarrow> sign_request \<Rightarrow> signature_request" where
  "made_request cl env r = signature_request_new (cl_crypto cl) (srq_domain_id r) (srq_payload r)
     (env_predecessor_account_id env) (srq_path r)"

lemma sign_Inr:
  assumes "sign cl env c args = Inr (c', es, u)"
  obtains r reg dc m gas where "sign_request_try_from args = Inr r"
    "protocol_domain_registry (mc_protocol_state c) = Inr reg"
    "get_domain_by_domain_id reg (srq_domain_id r) = Some dc" "dc_purpose dc = Sign"
    "check_sign_payload (cl_crypto cl) (dc_scheme dc) (srq_payload r) = Inr ()"
    "MINIMUM_SIGN_REQUEST_DEPOSIT \<le> env_attached_deposit env" "mc_accept_requests c"
    "c' = fst (add_signature_request (c\<lparr>mc_metrics := m\<rparr>) (made_request cl env r) (env_data_id env))"
    "es = refund (env_predecessor_account_id env) (env_attached_deposit env - MINIMUM_SIGN_REQUEST_DEPOSIT) @
       [YieldCreate ''return_signature_and_clean_state_on_success'' (SignArgs (made_request cl env r)) gas
         (env_data_id env)]"
    "length (env_data_id env) = 32"
  using assms
  by (auto simp: sign_def Let_def res_simps require_domain_Inr made_request_def)

lemma respond_Inr:
  "respond cl env c request response = Inr (c', es, u) \<longleftrightarrow>
     env_signer_account_id env = env_predecessor_account_id env \<and>
     assert_caller_is_attested_participant_and_protocol_active env c = Inr () \<and>
     is_running_or_resharing (mc_protocol_state c) \<and> mc_accept_requests c \<and>
     (\<exists>pk y. contract_public_key_extended c (sr_domain_id request) = Inr pk \<and>
       signature_is_valid (cl_crypto cl) request response pk = Inr True \<and>
       get_pending_request c request = Some y \<and>
       c' = remove_signature_request request c \<and> es = [YieldResume (yi_data_id y) (SignResult response)])"
  by (auto simp: respond_def res_simps get_pending_request_def split: option.splits)

lemma respond_ckd_Inr:
  "respond_ckd env c request response = Inr (c', es, u) \<longleftrightarrow>
     env_signer_account_id env = env_predecessor_account_id env \<and>
     assert_caller_is_attested_participant_and_protocol_active env c = Inr () \<and>
     is_running_or_resharing (mc_protocol_state c) \<and> mc_accept_requests c \<and>
     (\<exists>y. get_pending_ckd_request c request = Some y \<and>
       c' = remove_ckd_request request c \<and> es = [YieldResume (yi_data_id y) (CkdResult response)])"
  by (auto simp: respond_ckd_def res_simps split: option.splits)

lemma respond_foreign_Inr:
  "respond_verify_foreign_tx cl env c request response = Inr (c', es, u) \<longleftrightarrow>
     env_signer_account_id env = env_predecessor_account_id env \<and>
     assert_caller_is_attested_participant_and_protocol_active env c = Inr () \<and>
     is_running_or_resharing (mc_protocol_state c) \<and> mc_accept_requests c \<and>
     (\<exists>pk y. contract_public_key_extended c (vfr_domain_id request) = Inr pk \<and>
       foreign_tx_signature_is_valid (cl_crypto cl) response pk = Inr True \<and>
       get_pending_verify_foreign_tx_request c request = Some y \<and>
       c' = remove_foreign_request request c \<and> es = [YieldResume (yi_data_id y) (ForeignTxResult response)])"
  by (auto simp: respond_verify_foreign_tx_def res_simps get_pending_verify_foreign_tx_request_def split: option.splits)

section \<open>The key a signature verifies under\<close>

text \<open>What it means for a response to be a signature of a payload under a public key of the interface.\<close>

fun is_signature_of :: "crypto \<Rightarrow> dto_public_key \<Rightarrow> payload \<Rightarrow> signature_response \<Rightarrow> bool" where
  "is_signature_of cr (DtoSecp256k1 pk) (PayloadEcdsa hash) (SigSecp256k1 sig) =
     (verify_ecdsa_signature cr sig hash pk = Inr ())"
| "is_signature_of cr (DtoEd25519 pk) (PayloadEddsa message) (SigEd25519 sig) =
     (verify_eddsa_signature cr sig message pk = Inr ())"
| "is_signature_of cr _ _ _ = False"

lemma signature_is_valid_derived:
  assumes "signature_is_valid (cl_crypto cl) request response pk = Inr True"
    "contract_public_key_extended c (sr_domain_id request) = Inr pk"
    "sr_tweak request = derive_tweak (cl_crypto cl) account path"
  shows "\<exists>dk. derived_public_key cl env c path (Some account) (Some (sr_domain_id request)) = Inr dk \<and>
    is_signature_of (cl_crypto cl) dk (sr_payload request) response"
proof (cases response)
  case (SigSecp256k1 s)
  with assms(1) obtain near where "pk = PkSecp256k1 near"
    by (auto simp: signature_is_valid_def split: public_key_extended.splits)
  with assms SigSecp256k1 show ?thesis
    by (auto simp: signature_is_valid_def derived_public_key_def Let_def res_simps is_ok_iff)
next
  case (SigEd25519 s)
  with assms(1) obtain near p where "pk = PkEd25519 near p"
    by (auto simp: signature_is_valid_def split: public_key_extended.splits)
  with assms SigEd25519 show ?thesis
    by (auto simp: signature_is_valid_def derived_public_key_def res_simps Let_def is_ok_iff)
qed

text \<open>
  C24. What the user asked for is what the user gets. If \<^verbatim>\<open>sign\<close>, called by an account with a path,
  accepts a request, and \<^verbatim>\<open>respond\<close> later answers that request while the domain still has the same
  key, then the response is a signature of the payload the user passed, under the key that the view
  \<^verbatim>\<open>derived_public_key\<close> gives for that account, path and domain. The answer is taken from an attested
  participant only, it resumes the yield that is pending for the request, and the request is pending
  no more.
\<close>

theorem accepted_signature_verifies:
  assumes "sign cl env c args = Inr (c1, es1, ())"
    and "YieldCreate f (SignArgs request) gas d \<in> set es1"
    and "contract_public_key_extended c2 (sr_domain_id request) = contract_public_key_extended c (sr_domain_id request)"
    and "respond cl env2 c2 request response = Inr (c3, es2, ())"
  shows "\<exists>r dk y. sign_request_try_from args = Inr r \<and> sr_domain_id request = srq_domain_id r \<and>
    derived_public_key cl env c (srq_path r) (Some (env_predecessor_account_id env)) (Some (srq_domain_id r)) = Inr dk \<and>
    is_signature_of (cl_crypto cl) dk (srq_payload r) response \<and>
    assert_caller_is_attested_participant_and_protocol_active env2 c2 = Inr () \<and>
    get_pending_request c2 request = Some y \<and> es2 = [YieldResume (yi_data_id y) (SignResult response)] \<and>
    get_pending_request c3 request = None"
proof -
  from sign_Inr [OF assms(1)] obtain r gas' where r: "sign_request_try_from args = Inr r"
    and es1: "es1 = refund (env_predecessor_account_id env) (env_attached_deposit env - MINIMUM_SIGN_REQUEST_DEPOSIT) @
       [YieldCreate ''return_signature_and_clean_state_on_success'' (SignArgs (made_request cl env r)) gas'
         (env_data_id env)]" by metis
  have request: "request = made_request cl env r"
    using assms(2) by (auto simp: es1 refund_def split: if_splits)
  then have fields: "sr_domain_id request = srq_domain_id r" "sr_payload request = srq_payload r"
    "sr_tweak request = derive_tweak (cl_crypto cl) (env_predecessor_account_id env) (srq_path r)"
    by (simp_all add: made_request_def signature_request_new_def)
  from assms(4) obtain pk y where pk: "contract_public_key_extended c2 (sr_domain_id request) = Inr pk"
    "signature_is_valid (cl_crypto cl) request response pk = Inr True"
    and y: "get_pending_request c2 request = Some y" "c3 = remove_signature_request request c2"
      "es2 = [YieldResume (yi_data_id y) (SignResult response)]"
      "assert_caller_is_attested_participant_and_protocol_active env2 c2 = Inr ()"
    by (auto simp: respond_Inr)
  have "get_pending_request c3 request = None"
    unfolding y(2) sigs.get_remove by simp
  with signature_is_valid_derived [OF pk(2) pk(1) [unfolded assms(3)] fields(3), of env] r fields y show ?thesis
    by auto
qed

text \<open>
  A contract with one domain, a request of account \<open>u\<close> with path \<open>p\<close>, and an answer to it, over the
  small instance of the third-party functions.
\<close>

definition ex_libs :: contract_libs where
  "ex_libs = \<lparr>cl_tee = toy_libs, cl_crypto = toy_crypto, cl_layout = ex_layout\<rparr>"

definition ex_contract :: mpc_contract where
  "ex_contract = initial_contract (ex_running []) ex_abc None"

definition ex_sign_args :: sign_request_args where
  "ex_sign_args = \<lparr>sra_path = ''p'', sra_payload_v2 = Some (PayloadEcdsa (replicate 32 9)),
     sra_deprecated_payload = None, sra_domain_id = Some 0, sra_deprecated_key_version = None\<rparr>"

definition ex_request :: signature_request where
  "ex_request = signature_request_new toy_crypto 0 (PayloadEcdsa (replicate 32 9)) ''u'' ''p''"

definition ex_signed :: mpc_contract where
  "ex_signed = ex_contract\<lparr>mc_metrics := \<lparr>mt_sign_with_v1_payload_count = 0, mt_sign_with_v2_payload_count = 1\<rparr>,
     mc_pending_signature_requests := [(ex_request, \<lparr>yi_data_id = replicate 32 1\<rparr>)]\<rparr>"

definition ex_response :: signature_response where
  "ex_response = SigSecp256k1 \<lparr>big_r = 0 # replicate 64 117, sig_s = [], recovery_id = 0\<rparr>"

lemma ex_contract_fields:
  "mc_protocol_state ex_contract = Running (ex_running [])"
  "mc_pending_signature_requests ex_contract = []"
  "mc_accept_requests ex_contract" "mc_metrics ex_contract = metrics_default"
  "mc_config ex_contract = config_default"
  "mc_tee_state ex_contract = with_mocked_participant_attestations (tp_participants ex_abc)"
  by (simp_all add: ex_contract_def initial_contract_def)

lemma ex_config_fields:
  "cfg_sign_call_gas_attachment_requirement_tera_gas config_default = 15"
  "cfg_return_signature_and_clean_state_on_success_call_tera_gas config_default = 7"
  "cfg_fail_on_timeout_tera_gas config_default = 2"
  by (simp_all add: config_default_def)

lemma ex_tweak: "cr_k256_scalar_from_repr toy_crypto (derive_tweak toy_crypto a p) = Some 110"
  by (simp add: toy_crypto_def derive_tweak_def derive_from_path_def derivation_path_def TWEAK_DERIVATION_PREFIX_def)

lemma ex_payload_checked: "check_sign_payload toy_crypto Secp256k1 (PayloadEcdsa (replicate 32 9)) = Inr ()"
  by (simp add: check_sign_payload_def as_ecdsa_def as_fixed_bytes_def)
    (simp add: toy_crypto_def)

lemma ex_sign_any:
  assumes "mc_protocol_state c = Running (ex_running [])" "mc_accept_requests c" "mc_config c = config_default"
    "mc_metrics c = \<lparr>mt_sign_with_v1_payload_count = 0, mt_sign_with_v2_payload_count = n\<rparr>" "n < 10"
  shows "sign ex_libs (ex_env ''u'' h) c ex_sign_args =
    Inr (fst (add_signature_request
        (c\<lparr>mc_metrics := \<lparr>mt_sign_with_v1_payload_count = 0, mt_sign_with_v2_payload_count = n + 1\<rparr>\<rparr>)
        ex_request (replicate 32 (of_nat h))),
      [YieldCreate ''return_signature_and_clean_state_on_success'' (SignArgs ex_request)
        (7 * 10 ^ 12) (replicate 32 (of_nat h))], ())"
proof -
  have metrics: "count_payload_versions (mc_metrics c) ex_sign_args =
      Inr \<lparr>mt_sign_with_v1_payload_count = 0, mt_sign_with_v2_payload_count = n + 1\<rparr>"
    using assms(4,5) by (simp add: count_payload_versions_def ex_sign_args_def add_u_ok)
  have args: "unwrap (sign_request_try_from ex_sign_args) =
      Inr \<lparr>srq_payload = PayloadEcdsa (replicate 32 9), srq_path = ''p'', srq_domain_id = 0\<rparr>"
    by (simp add: sign_request_try_from_def ex_sign_args_def)
  have domain: "require_domain c 0 Sign = Inr (ex_domain 0)"
    unfolding require_domain_Inr assms(1)
    by (simp add: protocol_domain_registry_def get_domain_by_domain_id_def ex_running_def ex_domain_def)
  have gas: "require_gas (ex_env ''u'' h) 15 = Inr ()" "gas_from_tgas 7 = Inr (7 * 10 ^ 12)"
    by (simp_all add: ex_env_def gas_from_tgas_def mul_u_ok)
  have deposit: "require_deposit (ex_env ''u'' h) MINIMUM_SIGN_REQUEST_DEPOSIT = Inr []"
    by (simp add: ex_env_def refund_def)
  have data_id: "read_data_id (ex_env ''u'' h) = Inr (replicate 32 (of_nat h))"
    by (simp add: ex_env_def)
  show ?thesis
    by (simp add: sign_def metrics args domain gas deposit data_id assms(2,3) ex_config_fields
        ex_libs_def ex_domain_def ex_payload_checked del: One_nat_def)
      (simp add: ex_request_def ex_env_def Let_def)
qed

lemma ex_sign: "sign ex_libs (ex_env ''u'' 1) ex_contract ex_sign_args =
    Inr (ex_signed, [YieldCreate ''return_signature_and_clean_state_on_success'' (SignArgs ex_request)
      (7 * 10 ^ 12) (replicate 32 1)], ())"
  using ex_sign_any [of ex_contract 0 1]
  by (simp add: ex_contract_fields metrics_default_def ex_signed_def add_signature_request_def)

lemma ex_attested:
  "assert_caller_is_attested_participant_and_protocol_active (ex_env ''a'' h) ex_signed = Inr ()"
  by (simp add: assert_caller_is_attested_participant_and_protocol_active_def assert_caller_is_signer_def
      active_participants_def ex_signed_def ex_contract_fields ex_running_def ex_env_def is_caller_an_attested_participant_def
      with_mocked_participant_attestations_def tee_state_default_def mocked_attestation_def participants_info_def
      ex_params_defs)

lemma ex_respond: "respond ex_libs (ex_env ''a'' 2) ex_signed ex_request ex_response =
    Inr (remove_signature_request ex_request ex_signed, [YieldResume (replicate 32 1) (SignResult ex_response)], ())"
proof -
  have pk: "contract_public_key_extended ex_signed (sr_domain_id ex_request) = Inr (ex_key 7)"
    by (simp add: contract_public_key_extended_def protocol_public_key_def keyset_public_key_def ex_signed_def
        ex_contract_fields ex_running_def ex_request_def signature_request_new_def)
  have "derive_key_secp256k1 toy_crypto (K256Point (replicate 64 7)) (sr_tweak ex_request) = Inr (replicate 64 117)"
    unfolding derive_key_secp256k1_def
    by (simp add: ex_request_def signature_request_new_def ex_tweak)
      (simp add: toy_crypto_def secp256k1_of_k256_def zip_replicate)
  then have "signature_is_valid toy_crypto ex_request ex_response (ex_key 7) = Inr True"
    by (simp add: signature_is_valid_def ex_response_def ex_key_def secp256k1_of_near_expect_def copy_from_slice_def
        k256_of_secp256k1_def as_ecdsa_def as_fixed_bytes_def
        ex_request_def signature_request_new_def)
      (simp add: toy_crypto_def verify_ecdsa_signature_def to_ecrecover_bytes_def)
  then show ?thesis
    unfolding respond_Inr using pk ex_attested
    by (simp add: ex_libs_def get_pending_request_def)
      (simp add: ex_env_def ex_signed_def ex_contract_fields is_running_or_resharing_def)
qed

theorem accepted_signature_verifies_witness:
  "\<exists>dk. derived_public_key ex_libs (ex_env ''u'' 1) ex_contract ''p'' (Some ''u'') (Some 0) = Inr dk \<and>
     is_signature_of toy_crypto dk (PayloadEcdsa (replicate 32 9)) ex_response"
proof -
  have "contract_public_key_extended ex_signed (sr_domain_id ex_request) =
      contract_public_key_extended ex_contract (sr_domain_id ex_request)"
    by (simp add: contract_public_key_extended_def ex_signed_def)
  from accepted_signature_verifies [OF ex_sign _ this ex_respond] show ?thesis
    by (auto simp: sign_request_try_from_Inr ex_sign_args_def ex_libs_def)
      (auto simp: ex_env_def)
qed

section \<open>Duplicate requests\<close>

text \<open>
  C25. A request that is made again while it is pending takes over the entry of the first one, and the
  first one takes it down. After the second \<^verbatim>\<open>sign\<close> a response resumes the yield of the second call
  only, so the first call is left to its timeout; the callback of that timeout then removes the entry
  of the second call, and from there on no response for the request is accepted, although the second
  call has not timed out.
\<close>

theorem duplicate_request_lost:
  assumes "get_pending_request c request = Some y"
    and "sign cl env c args = Inr (c1, es1, ())" "YieldCreate f (SignArgs request) gas d \<in> set es1"
    and "return_signature_and_clean_state_on_success env1 c1 request None = Inr (c2, es2, v)"
  shows "(\<forall>cl env response c' es. respond cl env c1 request response = Inr (c', es, ()) \<longrightarrow>
      es = [YieldResume d (SignResult response)]) \<and>
    (\<forall>cl env response. \<not> is_ok (respond cl env c2 request response))"
proof -
  from sign_Inr [OF assms(2)] obtain r m gas' where
    c1: "c1 = fst (add_signature_request (c\<lparr>mc_metrics := m\<rparr>) (made_request cl env r) (env_data_id env))"
    and es1: "es1 = refund (env_predecessor_account_id env) (env_attached_deposit env - MINIMUM_SIGN_REQUEST_DEPOSIT) @
       [YieldCreate ''return_signature_and_clean_state_on_success'' (SignArgs (made_request cl env r)) gas'
         (env_data_id env)]" by metis
  have request: "request = made_request cl env r" "d = env_data_id env"
    using assms(3) by (auto simp: es1 refund_def split: if_splits)
  have "get_pending_request c1 request = Some \<lparr>yi_data_id = d\<rparr>"
    unfolding c1 sigs.get_add request by simp
  moreover have "get_pending_request c2 request = None"
    using assms(4) sigs.get_remove [of request c1 request]
    by (auto simp: return_signature_and_clean_state_on_success_def res_simps)
  ultimately show ?thesis by (auto simp: respond_Inr is_ok_iff)
qed

theorem duplicate_request_lost_witness:
  "\<exists>c1 es1 c2 es2 v. sign ex_libs (ex_env ''u'' 2) ex_signed ex_sign_args = Inr (c1, es1, ()) \<and>
     return_signature_and_clean_state_on_success (ex_env ''mpc'' 3) c1 ex_request None = Inr (c2, es2, v) \<and>
     \<not> is_ok (respond ex_libs (ex_env ''a'' 4) c2 ex_request ex_response)"
proof -
  have "mc_protocol_state ex_signed = Running (ex_running [])" "mc_accept_requests ex_signed"
    "mc_config ex_signed = config_default"
    "mc_metrics ex_signed = \<lparr>mt_sign_with_v1_payload_count = 0, mt_sign_with_v2_payload_count = 1\<rparr>"
    by (simp_all add: ex_signed_def ex_contract_fields)
  from ex_sign_any [OF this, of 2] obtain c1 es1 where
    s: "sign ex_libs (ex_env ''u'' 2) ex_signed ex_sign_args = Inr (c1, es1, ())"
    "YieldCreate ''return_signature_and_clean_state_on_success'' (SignArgs ex_request) (7 * 10 ^ 12) (replicate 32 2) \<in> set es1"
    "mc_config c1 = config_default"
    by (simp add: add_signature_request_def \<open>mc_config ex_signed = config_default\<close>)
  have "is_ok (return_signature_and_clean_state_on_success (ex_env ''mpc'' 3) c1 ex_request None)"
    by (simp add: return_signature_and_clean_state_on_success_def fail_on_timeout_promise_def s(3) ex_config_fields
        gas_from_tgas_def mul_u_ok)
  then obtain c2 es2 v where
    r: "return_signature_and_clean_state_on_success (ex_env ''mpc'' 3) c1 ex_request None = Inr (c2, es2, v)"
    by (auto simp: is_ok_iff)
  have "get_pending_request ex_signed ex_request = Some \<lparr>yi_data_id = replicate 32 1\<rparr>"
    by (simp add: get_pending_request_def ex_signed_def)
  from duplicate_request_lost [OF this s(1,2) r] s(1) r show ?thesis by blast
qed

end
