(* ===== verification/ContractGovernance.thy ===== *)
theory ContractGovernance
  imports ContractRequests
begin

text \<open>
  The methods by which the participants govern the network: updates of the contract, the policy on
  foreign chains, re-verification of attestations with the resharing it may force, node migrations,
  and who may write which attestation.
\<close>

section \<open>Counting participants\<close>

lemma length_filter_accounts:
  assumes "wf_participants ps"
  shows "length (filter (\<lambda>e. P (entry_account e)) (ps_participants ps)) = card {a \<in> accounts_of ps. P a}"
proof -
  let ?xs = "filter (\<lambda>e. P (entry_account e)) (ps_participants ps)"
  have "distinct (map entry_account ?xs)"
    using assms by (simp add: wf_participants_def distinct_map_filter)
  then have "length ?xs = card (entry_account ` set ?xs)"
    by (metis distinct_card length_map list.set_map)
  also have "entry_account ` set ?xs = {a \<in> accounts_of ps. P a}"
    by (auto simp: accounts_of_def)
  finally show ?thesis .
qed

lemma card_filter_all: "finite A \<Longrightarrow> card {a \<in> A. P a} = card A \<longleftrightarrow> (\<forall>a \<in> A. P a)"
  by (metis (mono_tags, lifting) Collect_subset card_subset_eq mem_Collect_eq subsetI subset_antisym)

lemma participants_len_less:
  assumes "wf_participants ps" "u32_participants ps"
  shows "participants_len ps < 2 ^ 32"
proof -
  have "participants_len ps = card (entry_id ` set (ps_participants ps))"
    using assms(1) unfolding participants_len_def wf_participants_def
    by (metis distinct_card length_map list.set_map)
  also have "\<dots> \<le> card {..<ps_next_id ps}"
    using assms(1) by (intro card_mono) (auto simp: wf_participants_def list_all_iff)
  also have "\<dots> < 2 ^ 32" using assms(2) by (simp add: u32_participants_def)
  finally show ?thesis .
qed

lemma voter_account_Inr:
  "voter_account env c = Inr a \<longleftrightarrow> env_signer_account_id env = env_predecessor_account_id env \<and>
     authenticate_update_vote env (mc_protocol_state c) = Inr () \<and> a = env_signer_account_id env"
  by (auto simp: voter_account_def caller_is_signer_def res_simps)

lemma voter_or_panic_Inr:
  "voter_or_panic env c = Inr a \<longleftrightarrow> env_signer_account_id env = env_predecessor_account_id env \<and>
     authenticate_update_vote env (mc_protocol_state c) = Inr () \<and> a = env_signer_account_id env"
  by (auto simp: voter_or_panic_def voter_account_Inr res_simps)

lemma authenticate_running:
  "authenticate_update_vote env (Running r) = Inr () \<longleftrightarrow> env_signer_account_id env \<in> tp_accounts (rs_parameters r)"
proof (cases "authenticated_participant_id env (tp_participants (rs_parameters r))")
  case (Inl e)
  then show ?thesis
    by (simp add: authenticate_update_vote_def) (simp add: authenticated_participant_id_Inl)
next
  case (Inr i)
  then show ?thesis
    using authenticated_participant_id_mem [OF Inr] by (simp add: authenticate_update_vote_def)
qed

section \<open>Updates\<close>

text \<open>
  C26. An update of the contract is carried out by the vote that completes a threshold of current
  participants for it, and by no other. A successful \<^verbatim>\<open>vote_update\<close> comes from a participant and is
  for an update that exists; it executes exactly when the current participants whose recorded vote is
  for this update, the caller included, are at least the threshold. Votes of former participants do not
  count. The execution hands over exactly the promise of the voted entry and discards every other
  proposal and all votes; otherwise the only change is that the caller's vote is now for this update.
\<close>

theorem update_needs_threshold:
  assumes "mc_protocol_state c = Running r" "wf_running r" "vote_update env c uid = Inr (c', es, executed)"
  defines "voters \<equiv> {a \<in> tp_accounts (rs_parameters r). a = env_signer_account_id env \<or>
    map_of (pu_vote_by_participant (mc_proposed_updates c)) a = Some uid}"
  shows "env_signer_account_id env \<in> tp_accounts (rs_parameters r) \<and>
    (\<exists>entry. map_of (pu_entries (mc_proposed_updates c)) uid = Some entry \<and>
      (executed \<longleftrightarrow> tp_threshold (rs_parameters r) \<le> card voters) \<and>
      (executed \<longrightarrow> (\<exists>gas promise. update_promise env (ue_update entry) gas = Inr promise \<and> es = [promise]) \<and>
        pu_entries (mc_proposed_updates c') = [] \<and> pu_vote_by_participant (mc_proposed_updates c') = []) \<and>
      (\<not> executed \<longrightarrow> es = [] \<and> pu_entries (mc_proposed_updates c') = pu_entries (mc_proposed_updates c) \<and>
        (\<forall>a. map_of (pu_vote_by_participant (mc_proposed_updates c')) a =
          (if a = env_signer_account_id env then Some uid
           else map_of (pu_vote_by_participant (mc_proposed_updates c)) a))))"
proof -
  let ?pu = "mc_proposed_updates c" and ?me = "env_signer_account_id env"
  obtain updates recorded where v: "update_vote ?pu uid ?me = (updates, recorded)" by fastforce
  have steps: "voter_or_panic env c = Inr ?me" "recorded"
    using assms(3) v by (auto simp: vote_update_def assms(1) res_simps voter_or_panic_Inr)
  have me: "?me \<in> tp_accounts (rs_parameters r)"
    using steps(1) unfolding voter_or_panic_Inr assms(1) authenticate_running by blast
  obtain entry where entry: "map_of (pu_entries ?pu) uid = Some entry"
    using v steps(2) by (auto simp: update_vote_def update_remove_vote_def Let_def split: if_splits)
  have upd: "pu_entries updates = pu_entries ?pu"
    "\<And>a. map_of (pu_vote_by_participant updates) a = (if a = ?me then Some uid else map_of (pu_vote_by_participant ?pu) a)"
    using v entry by (auto simp: update_vote_def update_remove_vote_def Let_def)
  have count: "length (filter (\<lambda>e. map_of (pu_vote_by_participant updates) (entry_account e) = Some uid)
      (tp_entries (rs_parameters r))) = card voters"
    using length_filter_accounts [OF wf_parametersD(1), of "rs_parameters r"
        "\<lambda>a. map_of (pu_vote_by_participant updates) a = Some uid"] assms(2)
    by (simp add: wf_running_def upd(2) voters_def if_distrib cong: conj_cong) (metis (mono_tags, lifting))
  have eq: "vote_update env c uid =
     (if card voters < tp_threshold (rs_parameters r) then Inr (c\<lparr>mc_proposed_updates := updates\<rparr>, [], False)
      else bind_res (gas_from_tgas (cfg_contract_upgrade_deposit_tera_gas (mc_config c))) (\<lambda>gas.
        bind_res (do_update env updates uid gas) (\<lambda>(updates', promise). case promise of
             None \<Rightarrow> Inl (Err (InvalidParameters UpdateNotFound))
           | Some promise \<Rightarrow> Inr (c\<lparr>mc_proposed_updates := updates'\<rparr>, [promise], True))))"
    using steps v count
    by (simp add: vote_update_def assms(1) contract_threshold_def protocol_threshold_def)
  show ?thesis
    using assms(3) me entry upd unfolding eq
    by (auto simp: do_update_def res_simps split: if_splits option.splits)
qed

text \<open>One proposed update with the vote of \<open>b\<close>, out of three participants with threshold two.\<close>

definition ex_voted :: mpc_contract where
  "ex_voted = ex_contract\<lparr>mc_proposed_updates :=
     \<lparr>pu_vote_by_participant = [(''b'', 0), (''x'', 0)],
      pu_entries = [(0, \<lparr>ue_update = ContractUpdate [1], ue_bytes_used = 1\<rparr>)], pu_id = 1\<rparr>\<rparr>"

lemma ex_voter: "mc_protocol_state c = Running (ex_running votes) \<Longrightarrow> a \<in> {''a'', ''b'', ''c''} \<Longrightarrow>
    voter_or_panic (ex_env a h) c = Inr a"
  unfolding voter_or_panic_Inr
  by (simp only: authenticate_running) (auto simp: ex_env_def ex_running_def ex_params_defs accounts_of_def)

theorem update_needs_threshold_witness:
  "\<exists>c'. vote_update (ex_env ''a'' 1) ex_voted 0 = Inr (c',
      [Batch ''mpc'' [DeployContract [1], FunctionCall ''migrate'' NoArgs 0 (50 * 10 ^ 12)]], True) \<and>
     tp_threshold ex_abc \<le> card {a \<in> tp_accounts ex_abc. a = ''a'' \<or> map_of [(''b'', 0), (''x'', 0::nat)] a = Some 0}"
proof -
  have running: "mc_protocol_state ex_voted = Running (ex_running [])"
    by (simp add: ex_voted_def ex_contract_fields)
  have "vote_update (ex_env ''a'' 1) ex_voted 0 = Inr (ex_voted\<lparr>mc_proposed_updates := \<lparr>pu_vote_by_participant = [],
      pu_entries = [], pu_id = 1\<rparr>\<rparr>,
      [Batch ''mpc'' [DeployContract [1], FunctionCall ''migrate'' NoArgs 0 (50 * 10 ^ 12)]], True)" (is "_ = Inr ?r")
    unfolding vote_update_def running protocol_state.case
    by (simp add: running ex_voter contract_threshold_def protocol_threshold_def update_vote_def update_remove_vote_def
        ex_voted_def ex_contract_fields ex_running_def ex_params_defs do_update_def update_promise_def
        config_default_def gas_from_tgas_def mul_u_ok del: One_nat_def)
      (simp add: ex_env_def)
  from update_needs_threshold [OF running ex_running_wf this] this show ?thesis
    by (auto simp: ex_running_def ex_voted_def ex_env_def)
qed

section \<open>The policy on foreign chains\<close>

text \<open>
  C27. The foreign chain policy changes by unanimity only. A successful \<^verbatim>\<open>vote_foreign_chain_policy\<close>
  comes from a participant; it puts the voted policy into force, and clears the ballot box, exactly when
  every other participant's recorded vote is for that very policy. Otherwise the policy in force stays
  and the caller's vote is recorded in place of an earlier one.
\<close>

theorem foreign_policy_unanimous:
  assumes "mc_protocol_state c = Running r" "wf_running r"
    "vote_foreign_chain_policy env c policy = Inr (c', es, ())"
  shows "env_signer_account_id env \<in> tp_accounts (rs_parameters r) \<and> es = [] \<and>
    (if \<forall>a \<in> tp_accounts (rs_parameters r) - {env_signer_account_id env}.
          map_of (fcv_proposal_by_account (mc_foreign_chain_policy_votes c)) a = Some policy
     then mc_foreign_chain_policy c' = policy \<and> fcv_proposal_by_account (mc_foreign_chain_policy_votes c') = []
     else mc_foreign_chain_policy c' = mc_foreign_chain_policy c \<and>
       fcv_proposal_by_account (mc_foreign_chain_policy_votes c') =
         am_insert (env_signer_account_id env) policy (fcv_proposal_by_account (mc_foreign_chain_policy_votes c)))"
proof -
  let ?ps = "tp_participants (rs_parameters r)" and ?me = "env_signer_account_id env"
  let ?votes = "am_insert ?me policy (fcv_proposal_by_account (mc_foreign_chain_policy_votes c))"
  let ?A = "{a \<in> accounts_of ?ps. map_of ?votes a = Some policy}"
  have wf: "wf_participants ?ps" using assms(2) by (simp add: wf_running_def wf_parametersD)
  have me: "authenticated_account_id env ?ps = Inr ?me" "?me \<in> accounts_of ?ps"
    using assms(3) by (auto simp: vote_foreign_chain_policy_def assms(1) Let_def res_simps
        authenticated_account_id_def split: if_splits)
  have count: "length (filter (\<lambda>e. map_of ?votes (entry_account e) = Some policy) (ps_participants ?ps)) = card ?A"
    by (rule length_filter_accounts [OF wf])
  have "finite (accounts_of ?ps)" "participants_len ?ps = card (accounts_of ?ps)"
    using length_filter_accounts [OF wf, of "\<lambda>_. True"] by (simp_all add: accounts_of_def participants_len_def)
  then have all: "card ?A = participants_len ?ps \<longleftrightarrow> (\<forall>a \<in> accounts_of ?ps. map_of ?votes a = Some policy)"
    by (simp only: card_filter_all)
  have "(\<forall>a \<in> accounts_of ?ps. map_of ?votes a = Some policy) \<longleftrightarrow> (\<forall>a \<in> accounts_of ?ps - {?me}.
      map_of (fcv_proposal_by_account (mc_foreign_chain_policy_votes c)) a = Some policy)" by auto
  with assms(3) me show ?thesis
    unfolding vote_foreign_chain_policy_def assms(1) protocol_state.case Let_def me(1) bind_res_Inr count all
    by (auto split: if_splits)
qed

definition ex_policy :: foreign_chain_policy where
  "ex_policy = \<lparr>fcp_chains = [(Bitcoin, [''rpc''])]\<rparr>"

theorem foreign_policy_unanimous_witness:
  "\<exists>c'. vote_foreign_chain_policy (ex_env ''c'' 1) (ex_contract\<lparr>mc_foreign_chain_policy_votes :=
      \<lparr>fcv_proposal_by_account = [(''a'', ex_policy), (''b'', ex_policy)]\<rparr>\<rparr>) ex_policy = Inr (c', [], ()) \<and>
     mc_foreign_chain_policy c' = ex_policy"
proof -
  let ?c = "ex_contract\<lparr>mc_foreign_chain_policy_votes :=
      \<lparr>fcv_proposal_by_account = [(''a'', ex_policy), (''b'', ex_policy)]\<rparr>\<rparr>"
  have running: "mc_protocol_state ?c = Running (ex_running [])" by (simp add: ex_contract_fields)
  have "is_ok (vote_foreign_chain_policy (ex_env ''c'' 1) ?c ex_policy)"
    unfolding vote_foreign_chain_policy_def running
    by (simp add: Let_def authenticated_account_id_def ex_running_def ex_params_defs ex_env_def accounts_of_def)
  then obtain c' es where r: "vote_foreign_chain_policy (ex_env ''c'' 1) ?c ex_policy = Inr (c', es, ())"
    by (auto simp: is_ok_iff)
  have "\<forall>a \<in> tp_accounts (rs_parameters (ex_running [])) - {env_signer_account_id (ex_env ''c'' 1)}.
      map_of (fcv_proposal_by_account (mc_foreign_chain_policy_votes ?c)) a = Some ex_policy"
    by (auto simp: ex_running_def ex_params_defs ex_env_def accounts_of_def)
  with foreign_policy_unanimous [OF running ex_running_wf r] r show ?thesis by auto
qed

section \<open>Re-verification and forced resharing\<close>

text \<open>The parameters \<^verbatim>\<open>verify_tee\<close> proposes: those participants that pass, with the same threshold.\<close>

definition surviving :: "env \<Rightarrow> mpc_contract \<Rightarrow> threshold_parameters \<Rightarrow> threshold_parameters" where
  "surviving env c tp = \<lparr>tp_participants = \<lparr>ps_next_id = ps_next_id (tp_participants tp),
     ps_participants = filter (has_valid_attestation env (mc_tee_state c) (tee_upgrade_deadline_duration c))
       (tp_entries tp)\<rparr>, tp_threshold = tp_threshold tp\<rparr>"

lemma surviving_wf:
  assumes "wf_parameters tp" "tp_threshold tp \<le> tp_len (surviving env c tp)"
  shows "wf_parameters (surviving env c tp)"
proof -
  have "tp_len (surviving env c tp) \<le> tp_len tp"
    by (simp add: surviving_def participants_len_def)
  moreover have "wf_participants (tp_participants (surviving env c tp))"
    using wf_parametersD(1) [OF assms(1)]
    by (auto simp: wf_participants_def surviving_def distinct_map_filter list_all_iff)
  moreover have "u32_participants (tp_participants (surviving env c tp))"
    using wf_parametersD(2) [OF assms(1)] by (simp add: u32_participants_def surviving_def)
  moreover have "tp_threshold (surviving env c tp) = tp_threshold tp" by (simp add: surviving_def)
  ultimately show ?thesis using assms by (simp add: wf_parameters_def)
qed

lemma surviving_validated:
  assumes "wf_parameters tp" "tp_threshold tp \<le> tp_len (surviving env c tp)"
  shows "validate_incoming_proposal tp (surviving env c tp) = Inr ()"
proof -
  note wf = surviving_wf [OF assms]
  have sub: "set (tp_entries (surviving env c tp)) \<subseteq> set (tp_entries tp)"
    by (auto simp: surviving_def)
  then have acc: "tp_accounts (surviving env c tp) \<subseteq> tp_accounts tp"
    by (auto simp: accounts_of_def)
  have "card (tp_accounts (surviving env c tp) \<inter> tp_accounts tp) = tp_len (surviving env c tp)"
    using length_filter_accounts [OF wf_parametersD(1) [OF wf], of "\<lambda>_. True"] acc
    by (simp add: Int_absorb2 participants_len_def)
  moreover have "fresh_ids tp (surviving env c tp) = {}"
    using acc by (auto simp: fresh_ids_def)
  ultimately show ?thesis
    using validate_incoming_proposal_eq [OF wf_parametersD(1) [OF assms(1)] wf_parametersD(2) [OF wf]] wf sub assms(2)
    by auto
qed

lemma surviving_new:
  assumes "wf_parameters tp" "tp_threshold tp \<le> tp_len (surviving env c tp)"
  shows "threshold_parameters_new (tp_participants (surviving env c tp)) (cast_u32 (tp_threshold tp)) =
    Inr (surviving env c tp)"
proof -
  have "tp_threshold tp < 2 ^ 32"
    using participants_len_less [OF wf_parametersD(1,2) [OF assms(1)]] wf_parametersD(4) [OF assms(1)] by simp
  then have "cast_u32 (tp_threshold tp) = tp_threshold (surviving env c tp)"
    by (simp add: cast_u32_def surviving_def)
  moreover have "validate_threshold (tp_len (surviving env c tp)) (tp_threshold (surviving env c tp)) = Inr ()"
    using surviving_wf [OF assms] by (simp add: validate_threshold_iff wf_parameters_def)
  ultimately show ?thesis by (simp add: threshold_parameters_new_def)
qed

text \<open>The verdict of \<^verbatim>\<open>reverify_and_cleanup_participants\<close> on the current participants.\<close>

lemma reverify_verdict:
  "snd (reverify_and_cleanup_participants env (mc_tee_state c) (tp_participants tp)
      (tee_upgrade_deadline_duration c)) =
    (if tp_entries (surviving env c tp) = tp_entries tp then TeeFull
     else TeePartial (tp_participants (surviving env c tp)))"
  by (auto simp: reverify_cleanup_eq surviving_def participants_init_def filter_id_conv)

lemma verify_tee_decision:
  assumes "mc_protocol_state c = Running r" "wf_running r"
    and "env_signer_account_id env = env_predecessor_account_id env"
    and "env_signer_account_id env \<in> tp_accounts (rs_parameters r)"
    and "running_prospective_epoch_id r = Inr e" "ks_epoch_id (rs_keyset r) + 1 < 2 ^ 64"
  defines "ok \<equiv> tp_threshold (rs_parameters r) \<le> tp_len (surviving env c (rs_parameters r))"
    and "all \<equiv> tp_entries (surviving env c (rs_parameters r)) = tp_entries (rs_parameters r)"
  shows "\<exists>c'. verify_tee env c = Inr (c', [], ok) \<and> mc_accept_requests c' = ok \<and>
    (if all \<or> \<not> ok then mc_protocol_state c' = mc_protocol_state c
     else active_participants (mc_protocol_state c') = Inr (tp_participants (surviving env c (rs_parameters r))) \<and>
       protocol_step (mc_protocol_state c) (mc_protocol_state c'))"
proof -
  let ?tp = "rs_parameters r" and ?s = "surviving env c (rs_parameters r)"
  have wf: "wf_parameters ?tp" using assms(2) by (simp add: wf_running_def)
  have voter: "voter_or_panic env c = Inr (env_signer_account_id env)"
    using assms(3,4) by (simp only: voter_or_panic_Inr assms(1) authenticate_running)
  obtain ts v where rv0: "reverify_and_cleanup_participants env (mc_tee_state c) (tp_participants ?tp)
      (tee_upgrade_deadline_duration c) = (ts, v)" by fastforce
  have "v = (if all then TeeFull else TeePartial (tp_participants ?s))"
    using reverify_verdict [of env c ?tp] rv0 by (simp add: all_def)
  note rv = rv0 [unfolded this]
  note step = verify_tee_def voter bind_res_Inr assms(1) protocol_state.case Let_def rv prod.case
  have thr: "cast_u32 (tp_threshold ?tp) = tp_threshold ?tp"
    using participants_len_less [OF wf_parametersD(1,2) [OF wf]] wf_parametersD(4) [OF wf]
    by (simp add: cast_u32_def)
  show ?thesis
  proof (cases "all \<or> \<not> ok")
    case True
    moreover have "all \<Longrightarrow> ok"
      using wf_parametersD(4) [OF wf] by (simp add: ok_def all_def participants_len_def)
    ultimately show ?thesis
      unfolding step using thr assms(1) by (auto simp: ok_def)
  next
    case False
    then have ok: "tp_threshold ?tp \<le> tp_len ?s" by (simp add: ok_def)
    have u: "u32_participants (tp_participants ?s)" by (rule wf_parametersD(2) [OF surviving_wf [OF wf ok]])
    have "is_ok (transition_to_resharing_no_checks r ?s)"
      using assms(5,6)
      by (cases "get_domain_by_index (rs_domains r) 0")
        (simp_all add: transition_to_resharing_no_checks_def epoch_id_next_def add_u_ok)
    then obtain r' nx where t: "transition_to_resharing_no_checks r ?s = Inr (r', nx)"
      by (auto simp: is_ok_iff)
    note ps = step_tee_resharing [OF surviving_validated [OF wf ok] u t, simplified]
    have "verify_tee env c = Inr (c\<lparr>mc_tee_state := ts, mc_accept_requests := True,
        mc_protocol_state := (case nx of Some s \<Rightarrow> Resharing s | None \<Rightarrow> Running r')\<rparr>, [], True)"
      unfolding step using False ok
      by (simp add: thr surviving_new [OF wf ok, unfolded thr] surviving_validated [OF wf ok] t unwrap_def
          split: option.split)
    moreover have "active_participants (case nx of Some s \<Rightarrow> Resharing s | None \<Rightarrow> Running r') = Inr (tp_participants ?s)"
      using t by (auto simp: transition_to_resharing_no_checks_def active_participants_def res_simps key_event_new_def
          running_new_def split: option.splits)
    moreover have "protocol_step (Running r) (case nx of Some s \<Rightarrow> Resharing s | None \<Rightarrow> Running r')"
      using ps by (simp split: option.splits)
    ultimately show ?thesis using False by (auto simp: assms(1))
  qed
qed

text \<open>
  C28. \<^verbatim>\<open>verify_tee\<close> always comes to a decision. Called by a participant in a well-formed running state,
  while the epoch counter has room, it does not abort: the \<^verbatim>\<open>expect\<close> on the threshold parameters and
  the validation of its own proposal never fail. It returns, and sets whether requests are accepted to,
  whether at least a threshold of the participants has an attestation that passes. If all pass or fewer
  than a threshold pass, the protocol state stays as it is; in between, the network goes on with exactly
  the participants that pass, in their order, with their ids, infos and next id.
\<close>

theorem verify_tee_decides:
  assumes "mc_protocol_state c = Running r" "wf_running r"
    and "env_signer_account_id env = env_predecessor_account_id env"
    and "env_signer_account_id env \<in> tp_accounts (rs_parameters r)"
    and "running_prospective_epoch_id r = Inr e" "ks_epoch_id (rs_keyset r) + 1 < 2 ^ 64"
  defines "ok \<equiv> tp_threshold (rs_parameters r) \<le> tp_len (surviving env c (rs_parameters r))"
    and "all \<equiv> tp_entries (surviving env c (rs_parameters r)) = tp_entries (rs_parameters r)"
  shows "\<exists>c'. verify_tee env c = Inr (c', [], ok) \<and> mc_accept_requests c' = ok \<and>
    (if all \<or> \<not> ok then mc_protocol_state c' = mc_protocol_state c
     else active_participants (mc_protocol_state c') = Inr (tp_participants (surviving env c (rs_parameters r))) \<and>
       protocol_step (mc_protocol_state c) (mc_protocol_state c'))"
  unfolding ok_def all_def by (rule verify_tee_decision [OF assms(1-6)])

text \<open>The attestation of \<open>c\<close> is missing.\<close>

definition ex_unattested :: mpc_contract where
  "ex_unattested = ex_contract\<lparr>mc_tee_state := (mc_tee_state ex_contract)\<lparr>ts_stored_attestations :=
     am_remove (NearPublicKey ED25519 [2]) (ts_stored_attestations (mc_tee_state ex_contract))\<rparr>\<rparr>"

lemma ex_unattested_survivors:
  "surviving env ex_unattested (rs_parameters (ex_running [])) =
     \<lparr>tp_participants = \<lparr>ps_next_id = 3, ps_participants = [ex_entry ''a'' 0, ex_entry ''b'' 1]\<rparr>, tp_threshold = 2\<rparr>"
proof -
  have tee: "mc_tee_state ex_unattested = (with_mocked_participant_attestations (tp_participants ex_abc))\<lparr>
      ts_stored_attestations := am_remove (NearPublicKey ED25519 [2])
        (ts_stored_attestations (with_mocked_participant_attestations (tp_participants ex_abc)))\<rparr>"
    by (simp add: ex_unattested_def ex_contract_fields)
  have valid: "has_valid_attestation env (mc_tee_state ex_unattested) dur (ex_entry ''a'' 0)"
    "has_valid_attestation env (mc_tee_state ex_unattested) dur (ex_entry ''b'' 1)"
    "\<not> has_valid_attestation env (mc_tee_state ex_unattested) dur (ex_entry ''c'' 2)" for dur
    by (simp_all add: tee has_valid_attestation_iff with_mocked_participant_attestations_def ex_params_defs
        tee_state_default_def mocked_attestation_def re_verify_def verify_mock_attestation_def)
  then show ?thesis by (simp add: surviving_def ex_running_def ex_abc_def)
qed

theorem verify_tee_decides_witness:
  "\<exists>c'. verify_tee (ex_env ''a'' 1) ex_unattested = Inr (c', [], True) \<and> mc_accept_requests c' \<and>
     active_participants (mc_protocol_state c') =
       Inr \<lparr>ps_next_id = 3, ps_participants = [ex_entry ''a'' 0, ex_entry ''b'' 1]\<rparr>"
proof -
  have running: "mc_protocol_state ex_unattested = Running (ex_running [])"
    by (simp add: ex_unattested_def ex_contract_fields)
  have "running_prospective_epoch_id (ex_running []) = Inr 7"
    by (simp add: running_prospective_epoch_id_def ex_running_def epoch_id_next_def)
  from verify_tee_decides [OF running ex_running_wf _ _ this, of "ex_env ''a'' 1", unfolded ex_unattested_survivors]
  show ?thesis
    by (simp add: ex_running_def ex_env_def ex_abc_def participants_len_def accounts_of_def)
      (auto simp: ex_entry_def)
qed

section \<open>Node migrations\<close>

lemma update_info_loop_eq:
  "distinct (map entry_account es) \<Longrightarrow> update_info_loop a new es = Inr es' \<Longrightarrow>
     es' = map (\<lambda>(b, i, info). (b, i, if b = a then new else info)) es"
proof (induction es arbitrary: es')
  case (Cons e es)
  show ?case
  proof (cases "entry_account e = a")
    case True
    with Cons.prems(1) have "map (\<lambda>(b, i, info). (b, i, if b = a then new else info)) es = es"
      by (intro map_idI) (force simp: image_iff)
    with True Cons.prems(2) show ?thesis by (cases e) auto
  next
    case False
    with Cons show ?thesis by (cases e) (auto simp: res_simps)
  qed
qed simp

text \<open>
  C29. A concluded node migration changes the caller's own entry and nothing else. It needs the running
  state, the caller's own pending migration, the caller signing with the key the migration names, the
  keyset in force, and an attestation stored under the new TLS key that passes re-verification. It
  replaces the caller's info, keeps everybody's account, id and position, the threshold, the keys and
  the domains. The caller's migration is pending no more; the pending migrations of all others, the
  backup services and every other field of the contract are as before.
\<close>

theorem migration_changes_own_info:
  assumes "mc_protocol_state c = Running r" "wf_running r" "conclude_node_migration env c keyset = Inr (c', es, ())"
  shows "\<exists>dest r'. es = [] \<and> rs_keyset r = keyset \<and>
    map_of (nm_ongoing_migrations (mc_node_migrations c)) (env_signer_account_id env) = Some dest \<and>
    dn_signer_account_pk dest = env_signer_account_pk env \<and>
    (\<exists>a. map_of (ts_stored_attestations (mc_tee_state c)) (pi_sign_pk (dn_destination_node_info dest)) = Some a \<and>
      re_verify (na_verified_attestation a) (current_time_seconds env)
        (get_allowed_mpc_docker_image_hashes env (mc_tee_state c) (tee_upgrade_deadline_duration c))
        (get_allowed_launcher_compose_hashes (mc_tee_state c)) = Inr ()) \<and>
    mc_protocol_state c' = Running r' \<and>
    r' = r\<lparr>rs_parameters := (rs_parameters r)\<lparr>tp_participants := (tp_participants (rs_parameters r))\<lparr>ps_participants :=
      map (\<lambda>(a, i, info). (a, i, if a = env_signer_account_id env then dn_destination_node_info dest else info))
        (tp_entries (rs_parameters r))\<rparr>\<rparr>\<rparr> \<and>
    nm_backup_services_info (mc_node_migrations c') = nm_backup_services_info (mc_node_migrations c) \<and>
    map_of (nm_ongoing_migrations (mc_node_migrations c')) =
      (map_of (nm_ongoing_migrations (mc_node_migrations c)))(env_signer_account_id env := None) \<and>
    c' = c\<lparr>mc_node_migrations := mc_node_migrations c', mc_protocol_state := Running r'\<rparr>"
proof -
  let ?me = "env_signer_account_id env" and ?tp = "rs_parameters r"
  obtain nm removed where nm: "remove_migration (mc_node_migrations c) ?me = (nm, removed)" by fastforce
  from assms(3) nm obtain dest params where d: "removed = Some dest" "rs_keyset r = keyset"
    "dn_signer_account_pk dest = env_signer_account_pk env" "es = []"
    "reverify_participants env (mc_tee_state c) \<lparr>ni_account_id = ?me,
       ni_tls_public_key = pi_sign_pk (dn_destination_node_info dest),
       ni_account_public_key = Some (dn_signer_account_pk dest)\<rparr> (tee_upgrade_deadline_duration c) = TeeValid"
    "threshold_parameters_update_info ?tp ?me (dn_destination_node_info dest) = Inr params"
    "c' = c\<lparr>mc_node_migrations := nm, mc_protocol_state := Running (r\<lparr>rs_parameters := params\<rparr>)\<rparr>"
    by (auto simp: conclude_node_migration_def assms(1) res_simps)
  have params: "params = ?tp\<lparr>tp_participants := (tp_participants ?tp)\<lparr>ps_participants :=
      map (\<lambda>(a, i, info). (a, i, if a = ?me then dn_destination_node_info dest else info)) (tp_entries ?tp)\<rparr>\<rparr>"
    using d(6) update_info_loop_eq [of "tp_entries ?tp"] assms(2)
    by (auto simp: threshold_parameters_update_info_def participants_update_info_def res_simps wf_running_def
        wf_parameters_def wf_participants_def)
  have "\<exists>a. map_of (ts_stored_attestations (mc_tee_state c)) (pi_sign_pk (dn_destination_node_info dest)) = Some a \<and>
      re_verify (na_verified_attestation a) (current_time_seconds env)
        (get_allowed_mpc_docker_image_hashes env (mc_tee_state c) (tee_upgrade_deadline_duration c))
        (get_allowed_launcher_compose_hashes (mc_tee_state c)) = Inr ()"
    using d(5) by (auto simp: reverify_participants_def split: option.splits sum.splits)
  moreover have "map_of (nm_ongoing_migrations (mc_node_migrations c)) ?me = Some dest"
    "nm_backup_services_info nm = nm_backup_services_info (mc_node_migrations c)"
    "map_of (nm_ongoing_migrations nm) = (map_of (nm_ongoing_migrations (mc_node_migrations c)))(?me := None)"
    using nm d(1) by (auto simp: remove_migration_def)
  ultimately show ?thesis using d params by auto
qed

text \<open>
  Account \<open>a\<close> moves to another host under the same TLS key, while \<open>b\<close> has a migration of its own pending
  and \<open>c\<close> a backup service.
\<close>

definition ex_migrating :: mpc_contract where
  "ex_migrating = ex_contract\<lparr>mc_node_migrations := \<lparr>nm_backup_services_info = [(''c'', \<lparr>bs_public_key = [7]\<rparr>)],
     nm_ongoing_migrations = [(''a'', \<lparr>dn_signer_account_pk = NearPublicKey ED25519 [],
         dn_destination_node_info = \<lparr>pi_url = ''new'', pi_sign_pk = NearPublicKey ED25519 [0]\<rparr>\<rparr>),
       (''b'', \<lparr>dn_signer_account_pk = NearPublicKey ED25519 [],
         dn_destination_node_info = \<lparr>pi_url = ''other'', pi_sign_pk = NearPublicKey ED25519 [1]\<rparr>\<rparr>)]\<rparr>\<rparr>"

theorem migration_changes_own_info_witness:
  "\<exists>c' r'. conclude_node_migration (ex_env ''a'' 1) ex_migrating (rs_keyset (ex_running [])) = Inr (c', [], ()) \<and>
     mc_protocol_state c' = Running r' \<and>
     tp_entries (rs_parameters r') = [(''a'', 0, \<lparr>pi_url = ''new'', pi_sign_pk = NearPublicKey ED25519 [0]\<rparr>),
       ex_entry ''b'' 1, ex_entry ''c'' 2] \<and>
     map_of (nm_ongoing_migrations (mc_node_migrations c')) ''a'' = None \<and>
     map_of (nm_ongoing_migrations (mc_node_migrations c')) ''b'' \<noteq> None \<and>
     map_of (nm_backup_services_info (mc_node_migrations c')) ''c'' \<noteq> None"
proof -
  let ?info = "\<lparr>pi_url = ''new'', pi_sign_pk = NearPublicKey ED25519 [0]\<rparr>"
  have running: "mc_protocol_state ex_migrating = Running (ex_running [])"
    by (simp add: ex_migrating_def ex_contract_fields)
  have tee: "mc_tee_state ex_migrating = with_mocked_participant_attestations (tp_participants ex_abc)"
    by (simp add: ex_migrating_def ex_contract_fields)
  have pending: "remove_migration (mc_node_migrations ex_migrating) ''a'' =
      (mc_node_migrations ex_migrating\<lparr>nm_ongoing_migrations := tl (nm_ongoing_migrations (mc_node_migrations ex_migrating))\<rparr>,
       Some \<lparr>dn_signer_account_pk = NearPublicKey ED25519 [], dn_destination_node_info = ?info\<rparr>)"
    by (simp add: remove_migration_def ex_migrating_def)
  have valid: "reverify_participants (ex_env ''a'' 1) (mc_tee_state ex_migrating) \<lparr>ni_account_id = ''a'',
      ni_tls_public_key = NearPublicKey ED25519 [0], ni_account_public_key = x\<rparr> dur = TeeValid" for x dur
    by (simp add: tee reverify_participants_def with_mocked_participant_attestations_def ex_params_defs
        tee_state_default_def mocked_attestation_def re_verify_def verify_mock_attestation_def)
  have me: "assert_caller_is_signer (ex_env ''a'' 1) = Inr ''a''" "env_signer_account_pk (ex_env ''a'' 1) = NearPublicKey ED25519 []"
    by (simp_all add: ex_env_def)
  have "is_ok (conclude_node_migration (ex_env ''a'' 1) ex_migrating (rs_keyset (ex_running [])))"
    unfolding conclude_node_migration_def me running bind_res_Inr protocol_state.case pending
    by (simp add: valid running_is_participant_given_account_id_def del: One_nat_def)
      (simp add: ex_running_def ex_params_defs accounts_of_def threshold_parameters_update_info_def participants_update_info_def)
  then obtain c' es where r: "conclude_node_migration (ex_env ''a'' 1) ex_migrating (rs_keyset (ex_running [])) = Inr (c', es, ())"
    by (auto simp: is_ok_iff)
  from migration_changes_own_info [OF running ex_running_wf this] r show ?thesis
    by (auto simp: ex_env_def ex_migrating_def ex_running_def ex_abc_def ex_entry_def)
qed

section \<open>Whose attestation it is\<close>

text \<open>The keys of the SDK have the size of their curve.\<close>

definition sized_near_key :: "near_public_key \<Rightarrow> bool" where
  "sized_near_key pk \<longleftrightarrow> length (key_data pk) = (case curve_type_of pk of ED25519 \<Rightarrow> 32 | SECP256K1 \<Rightarrow> 64)"

lemma mock_valid_added:
  assumes "length tls = 32" "sized_near_key pk"
  shows "\<exists>ins. tee_add_participant th env ts \<lparr>ni_account_id = a, ni_tls_public_key = near_of_ed25519 tls,
      ni_account_public_key = Some pk\<rparr> (AttMock MockValid) dur =
    Inr (Inr (ts\<lparr>ts_stored_attestations := am_insert (near_of_ed25519 tls)
      \<lparr>na_node_id = \<lparr>ni_account_id = a, ni_tls_public_key = near_of_ed25519 tls, ni_account_public_key = Some pk\<rparr>,
       na_verified_attestation = VerMock MockValid\<rparr> (ts_stored_attestations ts)\<rparr>, ins))"
proof -
  have "\<exists>key. account_key_bytes (Some pk) = Inr key"
    using assms(2) by (cases "curve_type_of pk") (simp_all add: account_key_bytes_def ed25519_of_near_def
        copy_from_slice_def sized_near_key_def)
  moreover have "ed25519_of_near (near_of_ed25519 tls) = Inr (Inr tls)"
    using assms(1) by (simp add: ed25519_of_near_def near_of_ed25519_def copy_from_slice_def)
  ultimately show ?thesis
    by (auto simp: tee_add_participant_def attestation_verify_def verify_mock_attestation_def Let_def)
qed

text \<open>
  C30. Any account can take a participant's attestation away. Whoever submits a mock attestation under
  the TLS key of a participant succeeds, whatever is stored under that key and whoever submitted it: the
  entry now names the submitter, and in the new state every call that needs an attested participant
  fails for the participant.
\<close>

theorem attestation_takeover:
  assumes "env_signer_account_id env = env_predecessor_account_id env" "sized_near_key (env_signer_account_pk env)"
    and "active_participants (mc_protocol_state c) = Inr ps" "participants_info ps victim = Some info"
    and "pi_sign_pk info = near_of_ed25519 tls" "length tls = 32" "env_signer_account_id env \<noteq> victim"
  shows "\<exists>c' es. submit_participant_info cl env c (DtoMock DtoMockValid) tls = Inr (c', es, ()) \<and>
    mc_protocol_state c' = mc_protocol_state c \<and>
    (\<forall>env'. env_signer_account_id env' = victim \<longrightarrow>
      assert_caller_is_attested_participant_and_protocol_active env' c' = Inl (Panic AssertFailed))"
proof -
  let ?nid = "\<lparr>ni_account_id = env_signer_account_id env, ni_tls_public_key = near_of_ed25519 tls,
      ni_account_public_key = Some (env_signer_account_pk env)\<rparr>"
  let ?ts = "(mc_tee_state c)\<lparr>ts_stored_attestations := am_insert (near_of_ed25519 tls)
      \<lparr>na_node_id = ?nid, na_verified_attestation = VerMock MockValid\<rparr> (ts_stored_attestations (mc_tee_state c))\<rparr>"
  let ?c = "c\<lparr>mc_tee_state := ?ts\<rparr>"
  obtain ins where add: "tee_add_participant (cl_tee cl) env (mc_tee_state c) ?nid (AttMock MockValid)
      (tee_upgrade_deadline_duration c) = Inr (Inr (?ts, ins))"
    using mock_valid_added [OF assms(6,2)] by blast
  have "\<exists>es. submit_participant_info cl env c (DtoMock DtoMockValid) tls = Inr (?c, es, ())"
    using assms(1) add
    by (simp add: submit_participant_info_def attestation_of_dto_def mock_attestation_of_dto_def
        assert_caller_is_signer_def Let_def token_saturating_mul_def saturating_mul_def sub_u_ok)
  moreover have "assert_caller_is_attested_participant_and_protocol_active env' ?c = Inl (Panic AssertFailed)"
    if "env_signer_account_id env' = victim" for env'
    using that assms(3,4,5,7)
    by (simp add: assert_caller_is_attested_participant_and_protocol_active_def assert_caller_is_signer_def
        is_caller_an_attested_participant_def ensure_def)
  ultimately show ?thesis by fastforce
qed

definition ex_intruder :: env where
  "ex_intruder = (ex_env ''x'' 1)\<lparr>env_signer_account_pk := NearPublicKey ED25519 (replicate 32 5)\<rparr>"

definition ex_victim :: mpc_contract where
  "ex_victim = initial_contract ((ex_running [])\<lparr>rs_parameters := ex_abc\<lparr>tp_participants :=
     \<lparr>ps_next_id = 3, ps_participants = [(''a'', 0, \<lparr>pi_url = ''a'', pi_sign_pk = near_of_ed25519 (replicate 32 3)\<rparr>)]\<rparr>\<rparr>\<rparr>)
     ex_abc None"

theorem attestation_takeover_witness:
  "\<exists>c' es. submit_participant_info ex_libs ex_intruder ex_victim (DtoMock DtoMockValid) (replicate 32 3) =
       Inr (c', es, ()) \<and>
     assert_caller_is_attested_participant_and_protocol_active (ex_env ''a'' 2) c' = Inl (Panic AssertFailed)"
proof -
  let ?info = "\<lparr>pi_url = ''a'', pi_sign_pk = near_of_ed25519 (replicate 32 3)\<rparr>"
  have "active_participants (mc_protocol_state ex_victim) =
      Inr \<lparr>ps_next_id = 3, ps_participants = [(''a'', 0, ?info)]\<rparr>"
    by (simp add: ex_victim_def initial_contract_def active_participants_def)
  moreover have "participants_info \<lparr>ps_next_id = 3, ps_participants = [(''a'', 0, ?info)]\<rparr> ''a'' = Some ?info"
    by (simp add: participants_info_def)
  moreover have "env_signer_account_id ex_intruder = env_predecessor_account_id ex_intruder"
    "sized_near_key (env_signer_account_pk ex_intruder)" "env_signer_account_id ex_intruder \<noteq> ''a''"
    by (simp_all add: ex_intruder_def ex_env_def sized_near_key_def)
  moreover have "env_signer_account_id (ex_env ''a'' 2) = ''a''" by (simp add: ex_env_def)
  ultimately show ?thesis
    using attestation_takeover [of ex_intruder ex_victim _ "''a''" ?info "replicate 32 3" ex_libs] by fastforce
qed

end
