(* ===== verification/ContractRun.thy ===== *)
theory ContractRun
  imports ContractGovernance
begin

text \<open>
  Executions of the contract: one constructor per method that changes state, the dispatcher with the
  checks the attributes \<^verbatim>\<open>#[private]\<close> and \<^verbatim>\<open>#[payable]\<close> stand for, the write and read of the state
  between two calls, and what holds of every reachable state.
\<close>

section \<open>Calls\<close>

datatype contract_call =
  CallSign sign_request_args
| CallRequestAppPrivateKey ckd_request_args
| CallVerifyForeignTransaction verify_foreign_tx_request_args
| CallRespond signature_request signature_response
| CallRespondCkd ckd_request ckd_response
| CallRespondVerifyForeignTx verify_foreign_tx_request verify_foreign_tx_response
| CallSubmitParticipantInfo dto_attestation "byte list"
| CallVoteNewParameters epoch_id threshold_parameters
| CallVoteAddDomains "domain_config list"
| CallVoteForeignChainPolicy foreign_chain_policy
| CallStartKeygenInstance key_event_id
| CallVotePk key_event_id dto_public_key
| CallStartReshareInstance key_event_id
| CallVoteReshared key_event_id
| CallVoteCancelResharing
| CallVoteCancelKeygen nat
| CallVoteAbortKeyEventInstance key_event_id
| CallProposeUpdate propose_update_args
| CallVoteUpdate update_id
| CallRemoveUpdateVote
| CallVoteCodeHash mpc_docker_image_hash
| CallVoteAddLauncherHash launcher_image_hash
| CallVoteRemoveLauncherHash launcher_image_hash
| CallVerifyTee
| CallRemoveNonParticipantUpdateVotes
| CallCleanTeeStatus
| CallReturnSignature signature_request "signature_response option"
| CallReturnCk ckd_request "ckd_response option"
| CallReturnVerifyForeignTx verify_foreign_tx_request "verify_foreign_tx_response option"
| CallFailOnTimeout
| CallUpdateConfig dto_config
| CallRegisterBackupService backup_service_info
| CallStartNodeMigration destination_node_info
| CallConcludeNodeMigration keyset
| CallCleanupOrphanedNodeMigrations

text \<open>Methods marked \<^verbatim>\<open>#[payable]\<close>: the others refuse a deposit.\<close>

fun is_payable :: "contract_call \<Rightarrow> bool" where
  "is_payable (CallSign _) = True"
| "is_payable (CallRequestAppPrivateKey _) = True"
| "is_payable (CallVerifyForeignTransaction _) = True"
| "is_payable (CallSubmitParticipantInfo _ _) = True"
| "is_payable (CallProposeUpdate _) = True"
| "is_payable _ = False"

text \<open>Methods marked \<^verbatim>\<open>#[private]\<close>: only the contract's own account may call them.\<close>

fun is_private :: "contract_call \<Rightarrow> bool" where
  "is_private CallCleanTeeStatus = True"
| "is_private (CallReturnSignature _ _) = True"
| "is_private (CallReturnCk _ _) = True"
| "is_private (CallReturnVerifyForeignTx _ _) = True"
| "is_private CallFailOnTimeout = True"
| "is_private (CallUpdateConfig _) = True"
| "is_private CallCleanupOrphanedNodeMigrations = True"
| "is_private _ = False"

definition without_value :: "'a outcome \<Rightarrow> (mpc_contract \<times> promise_effect list) res" where
  "without_value r = bind_res r (\<lambda>(c, es, _). Inr (c, es))"

fun run_method :: "contract_libs \<Rightarrow> env \<Rightarrow> mpc_contract \<Rightarrow> contract_call \<Rightarrow>
    (mpc_contract \<times> promise_effect list) res" where
  "run_method cl env c (CallSign a) = without_value (sign cl env c a)"
| "run_method cl env c (CallRequestAppPrivateKey a) = without_value (request_app_private_key cl env c a)"
| "run_method cl env c (CallVerifyForeignTransaction a) = without_value (verify_foreign_transaction env c a)"
| "run_method cl env c (CallRespond q p) = without_value (respond cl env c q p)"
| "run_method cl env c (CallRespondCkd q p) = without_value (respond_ckd env c q p)"
| "run_method cl env c (CallRespondVerifyForeignTx q p) = without_value (respond_verify_foreign_tx cl env c q p)"
| "run_method cl env c (CallSubmitParticipantInfo a k) = without_value (submit_participant_info cl env c a k)"
| "run_method cl env c (CallVoteNewParameters e p) = without_value (vote_new_parameters env c e p)"
| "run_method cl env c (CallVoteAddDomains ds) = without_value (vote_add_domains env c ds)"
| "run_method cl env c (CallVoteForeignChainPolicy p) = without_value (vote_foreign_chain_policy env c p)"
| "run_method cl env c (CallStartKeygenInstance k) = without_value (start_keygen_instance env c k)"
| "run_method cl env c (CallVotePk k pk) = without_value (vote_pk cl env c k pk)"
| "run_method cl env c (CallStartReshareInstance k) = without_value (start_reshare_instance env c k)"
| "run_method cl env c (CallVoteReshared k) = without_value (vote_reshared env c k)"
| "run_method cl env c CallVoteCancelResharing = without_value (vote_cancel_resharing env c)"
| "run_method cl env c (CallVoteCancelKeygen n) = without_value (vote_cancel_keygen env c n)"
| "run_method cl env c (CallVoteAbortKeyEventInstance k) = without_value (vote_abort_key_event_instance env c k)"
| "run_method cl env c (CallProposeUpdate a) = without_value (propose_update cl env c a)"
| "run_method cl env c (CallVoteUpdate i) = without_value (vote_update env c i)"
| "run_method cl env c CallRemoveUpdateVote = without_value (remove_update_vote env c)"
| "run_method cl env c (CallVoteCodeHash h) = without_value (vote_code_hash cl env c h)"
| "run_method cl env c (CallVoteAddLauncherHash h) = without_value (vote_add_launcher_hash cl env c h)"
| "run_method cl env c (CallVoteRemoveLauncherHash h) = without_value (vote_remove_launcher_hash env c h)"
| "run_method cl env c CallVerifyTee = without_value (verify_tee env c)"
| "run_method cl env c CallRemoveNonParticipantUpdateVotes = without_value (remove_non_participant_update_votes c)"
| "run_method cl env c CallCleanTeeStatus = without_value (clean_tee_status c)"
| "run_method cl env c (CallReturnSignature q p) =
     without_value (return_signature_and_clean_state_on_success env c q p)"
| "run_method cl env c (CallReturnCk q p) = without_value (return_ck_and_clean_state_on_success env c q p)"
| "run_method cl env c (CallReturnVerifyForeignTx q p) =
     without_value (return_verify_foreign_tx_and_clean_state_on_success env c q p)"
| "run_method cl env c CallFailOnTimeout = without_value fail_on_timeout"
| "run_method cl env c (CallUpdateConfig cfg) = without_value (update_config c cfg)"
| "run_method cl env c (CallRegisterBackupService b) = without_value (register_backup_service env c b)"
| "run_method cl env c (CallStartNodeMigration d) = without_value (start_node_migration env c d)"
| "run_method cl env c (CallConcludeNodeMigration k) = without_value (conclude_node_migration env c k)"
| "run_method cl env c CallCleanupOrphanedNodeMigrations = without_value (cleanup_orphaned_node_migrations c)"

text \<open>
  The state is written after a call and read before the next one. Both are exact but for the
  timestamps of the allowed images, which are stored as whole seconds.
\<close>

definition stored_timestamp :: "timestamp \<Rightarrow> timestamp" where
  "stored_timestamp t = (case timestamp_deserialize (timestamp_serialize t) of Some (t', _) \<Rightarrow> t' | None \<Rightarrow> t)"

definition store_images :: "allowed_docker_image_hashes \<Rightarrow> allowed_docker_image_hashes" where
  "store_images self = self\<lparr>adh_allowed_tee_proposals :=
     map (\<lambda>e. e\<lparr>ai_added := stored_timestamp (ai_added e)\<rparr>) (adh_allowed_tee_proposals self)\<rparr>"

definition store_and_load :: "mpc_contract \<Rightarrow> mpc_contract" where
  "store_and_load c = c\<lparr>mc_tee_state := (mc_tee_state c)\<lparr>ts_allowed_docker_image_hashes :=
     store_images (ts_allowed_docker_image_hashes (mc_tee_state c))\<rparr>\<rparr>"

definition call_method :: "contract_libs \<Rightarrow> env \<Rightarrow> mpc_contract \<Rightarrow> contract_call \<Rightarrow>
    (mpc_contract \<times> promise_effect list) res" where
  "call_method cl env c call =
     bind_res (ensure (is_private call \<longrightarrow> env_predecessor_account_id env = env_current_account_id env)
       (Panic PanicText)) (\<lambda>_.
     bind_res (ensure (is_payable call \<or> env_attached_deposit env = 0) (Panic PanicText)) (\<lambda>_.
     bind_res (run_method cl env c call) (\<lambda>(c', es).
     Inr (store_and_load c', es))))"

section \<open>What a method does to each component\<close>

text \<open>Arguments fit the types of the source: the next id of proposed participants is a \<^verbatim>\<open>u32\<close>.\<close>

fun typed_call :: "contract_call \<Rightarrow> bool" where
  "typed_call (CallVoteNewParameters e proposal) = u32_participants (tp_participants proposal)"
| "typed_call _ = True"

named_theorems method_defs \<open>definitions of the contract's methods\<close>

lemmas [method_defs] = sign_def request_app_private_key_def verify_foreign_transaction_def respond_def
  respond_ckd_def respond_verify_foreign_tx_def submit_participant_info_def vote_new_parameters_def
  vote_add_domains_def vote_foreign_chain_policy_def start_keygen_instance_def vote_pk_def
  start_reshare_instance_def vote_reshared_def vote_cancel_resharing_def vote_cancel_keygen_def
  vote_abort_key_event_instance_def propose_update_def vote_update_def remove_update_vote_def vote_code_hash_def
  vote_add_launcher_hash_def vote_remove_launcher_hash_def verify_tee_def remove_non_participant_update_votes_def
  clean_tee_status_def return_signature_and_clean_state_on_success_def return_ck_and_clean_state_on_success_def
  return_verify_foreign_tx_and_clean_state_on_success_def fail_on_timeout_def update_config_def
  register_backup_service_def start_node_migration_def conclude_node_migration_def
  cleanup_orphaned_node_migrations_def add_signature_request_def add_ckd_request_def
  add_verify_foreign_tx_request_def

lemma without_value_Inr: "without_value r = Inr (c, es) \<longleftrightarrow> (\<exists>v. r = Inr (c, es, v))"
  by (auto simp: without_value_def res_simps)

lemma verify_tee_cases:
  assumes "verify_tee env c = Inr (c', es, b)" "wf_protocol (mc_protocol_state c)"
  shows "mc_protocol_state c' = mc_protocol_state c \<or>
    (\<exists>r r' nx. mc_protocol_state c = Running r \<and> wf_running r \<and>
      tp_entries (surviving env c (rs_parameters r)) \<noteq> tp_entries (rs_parameters r) \<and>
      u32_participants (tp_participants (surviving env c (rs_parameters r))) \<and>
      validate_incoming_proposal (rs_parameters r) (surviving env c (rs_parameters r)) = Inr () \<and>
      transition_to_resharing_no_checks r (surviving env c (rs_parameters r)) = Inr (r', nx) \<and>
      mc_protocol_state c' = (case nx of Some s \<Rightarrow> Resharing s | None \<Rightarrow> Running r'))"
proof -
  obtain r where r: "mc_protocol_state c = Running r"
    using assms(1) by (auto simp: verify_tee_def res_simps split: protocol_state.splits)
  let ?s = "surviving env c (rs_parameters r)"
  have wf: "wf_running r" "wf_parameters (rs_parameters r)" using assms(2) r by (simp_all add: wf_running_def)
  have u: "u32_participants (tp_participants ?s)"
    using wf by (simp add: wf_parameters_def u32_participants_def surviving_def)
  have thr: "cast_u32 (tp_threshold (rs_parameters r)) = tp_threshold (rs_parameters r)"
    using participants_len_less [OF wf_parametersD(1,2) [OF wf(2)]] wf_parametersD(4) [OF wf(2)]
    by (simp add: cast_u32_def)
  obtain ts v where rv: "reverify_and_cleanup_participants env (mc_tee_state c) (tp_participants (rs_parameters r))
      (tee_upgrade_deadline_duration c) = (ts, v)" by fastforce
  have v: "v = (if tp_entries ?s = tp_entries (rs_parameters r) then TeeFull else TeePartial (tp_participants ?s))"
    using reverify_verdict [of env c "rs_parameters r"] rv by simp
  show ?thesis
  proof (cases "v = TeeFull \<or> tp_len ?s < tp_threshold (rs_parameters r)")
    case True
    with assms(1) v show ?thesis
      by (auto simp: verify_tee_def r rv res_simps Let_def thr split: if_splits)
  next
    case False
    let ?c = "c\<lparr>mc_tee_state := ts, mc_accept_requests := True\<rparr>"
    have s: "\<lparr>tp_participants = tp_participants ?s, tp_threshold = tp_threshold (rs_parameters r)\<rparr> = ?s"
      by (simp add: surviving_def)
    from False v have v': "v = TeePartial (tp_participants ?s)" "tp_entries ?s \<noteq> tp_entries (rs_parameters r)"
      by (auto split: if_splits)
    with False assms(1) obtain r' nx where "validate_incoming_proposal (rs_parameters r) ?s = Inr ()"
      "transition_to_resharing_no_checks r ?s = Inr (r', nx)"
      "(case nx of Some s \<Rightarrow> Inr (?c\<lparr>mc_protocol_state := Resharing s\<rparr>, [], True)
        | None \<Rightarrow> Inr (?c\<lparr>mc_protocol_state := Running r'\<rparr>, [], True)) = (Inr (c', es, b) :: bool outcome)"
      by (auto simp: verify_tee_def r rv res_simps Let_def thr threshold_parameters_new_def s)
    with u wf(1) v'(2) r show ?thesis by (cases nx) auto
  qed
qed

lemma verify_tee_protocol:
  assumes "verify_tee env c = Inr (c', es, b)" "wf_protocol (mc_protocol_state c)"
  shows "mc_protocol_state c' = mc_protocol_state c \<or> protocol_step (mc_protocol_state c) (mc_protocol_state c')"
  using verify_tee_cases [OF assms] step_tee_resharing by (fastforce split: option.splits)

text \<open>The methods that leave the protocol state alone.\<close>

lemma request_methods_protocol:
  "sign cl env c args = Inr (c', es, v) \<Longrightarrow> mc_protocol_state c' = mc_protocol_state c"
  "request_app_private_key cl env c ckd_args = Inr (c', es, v) \<Longrightarrow> mc_protocol_state c' = mc_protocol_state c"
  "verify_foreign_transaction env c tx_args = Inr (c', es, v) \<Longrightarrow> mc_protocol_state c' = mc_protocol_state c"
  "respond cl env c q p = Inr (c', es, v) \<Longrightarrow> mc_protocol_state c' = mc_protocol_state c"
  "respond_ckd env c ckd_q ckd_p = Inr (c', es, v) \<Longrightarrow> mc_protocol_state c' = mc_protocol_state c"
  "respond_verify_foreign_tx cl env c tx_q tx_p = Inr (c', es, v) \<Longrightarrow> mc_protocol_state c' = mc_protocol_state c"
  by (auto simp: sign_def request_app_private_key_def verify_foreign_transaction_def respond_def respond_ckd_def
      respond_verify_foreign_tx_def add_signature_request_def add_ckd_request_def
      add_verify_foreign_tx_request_def res_simps Let_def split: option.splits)

lemma fail_on_timeout_aborts [simp]: "fail_on_timeout \<noteq> Inr x"
  by (simp add: fail_on_timeout_def)

lemma callback_methods_protocol:
  "return_signature_and_clean_state_on_success env c q sig = Inr (c', es, v) \<Longrightarrow>
     mc_protocol_state c' = mc_protocol_state c"
  "return_ck_and_clean_state_on_success env c ckd_q ck = Inr (c', es, w) \<Longrightarrow>
     mc_protocol_state c' = mc_protocol_state c"
  "return_verify_foreign_tx_and_clean_state_on_success env c tx_q tx_p = Inr (c', es, x) \<Longrightarrow>
     mc_protocol_state c' = mc_protocol_state c"
  "update_config c cfg = Inr (c', es, u) \<Longrightarrow> mc_protocol_state c' = mc_protocol_state c"
  by (auto simp: return_signature_and_clean_state_on_success_def return_ck_and_clean_state_on_success_def
      return_verify_foreign_tx_and_clean_state_on_success_def update_config_def
      res_simps split: option.splits)

lemma governance_methods_protocol:
  "submit_participant_info cl env c att k = Inr (c', es, u) \<Longrightarrow> mc_protocol_state c' = mc_protocol_state c"
  "vote_foreign_chain_policy env c policy = Inr (c', es, u) \<Longrightarrow> mc_protocol_state c' = mc_protocol_state c"
  "propose_update cl env c update = Inr (c', es, i) \<Longrightarrow> mc_protocol_state c' = mc_protocol_state c"
  "vote_update env c i = Inr (c', es, b) \<Longrightarrow> mc_protocol_state c' = mc_protocol_state c"
  "remove_update_vote env c = Inr (c', es, u) \<Longrightarrow> mc_protocol_state c' = mc_protocol_state c"
  "remove_non_participant_update_votes c = Inr (c', es, u) \<Longrightarrow> mc_protocol_state c' = mc_protocol_state c"
  by (auto simp: submit_participant_info_def vote_foreign_chain_policy_def propose_update_def vote_update_def
      remove_update_vote_def remove_non_participant_update_votes_def res_simps Let_def case_prod_beta
      split: protocol_state.splits option.splits if_splits)

lemma tee_methods_protocol:
  "vote_code_hash cl env c h = Inr (c', es, u) \<Longrightarrow> mc_protocol_state c' = mc_protocol_state c"
  "vote_add_launcher_hash cl env c l = Inr (c', es, u) \<Longrightarrow> mc_protocol_state c' = mc_protocol_state c"
  "vote_remove_launcher_hash env c l = Inr (c', es, u) \<Longrightarrow> mc_protocol_state c' = mc_protocol_state c"
  "clean_tee_status c = Inr (c', es, u) \<Longrightarrow> mc_protocol_state c' = mc_protocol_state c"
  "register_backup_service env c b = Inr (c', es, u) \<Longrightarrow> mc_protocol_state c' = mc_protocol_state c"
  "start_node_migration env c d = Inr (c', es, u) \<Longrightarrow> mc_protocol_state c' = mc_protocol_state c"
  "cleanup_orphaned_node_migrations c = Inr (c', es, u) \<Longrightarrow> mc_protocol_state c' = mc_protocol_state c"
  by (auto simp: vote_code_hash_def vote_add_launcher_hash_def vote_remove_launcher_hash_def clean_tee_status_def
      register_backup_service_def start_node_migration_def cleanup_orphaned_node_migrations_def
      res_simps Let_def case_prod_beta split: protocol_state.splits if_splits)

lemmas same_protocol = request_methods_protocol callback_methods_protocol governance_methods_protocol
  tee_methods_protocol

text \<open>The other methods perform an operation of the protocol.\<close>

lemma protocol_methods:
  "vote_add_domains env c ds = Inr (c', es, u) \<Longrightarrow>
     \<exists>p. protocol_vote_add_domains env (mc_protocol_state c) ds = Inr p \<and> mc_protocol_state c' = commit_state p"
  "start_keygen_instance env c kid = Inr (c', es, u) \<Longrightarrow>
     protocol_start_keygen_instance env (mc_protocol_state c) kid
       (cfg_key_event_timeout_blocks (mc_config c)) = Inr (mc_protocol_state c')"
  "vote_pk cl env c kid pk = Inr (c', es, u) \<Longrightarrow>
     \<exists>x p. protocol_vote_pk env (mc_protocol_state c) kid x = Inr p \<and> mc_protocol_state c' = commit_state p"
  "start_reshare_instance env c kid = Inr (c', es, u) \<Longrightarrow>
     protocol_start_reshare_instance env (mc_protocol_state c) kid
       (cfg_key_event_timeout_blocks (mc_config c)) = Inr (mc_protocol_state c')"
  "vote_cancel_resharing env c = Inr (c', es, u) \<Longrightarrow>
     \<exists>p. protocol_vote_cancel_resharing env (mc_protocol_state c) = Inr p \<and> mc_protocol_state c' = commit_state p"
  "vote_cancel_keygen env c n = Inr (c', es, u) \<Longrightarrow>
     \<exists>p. protocol_vote_cancel_keygen env (mc_protocol_state c) n = Inr p \<and> mc_protocol_state c' = commit_state p"
  "vote_abort_key_event_instance env c kid = Inr (c', es, u) \<Longrightarrow>
     protocol_vote_abort_key_event_instance env (mc_protocol_state c) kid = Inr (mc_protocol_state c')"
  by (fastforce simp: vote_add_domains_def start_keygen_instance_def vote_pk_def start_reshare_instance_def
      vote_cancel_resharing_def vote_cancel_keygen_def vote_abort_key_event_instance_def res_simps)+

lemma vote_reshared_protocol:
  assumes "vote_reshared env c kid = Inr (c', es, u)"
  shows "\<exists>p. protocol_vote_reshared env (mc_protocol_state c) kid = Inr p \<and> mc_protocol_state c' = commit_state p"
proof -
  from assms obtain p nx where p: "protocol_vote_reshared env (mc_protocol_state c) kid = Inr (p, nx)"
    and "(case nx of Some new_state \<Rightarrow> bind_res (cleanup_promises env (mc_config c))
        (\<lambda>promises. Inr (c\<lparr>mc_protocol_state := new_state\<rparr>, promises, ()))
      | None \<Rightarrow> Inr (c\<lparr>mc_protocol_state := p\<rparr>, [], ())) = Inr (c', es, u)"
    by (auto simp: vote_reshared_def res_simps simp del: option.case)
  then show ?thesis
    by (intro exI [of _ "(p, nx)"]) (cases nx; auto simp: commit_state_def res_simps)
qed

lemma vote_new_parameters_protocol:
  assumes "vote_new_parameters env c e proposal = Inr (c', es, u)"
  shows "\<exists>p. protocol_vote_new_parameters env (mc_protocol_state c) e proposal = Inr p \<and>
    mc_protocol_state c' = commit_state p \<and> tp_entries (surviving env c proposal) = tp_entries proposal"
proof -
  obtain ts v where rv: "reverify_and_cleanup_participants env (mc_tee_state c) (tp_participants proposal)
      (tee_upgrade_deadline_duration c) = (ts, v)" by fastforce
  with assms reverify_verdict [of env c proposal] show ?thesis
    by (auto simp: vote_new_parameters_def res_simps Let_def split: if_splits)
qed

lemma conclude_node_migration_protocol:
  assumes "conclude_node_migration env c keyset = Inr (c', es, u)"
  shows "\<exists>r a info params. mc_protocol_state c = Running r \<and>
    threshold_parameters_update_info (rs_parameters r) a info = Inr params \<and>
    mc_protocol_state c' = Running (r\<lparr>rs_parameters := params\<rparr>)"
  using assms
  by (fastforce simp: conclude_node_migration_def res_simps Let_def case_prod_beta split: protocol_state.splits)

lemma run_method_protocol:
  assumes "run_method cl env c call = Inr (c', es)" "typed_call call" "wf_protocol (mc_protocol_state c)"
  shows "mc_protocol_state c' = mc_protocol_state c \<or> protocol_step (mc_protocol_state c) (mc_protocol_state c')"
proof (cases call)
  case (CallVoteNewParameters e proposal)
  with assms vote_new_parameters_protocol show ?thesis
    by (fastforce simp: without_value_Inr intro: step_vote_new_parameters)
next
  case (CallVerifyTee)
  with assms obtain v where "verify_tee env c = Inr (c', es, v)" by (auto simp: without_value_Inr)
  from verify_tee_protocol [OF this assms(3)] show ?thesis .
next
  case (CallConcludeNodeMigration k)
  with assms conclude_node_migration_protocol show ?thesis
    by (fastforce simp: without_value_Inr intro: step_update_info)
qed (use assms(1) in \<open>auto simp: without_value_Inr dest!: same_protocol protocol_methods vote_reshared_protocol
    intro: step_vote_add_domains step_start_keygen step_vote_pk step_start_reshare step_vote_reshared
      step_vote_cancel_resharing step_vote_cancel_keygen step_vote_abort\<close>)

section \<open>Executions\<close>

lemma store_and_load_protocol [simp]: "mc_protocol_state (store_and_load c) = mc_protocol_state c"
  by (simp add: store_and_load_def)

lemma call_method_Inr:
  assumes "call_method cl env c call = Inr (c', es)"
  shows "\<exists>c0. run_method cl env c call = Inr (c0, es) \<and> c' = store_and_load c0"
  using assms by (auto simp: call_method_def res_simps)

text \<open>A sequence of calls. A call that aborts changes nothing.\<close>

fun execute :: "contract_libs \<Rightarrow> mpc_contract \<Rightarrow> (env \<times> contract_call) list \<Rightarrow> mpc_contract" where
  "execute cl c [] = c"
| "execute cl c ((env, call) # calls) =
     execute cl (case call_method cl env c call of Inr (c', _) \<Rightarrow> c' | Inl _ \<Rightarrow> c) calls"

text \<open>Calls that neither vote for parameters nor re-verify attestations start no resharing.\<close>

lemma other_calls_keep_resharing:
  assumes "run_method cl env c call = Inr (c', es)" "wf_protocol (mc_protocol_state c)"
    and "\<And>e proposal. call \<noteq> CallVoteNewParameters e proposal" "call \<noteq> CallVerifyTee"
  shows "keeps_resharing (mc_protocol_state c) (mc_protocol_state c')"
proof (cases call)
  case (CallConcludeNodeMigration k)
  with assms conclude_node_migration_protocol show ?thesis
    by (fastforce simp: without_value_Inr keeps_resharing_def)
qed (use assms in \<open>auto simp: without_value_Inr dest!: same_protocol protocol_methods vote_reshared_protocol
    intro: ops_keep_resharing\<close>)

text \<open>The contract starts in a well-formed state.\<close>

lemma init_wf:
  assumes "init parameters cfg = Inr c" "u32_participants (tp_participants parameters)"
  shows "wf_protocol (mc_protocol_state c)"
proof -
  from assms have "wf_parameters parameters"
    by (auto simp: init_def res_simps threshold_parameters_validate_iff)
  moreover have "mc_protocol_state c = Running (running_new domain_registry_default
      \<lparr>ks_epoch_id = 0, ks_domains = []\<rparr> parameters add_domains_votes_default)"
    using assms(1) by (auto simp: init_def res_simps initial_contract_def)
  moreover have "keyset_ids \<lparr>ks_epoch_id = 0, ks_domains = []\<rparr> = domain_ids (dr_domains domain_registry_default)"
    "wf_adv add_domains_votes_default"
    by (simp_all add: domain_registry_default_def add_domains_votes_default_def)
  ultimately show ?thesis
    using running_new_wf [OF wf_registry_default] by simp
qed

text \<open>
  C39. The contract runs the protocol: whatever calls are made, in whatever order, by whomever and with
  whatever arguments, the protocol state evolves by steps of the protocol state machine and stays
  well-formed, so that everything shown of its executions holds of the deployed contract. No method
  reaches the protocol state in another way, and writing the state to storage and reading it back
  between two calls leaves it as it is.
\<close>

theorem contract_runs_protocol:
  assumes "wf_protocol (mc_protocol_state c)" "list_all (typed_call \<circ> snd) calls"
  shows "protocol_step\<^sup>*\<^sup>* (mc_protocol_state c) (mc_protocol_state (execute cl c calls)) \<and>
    wf_protocol (mc_protocol_state (execute cl c calls))"
  using assms
proof (induction cl c calls rule: execute.induct)
  case (2 cl c env call calls)
  let ?c = "case call_method cl env c call of Inr (c', _) \<Rightarrow> c' | Inl _ \<Rightarrow> c"
  have "mc_protocol_state ?c = mc_protocol_state c \<or> protocol_step (mc_protocol_state c) (mc_protocol_state ?c)"
  proof (cases "call_method cl env c call")
    case (Inr r)
    then obtain c0 es where "run_method cl env c call = Inr (c0, es)" "?c = store_and_load c0"
      by (cases r) (auto dest: call_method_Inr)
    with run_method_protocol [of cl env c call c0 es] 2(2,3) show ?thesis by simp
  qed simp
  moreover from this have "wf_protocol (mc_protocol_state ?c)" using 2(2) protocol_step_wf by metis
  ultimately show ?case using 2(1,3) by (auto intro: converse_rtranclp_into_rtranclp)
qed simp

text \<open>
  C13. A resharing starts in two ways only. Whatever call is made, if afterwards the contract is in a
  resharing that was not under way before (there was none, or one for another epoch), then the call
  was a vote for new parameters and every proposed participant's ballot, with this vote, is for that
  proposal; or it was \<^verbatim>\<open>verify_tee\<close> in the Running state and the proposal is the parameters in force
  without the participants whose attestation does not pass, of whom there is at least one. In both
  cases every proposed participant's attestation passes, the proposal is valid for the parameters in
  force and keeps a threshold of their participants; the keys, domains and parameters stay in force;
  the resharing begins with the first domain, in an epoch later than the keyset's and than any
  resharing it replaces. (The comment on \<^verbatim>\<open>MpcContract::vote_new_parameters\<close> speaks of a threshold number
  of votes.)
\<close>

theorem resharing_agreed:
  assumes wf: "wf_protocol (mc_protocol_state c)" and typed: "typed_call call"
    and run: "call_method cl env c call = Inr (c', es)"
    and s: "mc_protocol_state c' = Resharing s"
    and new: "\<And>s0. mc_protocol_state c = Resharing s0 \<Longrightarrow>
      ke_epoch_id (ss_resharing_key s) \<noteq> ke_epoch_id (ss_resharing_key s0)"
  shows "\<exists>r. governing_state (mc_protocol_state c) = Some r \<and> reshares r (ss_proposal s) s \<and>
    tp_entries (surviving env c (ss_proposal s)) = tp_entries (ss_proposal s) \<and>
    (\<forall>s0. mc_protocol_state c = Resharing s0 \<longrightarrow>
       ke_epoch_id (ss_resharing_key s0) < ke_epoch_id (ss_resharing_key s)) \<and>
    ((\<exists>e. call = CallVoteNewParameters e (ss_proposal s)) \<and>
       (\<forall>a \<in> tp_accounts (ss_proposal s). tpv_ballot (fst (tpv_vote (env_signer_account_id env) (ss_proposal s)
          (rs_parameters_votes r))) a = Some (ss_proposal s)) \<or>
     call = CallVerifyTee \<and> mc_protocol_state c = Running r \<and>
       ss_proposal s = surviving env c (rs_parameters r) \<and>
       tp_entries (ss_proposal s) \<noteq> tp_entries (rs_parameters r))"
proof -
  obtain c0 where c0: "run_method cl env c call = Inr (c0, es)" "mc_protocol_state c0 = Resharing s"
    using call_method_Inr [OF run] s by auto
  consider (vote) e proposal where "call = CallVoteNewParameters e proposal" | (tee) "call = CallVerifyTee"
    using other_calls_keep_resharing [OF c0(1) wf] new c0(2) by (auto simp: keeps_resharing_def)
  then show ?thesis
  proof cases
    case vote
    with c0(1) obtain u where "vote_new_parameters env c e proposal = Inr (c0, es, u)"
      by (auto simp: without_value_Inr)
    from vote_new_parameters_protocol [OF this] obtain p where
      p: "protocol_vote_new_parameters env (mc_protocol_state c) e proposal = Inr p" "commit_state p = Resharing s"
      "tp_entries (surviving env c proposal) = tp_entries proposal" using c0(2) by auto
    have u: "u32_participants (tp_participants proposal)" using typed vote by simp
    have "ss_proposal s = proposal"
      using vote_starts_resharing [OF wf u p(1,2) new] by (auto simp: reshares_def)
    with vote_starts_resharing [OF wf u p(1,2) new] p(3) vote show ?thesis by auto
  next
    case tee
    have differ: "mc_protocol_state c0 \<noteq> mc_protocol_state c" using new [of s] c0(2) by auto
    from tee c0(1) obtain b where "verify_tee env c = Inr (c0, es, b)" by (auto simp: without_value_Inr)
    from verify_tee_cases [OF this wf] obtain r r' where r: "mc_protocol_state c = Running r" "wf_running r"
      "tp_entries (surviving env c (rs_parameters r)) \<noteq> tp_entries (rs_parameters r)"
      "u32_participants (tp_participants (surviving env c (rs_parameters r)))"
      "validate_incoming_proposal (rs_parameters r) (surviving env c (rs_parameters r)) = Inr ()"
      "transition_to_resharing_no_checks r (surviving env c (rs_parameters r)) = Inr (r', Some s)"
      using c0(2) differ by (auto split: option.splits)
    from transition_reshares [OF r(2,4,5,6)] have "reshares r (surviving env c (rs_parameters r)) s" .
    moreover from this have "ss_proposal s = surviving env c (rs_parameters r)" by (simp add: reshares_def)
    moreover have "tp_entries (surviving env c (surviving env c (rs_parameters r))) =
        tp_entries (surviving env c (rs_parameters r))" by (simp add: surviving_def)
    ultimately show ?thesis using r(1,3) tee by simp
  qed
qed

text \<open>\<open>d\<close> casts the last vote for its joining; \<open>a\<close> has the attestations re-verified when that of \<open>c\<close> is missing.\<close>

abbreviation ex_call_env :: "account_id \<Rightarrow> env" where
  "ex_call_env a \<equiv> (ex_env a 1)\<lparr>env_attached_deposit := 0\<rparr>"

definition ex_joining :: mpc_contract where
  "ex_joining = ex_contract\<lparr>mc_protocol_state := Running ex_proposed,
     mc_tee_state := with_mocked_participant_attestations (tp_participants ex_bcd)\<rparr>"

lemma ex_joining_vote:
  "\<exists>c' s. call_method cl (ex_call_env ''d'') ex_joining (CallVoteNewParameters 7 ex_bcd) = Inr (c', []) \<and>
     mc_protocol_state c' = Resharing s"
proof -
  let ?env = "ex_call_env ''d''"
  have "has_valid_attestation ?env (mc_tee_state ex_joining) dur e" if "e \<in> set (tp_entries ex_bcd)" for dur e
    using that
    by (auto simp: ex_joining_def has_valid_attestation_iff with_mocked_participant_attestations_def ex_params_defs
        tee_state_default_def mocked_attestation_def re_verify_def verify_mock_attestation_def)
  then have full: "snd (reverify_and_cleanup_participants ?env (mc_tee_state ex_joining) (tp_participants ex_bcd)
      (tee_upgrade_deadline_duration ex_joining)) = TeeFull"
    by (simp add: reverify_cleanup_eq)
  obtain r' s where "running_vote_new_parameters ?env ex_proposed 7 ex_bcd = Inr (r', Some s)"
    using ex_proposed_vote [of ?env] by (auto simp: ex_env_def)
  then have p: "protocol_vote_new_parameters ?env (Running ex_proposed) 7 ex_bcd = Inr (Running r', Some (Resharing s))"
    by (simp add: protocol_vote_new_parameters_def map_states_def)
  have "mc_protocol_state ex_joining = Running ex_proposed" by (simp add: ex_joining_def)
  with full p have "\<exists>c'. vote_new_parameters ?env ex_joining 7 ex_bcd = Inr (c', [], ()) \<and> mc_protocol_state c' = Resharing s"
    by (simp add: vote_new_parameters_def Let_def case_prod_beta commit_state_def)
  then show ?thesis by (auto simp: call_method_def without_value_def ex_env_def)
qed

lemma ex_unattested_verify:
  "\<exists>c' s. call_method cl (ex_call_env ''a'') ex_unattested CallVerifyTee = Inr (c', []) \<and>
     mc_protocol_state c' = Resharing s"
proof -
  let ?env = "ex_call_env ''a''"
  have running: "mc_protocol_state ex_unattested = Running (ex_running [])"
    by (simp add: ex_unattested_def ex_contract_fields)
  have e: "running_prospective_epoch_id (ex_running []) = Inr 7"
    by (simp add: running_prospective_epoch_id_def ex_running_def epoch_id_next_def)
  obtain c' b where v: "verify_tee ?env ex_unattested = Inr (c', [], b)"
    and n: "mc_protocol_state c' \<noteq> mc_protocol_state ex_unattested"
    using verify_tee_decision [OF running ex_running_wf _ _ e, of ?env, unfolded ex_unattested_survivors]
    by (fastforce simp: ex_running_def ex_env_def ex_abc_def participants_len_def accounts_of_def
        ex_entry_def active_participants_def running)
  from verify_tee_cases [OF v] n running ex_running_wf obtain r' nx where
    t: "transition_to_resharing_no_checks (ex_running []) (surviving ?env ex_unattested (rs_parameters (ex_running []))) =
      Inr (r', nx)" "mc_protocol_state c' = (case nx of Some s \<Rightarrow> Resharing s | None \<Rightarrow> Running r')" by auto
  have "nx \<noteq> None"
    using t(1) e by (auto simp: transition_to_resharing_no_checks_def ex_running_def get_domain_by_index_def)
  with t(2) v show ?thesis by (auto simp: call_method_def without_value_def ex_env_def)
qed

theorem resharing_agreed_witness:
  "(\<forall>cl. \<exists>c' s. call_method cl (ex_call_env ''d'') ex_joining (CallVoteNewParameters 7 ex_bcd) = Inr (c', []) \<and>
     mc_protocol_state c' = Resharing s \<and> reshares ex_proposed ex_bcd s) \<and>
   (\<forall>cl. \<exists>c' s. call_method cl (ex_call_env ''a'') ex_unattested CallVerifyTee = Inr (c', []) \<and>
     mc_protocol_state c' = Resharing s \<and>
     tp_entries (ss_proposal s) = [ex_entry ''a'' 0, ex_entry ''b'' 1])"
proof (intro conjI allI)
  fix cl
  have joining: "mc_protocol_state ex_joining = Running ex_proposed" by (simp add: ex_joining_def)
  obtain c' s where v: "call_method cl (ex_call_env ''d'') ex_joining (CallVoteNewParameters 7 ex_bcd) = Inr (c', [])"
    "mc_protocol_state c' = Resharing s" using ex_joining_vote by blast
  from resharing_agreed [OF _ _ this] joining ex_proposed_wf wf_parametersD(2) [OF ex_wf(2)] v
  show "\<exists>c' s. call_method cl (ex_call_env ''d'') ex_joining (CallVoteNewParameters 7 ex_bcd) = Inr (c', []) \<and>
     mc_protocol_state c' = Resharing s \<and> reshares ex_proposed ex_bcd s" by auto
next
  fix cl
  have running: "mc_protocol_state ex_unattested = Running (ex_running [])"
    by (simp add: ex_unattested_def ex_contract_fields)
  obtain c' s where v: "call_method cl (ex_call_env ''a'') ex_unattested CallVerifyTee = Inr (c', [])"
    "mc_protocol_state c' = Resharing s" using ex_unattested_verify by blast
  from resharing_agreed [OF _ _ this] running ex_running_wf v
  show "\<exists>c' s. call_method cl (ex_call_env ''a'') ex_unattested CallVerifyTee = Inr (c', []) \<and>
     mc_protocol_state c' = Resharing s \<and> tp_entries (ss_proposal s) = [ex_entry ''a'' 0, ex_entry ''b'' 1]"
    by (auto simp: ex_unattested_survivors)
qed

theorem contract_runs_protocol_witness:
  "\<exists>s. mc_protocol_state (execute ex_libs ex_joining [(ex_call_env ''d'', CallVoteNewParameters 7 ex_bcd)]) = Resharing s \<and>
     protocol_step\<^sup>*\<^sup>* (Running ex_proposed) (Resharing s) \<and> wf_resharing s"
proof -
  obtain c' s where v: "call_method ex_libs (ex_call_env ''d'') ex_joining (CallVoteNewParameters 7 ex_bcd) = Inr (c', [])"
    and s: "mc_protocol_state c' = Resharing s" using ex_joining_vote by blast
  have joining: "mc_protocol_state ex_joining = Running ex_proposed" by (simp add: ex_joining_def)
  from contract_runs_protocol [of ex_joining "[(ex_call_env ''d'', CallVoteNewParameters 7 ex_bcd)]" ex_libs]
    ex_proposed_wf wf_parametersD(2) [OF ex_wf(2)] v s show ?thesis
    by (auto simp: joining)
qed

end
