(* ===== verification/ContractTee.thy ===== *)
theory ContractTee
  imports ContractRun
begin

text \<open>
  What executions of the contract do to its TEE state: each method performs operations of the TEE state
  or leaves it alone, and the invariant on the allowlists holds along every execution in which the grace
  duration is not raised.
\<close>

section \<open>What a method does to the TEE state\<close>

lemma request_methods_tee:
  "sign cl env c args = Inr (c', es, v) \<Longrightarrow> mc_tee_state c' = mc_tee_state c"
  "request_app_private_key cl env c ckd_args = Inr (c', es, v) \<Longrightarrow> mc_tee_state c' = mc_tee_state c"
  "verify_foreign_transaction env c tx_args = Inr (c', es, v) \<Longrightarrow> mc_tee_state c' = mc_tee_state c"
  "respond cl env c q p = Inr (c', es, v) \<Longrightarrow> mc_tee_state c' = mc_tee_state c"
  "respond_ckd env c ckd_q ckd_p = Inr (c', es, v) \<Longrightarrow> mc_tee_state c' = mc_tee_state c"
  "respond_verify_foreign_tx cl env c tx_q tx_p = Inr (c', es, v) \<Longrightarrow> mc_tee_state c' = mc_tee_state c"
  by (auto simp: sign_def request_app_private_key_def verify_foreign_transaction_def respond_def respond_ckd_def
      respond_verify_foreign_tx_def add_signature_request_def add_ckd_request_def
      add_verify_foreign_tx_request_def res_simps Let_def split: option.splits)

lemma callback_methods_tee:
  "return_signature_and_clean_state_on_success env c q sig = Inr (c', es, v) \<Longrightarrow> mc_tee_state c' = mc_tee_state c"
  "return_ck_and_clean_state_on_success env c ckd_q ck = Inr (c', es, w) \<Longrightarrow> mc_tee_state c' = mc_tee_state c"
  "return_verify_foreign_tx_and_clean_state_on_success env c tx_q tx_p = Inr (c', es, x) \<Longrightarrow>
     mc_tee_state c' = mc_tee_state c"
  "update_config c cfg = Inr (c', es, u) \<Longrightarrow> mc_tee_state c' = mc_tee_state c"
  by (auto simp: return_signature_and_clean_state_on_success_def return_ck_and_clean_state_on_success_def
      return_verify_foreign_tx_and_clean_state_on_success_def update_config_def res_simps split: option.splits)

lemma governance_methods_tee:
  "vote_foreign_chain_policy env c policy = Inr (c', es, u) \<Longrightarrow> mc_tee_state c' = mc_tee_state c"
  "propose_update cl env c update = Inr (c', es, i) \<Longrightarrow> mc_tee_state c' = mc_tee_state c"
  "vote_update env c i = Inr (c', es, b) \<Longrightarrow> mc_tee_state c' = mc_tee_state c"
  "remove_update_vote env c = Inr (c', es, u) \<Longrightarrow> mc_tee_state c' = mc_tee_state c"
  "remove_non_participant_update_votes c = Inr (c', es, u) \<Longrightarrow> mc_tee_state c' = mc_tee_state c"
  "register_backup_service env c backup = Inr (c', es, u) \<Longrightarrow> mc_tee_state c' = mc_tee_state c"
  "start_node_migration env c d = Inr (c', es, u) \<Longrightarrow> mc_tee_state c' = mc_tee_state c"
  "conclude_node_migration env c ks = Inr (c', es, u) \<Longrightarrow> mc_tee_state c' = mc_tee_state c"
  "cleanup_orphaned_node_migrations c = Inr (c', es, u) \<Longrightarrow> mc_tee_state c' = mc_tee_state c"
  by (auto simp: vote_foreign_chain_policy_def propose_update_def vote_update_def remove_update_vote_def
      remove_non_participant_update_votes_def register_backup_service_def start_node_migration_def
      conclude_node_migration_def cleanup_orphaned_node_migrations_def res_simps Let_def case_prod_beta
      split: protocol_state.splits option.splits if_splits)

lemma protocol_methods_tee:
  "vote_add_domains env c ds = Inr (c', es, u) \<Longrightarrow> mc_tee_state c' = mc_tee_state c"
  "start_keygen_instance env c kid = Inr (c', es, u) \<Longrightarrow> mc_tee_state c' = mc_tee_state c"
  "vote_pk cl env c kid pk = Inr (c', es, u) \<Longrightarrow> mc_tee_state c' = mc_tee_state c"
  "start_reshare_instance env c kid = Inr (c', es, u) \<Longrightarrow> mc_tee_state c' = mc_tee_state c"
  "vote_reshared env c kid = Inr (c', es, u) \<Longrightarrow> mc_tee_state c' = mc_tee_state c"
  "vote_cancel_resharing env c = Inr (c', es, u) \<Longrightarrow> mc_tee_state c' = mc_tee_state c"
  "vote_cancel_keygen env c n = Inr (c', es, u) \<Longrightarrow> mc_tee_state c' = mc_tee_state c"
  "vote_abort_key_event_instance env c kid = Inr (c', es, u) \<Longrightarrow> mc_tee_state c' = mc_tee_state c"
  by (auto simp: vote_add_domains_def start_keygen_instance_def vote_pk_def start_reshare_instance_def
      vote_reshared_def vote_cancel_resharing_def vote_cancel_keygen_def vote_abort_key_event_instance_def
      res_simps split: option.splits)

lemmas same_tee = request_methods_tee callback_methods_tee governance_methods_tee protocol_methods_tee

abbreviation tee_ops :: "contract_libs \<Rightarrow> env \<Rightarrow> mpc_contract \<Rightarrow> tee_state \<Rightarrow> tee_state \<Rightarrow> bool" where
  "tee_ops cl env c \<equiv> (tee_op (cl_tee cl) env (tee_upgrade_deadline_duration c))\<^sup>*\<^sup>*"

lemma tee_op_then:
  "tee_op th env dur ts ts1 \<Longrightarrow> tee_op th env dur ts1 ts2 \<Longrightarrow> (tee_op th env dur)\<^sup>*\<^sup>* ts ts2"
  by (meson converse_rtranclp_into_rtranclp r_into_rtranclp)

lemma tee_op_once: "tee_op th env dur ts ts' \<Longrightarrow> (tee_op th env dur)\<^sup>*\<^sup>* ts ts'"
  by (rule r_into_rtranclp)

lemma hash_votes_tee:
  "vote_code_hash cl env c h = Inr (c', es, u) \<Longrightarrow> tee_ops cl env c (mc_tee_state c) (mc_tee_state c')"
  "vote_add_launcher_hash cl env c l = Inr (c', es, u) \<Longrightarrow> tee_ops cl env c (mc_tee_state c) (mc_tee_state c')"
  "vote_remove_launcher_hash env c l = Inr (c', es, u) \<Longrightarrow> tee_ops cl env c (mc_tee_state c) (mc_tee_state c')"
  "clean_tee_status c = Inr (c', es, u) \<Longrightarrow> tee_ops cl env c (mc_tee_state c) (mc_tee_state c')"
proof -
  show "tee_ops cl env c (mc_tee_state c) (mc_tee_state c')" if "vote_code_hash cl env c h = Inr (c', es, u)"
    using that by (auto simp: vote_code_hash_def res_simps Let_def case_prod_beta split: if_splits
        intro: tee_op_once [OF op_vote] tee_op_then [OF op_vote op_whitelist])
  show "tee_ops cl env c (mc_tee_state c) (mc_tee_state c')" if "vote_add_launcher_hash cl env c l = Inr (c', es, u)"
    using that by (auto simp: vote_add_launcher_hash_def res_simps Let_def case_prod_beta split: if_splits
        intro: tee_op_once [OF op_vote_launcher] tee_op_then [OF op_vote_launcher op_add_launcher])
  show "tee_ops cl env c (mc_tee_state c) (mc_tee_state c')" if "vote_remove_launcher_hash env c l = Inr (c', es, u)"
    using that by (auto simp: vote_remove_launcher_hash_def res_simps Let_def case_prod_beta split: if_splits
        intro: tee_op_once [OF op_vote_launcher] tee_op_then [OF op_vote_launcher op_remove_launcher])
  show "tee_ops cl env c (mc_tee_state c) (mc_tee_state c')" if "clean_tee_status c = Inr (c', es, u)"
    using that by (auto simp: clean_tee_status_def split: protocol_state.splits intro: tee_op_once [OF op_clean])
qed

lemma verification_methods_tee:
  "submit_participant_info cl env c att k = Inr (c', es, u) \<Longrightarrow> tee_ops cl env c (mc_tee_state c) (mc_tee_state c')"
  "vote_new_parameters env c e proposal = Inr (c', es, u) \<Longrightarrow> tee_ops cl env c (mc_tee_state c) (mc_tee_state c')"
  "verify_tee env c = Inr (c', es, b) \<Longrightarrow> tee_ops cl env c (mc_tee_state c) (mc_tee_state c')"
proof -
  show "tee_ops cl env c (mc_tee_state c) (mc_tee_state c')" if "submit_participant_info cl env c att k = Inr (c', es, u)"
  proof -
    from that obtain node_id a ts ins where
      "tee_add_participant (cl_tee cl) env (mc_tee_state c) node_id a (tee_upgrade_deadline_duration c) = Inr (Inr (ts, ins))"
      "mc_tee_state c' = ts"
      by (auto simp: submit_participant_info_def res_simps Let_def map_err_def split: if_splits sum.splits)
    then show ?thesis by (auto intro: tee_op_once [OF op_add_participant])
  qed
  have reverify: "tee_ops cl env c (mc_tee_state c) ts"
    if "reverify_and_cleanup_participants env (mc_tee_state c) ps (tee_upgrade_deadline_duration c) = (ts, v)" for ps ts v
    using tee_op_once [OF op_reverify [of "cl_tee cl" env "tee_upgrade_deadline_duration c" "mc_tee_state c" ps]] that
    by simp
  show "tee_ops cl env c (mc_tee_state c) (mc_tee_state c')" if "vote_new_parameters env c e proposal = Inr (c', es, u)"
  proof -
    obtain ts v where rv: "reverify_and_cleanup_participants env (mc_tee_state c) (tp_participants proposal)
        (tee_upgrade_deadline_duration c) = (ts, v)" by fastforce
    with that have "mc_tee_state c' = ts"
      by (auto simp: vote_new_parameters_def Let_def res_simps split: tee_validation_result.splits)
    with reverify [OF rv] show ?thesis by simp
  qed
  show "tee_ops cl env c (mc_tee_state c) (mc_tee_state c')" if v: "verify_tee env c = Inr (c', es, b)"
  proof -
    obtain r where r: "mc_protocol_state c = Running r"
      using v by (auto simp: verify_tee_def res_simps split: protocol_state.splits)
    obtain ts w where rv: "reverify_and_cleanup_participants env (mc_tee_state c) (tp_participants (rs_parameters r))
        (tee_upgrade_deadline_duration c) = (ts, w)" by fastforce
    with v have "mc_tee_state c' = ts"
      by (auto simp: verify_tee_def r Let_def res_simps split: tee_validation_result.splits option.splits if_splits)
    with reverify [OF rv] show ?thesis by simp
  qed
qed

lemma run_method_tee:
  assumes "run_method cl env c call = Inr (c', es)"
  shows "tee_ops cl env c (mc_tee_state c) (mc_tee_state c')"
  using assms
  by (cases call) (auto simp: without_value_Inr dest: same_tee hash_votes_tee verification_methods_tee)

section \<open>The allowlists along an execution\<close>

text \<open>Storage rounds the times of addition down to the second.\<close>

lemma stored_timestamp_eq:
  "duration_as_secs t < 2 ^ 64 \<Longrightarrow> stored_timestamp t = t - t mod 10 ^ 9"
  using timestamp_stored [of t "[]"] by (simp add: stored_timestamp_def)

lemma minus_mod_mono: "(a::nat) \<le> b \<Longrightarrow> a - a mod n \<le> b - b mod n"
  by (simp add: minus_mod_eq_div_mult div_le_mono)

lemma stored_images_covered:
  assumes "tee_covered th env dur ts" and fits: "duration_as_secs (timestamp_now env + dur) < 2 ^ 64"
  shows "tee_covered th env dur (ts\<lparr>ts_allowed_docker_image_hashes := store_images (ts_allowed_docker_image_hashes ts)\<rparr>)"
proof -
  let ?self = "ts_allowed_docker_image_hashes ts"
  let ?xs = "adh_allowed_tee_proposals ?self"
  have wf: "wf_images (timestamp_now env) ?self" using assms(1) by (auto simp: tee_covered_def dest: wf_teeD(1))
  have le: "ai_added e \<le> timestamp_now env" if "e \<in> set ?xs" for e
    using wf that by (auto simp: wf_images_def list_all_iff)
  have fit: "duration_as_secs (ai_added e + dur) < 2 ^ 64" "duration_as_secs (ai_added e) < 2 ^ 64"
    if "e \<in> set ?xs" for e
    using le [OF that] fits duration_as_secs_mono [of "ai_added e + dur" "timestamp_now env + dur"]
      duration_as_secs_mono [of "ai_added e" "timestamp_now env + dur"] by fastforce+
  have added: "stored_timestamp (ai_added e) = ai_added e - ai_added e mod 10 ^ 9" if "e \<in> set ?xs" for e
    using stored_timestamp_eq [OF fit(2) [OF that]] .
  have "sorted (map (\<lambda>e. ai_added e - ai_added e mod 10 ^ 9) ?xs)"
    using wf by (auto simp: wf_images_def sorted_wrt_map intro: minus_mod_mono elim: sorted_wrt_mono_rel [rotated])
  moreover have "map (\<lambda>e. stored_timestamp (ai_added e)) ?xs = map (\<lambda>e. ai_added e - ai_added e mod 10 ^ 9) ?xs"
    using added by (intro map_cong refl)
  ultimately have "sorted (map (\<lambda>e. stored_timestamp (ai_added e)) ?xs)" by (simp only:)
  then have "wf_images (timestamp_now env) (store_images ?self)"
    using wf le by (auto simp: wf_images_def store_images_def comp_def list_all_iff added
        intro: order_trans [OF diff_le_self])
  moreover have "ai_image_hash ` set (valid_entries env (store_images ?self) dur) \<subseteq>
      ai_image_hash ` set (valid_entries env ?self dur)"
    using fit added by (intro valid_hashes_antimono) (auto simp: store_images_def list_all2_map2 list_all2_same)
  ultimately show ?thesis
    using assms(1) by (auto simp: tee_covered_def wf_tee_def compose_covered_def allowed_images_eq)
qed

text \<open>No call of an execution raises the grace duration; only \<^verbatim>\<open>update_config\<close> changes it.\<close>

fun grace_not_raised :: "contract_libs \<Rightarrow> mpc_contract \<Rightarrow> (env \<times> contract_call) list \<Rightarrow> bool" where
  "grace_not_raised cl c [] = True"
| "grace_not_raised cl c (call # calls) =
     (let c' = execute cl c [call] in
      tee_upgrade_deadline_duration c' \<le> tee_upgrade_deadline_duration c \<and> grace_not_raised cl c' calls)"

abbreviation contract_covered :: "contract_libs \<Rightarrow> env \<Rightarrow> mpc_contract \<Rightarrow> bool" where
  "contract_covered cl env c \<equiv>
     tee_covered (cl_tee cl) env (tee_upgrade_deadline_duration c) (mc_tee_state c)"

lemma call_covered:
  assumes cov: "contract_covered cl env c"
    and le: "tee_upgrade_deadline_duration (execute cl c [(env, call)]) \<le> tee_upgrade_deadline_duration c"
    and fits: "duration_as_secs (timestamp_now env + tee_upgrade_deadline_duration c) < 2 ^ 64"
  shows "contract_covered cl env (execute cl c [(env, call)])"
proof (cases "call_method cl env c call")
  case (Inr r)
  then obtain c0 es where c0: "run_method cl env c call = Inr (c0, es)" "execute cl c [(env, call)] = store_and_load c0"
    by (cases r) (auto dest: call_method_Inr)
  have "tee_covered (cl_tee cl) env (tee_upgrade_deadline_duration c) (mc_tee_state c0)"
    using tee_ops_covered [OF run_method_tee [OF c0(1)] cov] .
  then have "tee_covered (cl_tee cl) env (tee_upgrade_deadline_duration c) (mc_tee_state (store_and_load c0))"
    unfolding store_and_load_def using stored_images_covered fits by simp
  from tee_covered_later [OF this order_refl _ fits] le show ?thesis unfolding c0(2) by blast
qed (use cov in simp)

lemma execute_covered:
  assumes "contract_covered cl env0 c" "sorted (timestamp_now env0 # map (timestamp_now \<circ> fst) calls @ [timestamp_now env])"
    and "grace_not_raised cl c calls"
    and "duration_as_secs (timestamp_now env + tee_upgrade_deadline_duration c) < 2 ^ 64"
  shows "contract_covered cl env (execute cl c calls)"
  using assms
proof (induction calls arbitrary: env0 c)
  case Nil
  then have "duration_as_secs (timestamp_now env0 + tee_upgrade_deadline_duration c) < 2 ^ 64"
    using duration_as_secs_mono [of "timestamp_now env0 + tee_upgrade_deadline_duration c"
      "timestamp_now env + tee_upgrade_deadline_duration c"] by simp
  with Nil tee_covered_later show ?case by simp
next
  case (Cons call calls)
  obtain env1 m where call: "call = (env1, m)" by (cases call)
  let ?c = "execute cl c [(env1, m)]"
  have t: "timestamp_now env0 \<le> timestamp_now env1" "timestamp_now env1 \<le> timestamp_now env"
    using Cons.prems(2) by (auto simp: call)
  have fits: "duration_as_secs (timestamp_now e + d) < 2 ^ 64"
    if "timestamp_now e \<le> timestamp_now env" "d \<le> tee_upgrade_deadline_duration c" for e d
    using Cons.prems(4) duration_as_secs_mono [of "timestamp_now e + d"
      "timestamp_now env + tee_upgrade_deadline_duration c"] that by simp
  have d: "tee_upgrade_deadline_duration ?c \<le> tee_upgrade_deadline_duration c" "grace_not_raised cl ?c calls"
    using Cons.prems(3) by (simp_all add: call Let_def)
  have "contract_covered cl env1 c"
    using tee_covered_later [OF Cons.prems(1) t(1) order_refl] fits t by simp
  then have "contract_covered cl env1 ?c"
    using call_covered d(1) fits t(2) by blast
  from Cons.IH [OF this _ d(2)] Cons.prems(2) fits [OF order_refl d(1)] show ?case by (simp add: call)
qed

text \<open>
  C21. No allowed combination of images is locked out. In every execution of the contract from its
  initialisation, whatever methods are called, every launcher image in the allowlist carries, at every
  later time, the compose hash of every MPC image that is allowed then. Block time must not run
  backwards, and no call may raise the grace duration: an image whose grace period was over can come
  back under a longer one, and a launcher image added in between has no compose hash for it.
\<close>

theorem compose_hashes_cover:
  assumes "init parameters cfg = Inr c \<or> init_running domains next_domain_id keyset parameters cfg = Inr c"
    and "sorted (map (timestamp_now \<circ> fst) calls @ [timestamp_now env])"
    and "grace_not_raised cl c calls"
    and "duration_as_secs (timestamp_now env + tee_upgrade_deadline_duration c) < 2 ^ 64"
  shows "compose_covered (cl_tee cl) (mc_tee_state (execute cl c calls))
    (set (get_allowed_mpc_docker_image_hashes env (mc_tee_state (execute cl c calls))
      (tee_upgrade_deadline_duration (execute cl c calls))))"
proof -
  have tee: "mc_tee_state c = with_mocked_participant_attestations (tp_participants parameters)"
    using assms(1) by (auto simp: init_def init_running_def res_simps initial_contract_def)
  have "compose_covered th (with_mocked_participant_attestations ps) A" for th ps A
    by (simp add: compose_covered_def with_mocked_participant_attestations_def tee_state_default_def)
  then have covered: "contract_covered cl env0 c" for env0
    by (simp only: tee tee_covered_def wf_tee_mocked simp_thms)
  obtain env0 :: env where "timestamp_now env0 = 0"
    by (rule that [of "(ex_env [] 0)"]) (simp add: timestamp_now_def ex_env_def)
  with execute_covered [OF covered _ assms(3,4), of env0] assms(2) show ?thesis
    by (simp add: tee_covered_def)
qed

text \<open>After initialisation, \<open>a\<close> and \<open>b\<close> vote in an MPC image and then a launcher image.\<close>

definition ex_compose_libs :: contract_libs where
  "ex_compose_libs = ex_libs\<lparr>cl_tee := toy_compose_libs\<rparr>"

definition ex_started :: "tee_state \<Rightarrow> mpc_contract" where
  "ex_started ts = (initial_contract (running_new domain_registry_default \<lparr>ks_epoch_id = 0, ks_domains = []\<rparr>
     ex_abc add_domains_votes_default) ex_abc None)\<lparr>mc_tee_state := ts\<rparr>"

definition ex_tee :: "allowed_mpc_docker_image list \<Rightarrow> allowed_launcher_image list \<Rightarrow>
    (nat, mpc_docker_image_hash) amap \<Rightarrow> (nat, launcher_vote_action) amap \<Rightarrow> tee_state" where
  "ex_tee images launchers votes launcher_votes =
     (with_mocked_participant_attestations (tp_participants ex_abc))\<lparr>
       ts_allowed_docker_image_hashes := \<lparr>adh_allowed_tee_proposals = images\<rparr>,
       ts_allowed_launcher_images := \<lparr>ali_entries = launchers\<rparr>,
       ts_votes := \<lparr>chv_proposal_by_account = votes\<rparr>,
       ts_launcher_votes := \<lparr>lhv_vote_by_account = launcher_votes\<rparr>\<rparr>"

lemma ex_init: "init ex_abc None = Inr (ex_started (ex_tee [] [] [] []))"
proof -
  have "ex_tee [] [] [] [] = with_mocked_participant_attestations (tp_participants ex_abc)"
    by (simp add: ex_tee_def with_mocked_participant_attestations_def tee_state_default_def)
  moreover have "threshold_parameters_validate ex_abc = Inr ()"
    using ex_wf(1) threshold_parameters_validate_iff [OF wf_parametersD(2) [OF ex_wf(1)]] by simp
  ultimately show ?thesis
    by (simp add: init_def ex_started_def initial_contract_def)
qed

definition ex_image :: allowed_mpc_docker_image where
  "ex_image = \<lparr>ai_image_hash = [7], ai_added = 10 ^ 9\<rparr>"

lemma ex_voters:
  "authenticate_tee_voter (ex_call_env ''a'') (ex_started ts) = Inr (ex_abc, 0)"
  "authenticate_tee_voter (ex_call_env ''b'') (ex_started ts) = Inr (ex_abc, 1)"
  "contract_threshold (ex_started ts) = Inr 2"
proof -
  have run: "\<exists>r. mc_protocol_state (ex_started ts) = Running r \<and> rs_parameters r = ex_abc"
    by (simp add: ex_started_def initial_contract_def running_new_def)
  then have voters: "voter_or_panic (ex_call_env p) (ex_started ts) = Inr p" if "p \<in> tp_accounts ex_abc" for p
    using that by (auto simp: voter_or_panic_Inr authenticate_running ex_env_def)
  have ab: "''a'' \<in> tp_accounts ex_abc" "''b'' \<in> tp_accounts ex_abc"
    by (simp_all add: ex_params_defs accounts_of_def)
  have ids: "authenticated_participant_id (ex_call_env ''a'') (tp_participants ex_abc) = Inr 0"
    "authenticated_participant_id (ex_call_env ''b'') (tp_participants ex_abc) = Inr 1" "tp_threshold ex_abc = 2"
    by (simp_all add: ex_auth_simps)
  from run show "authenticate_tee_voter (ex_call_env ''a'') (ex_started ts) = Inr (ex_abc, 0)"
    "authenticate_tee_voter (ex_call_env ''b'') (ex_started ts) = Inr (ex_abc, 1)"
    "contract_threshold (ex_started ts) = Inr 2"
    by (auto simp: authenticate_tee_voter_def voters [OF ab(1)] voters [OF ab(2)] protocol_threshold_parameters_def
        contract_threshold_def protocol_threshold_def ids simp del: One_nat_def)
qed

lemmas ex_ops_defs = ex_tee_def with_mocked_participant_attestations_def tee_state_default_def
  whitelist_tee_proposal_def add_mpc_image_compose_hashes_def code_hashes_clear_votes_def
  allowed_docker_image_hashes_insert_def cleanup_expired_hashes_def valid_entries_def vec_insert_def
  add_launcher_image_def allowed_launcher_images_add_def launcher_hash_clear_votes_def get_image_hashes_def
  tee_vote_def code_hashes_vote_def vote_launcher_def launcher_hash_vote_def count_value_def

lemma ex_votes:
  "tee_vote (ex_tee [] [] [] []) [7] 0 = (ex_tee [] [] [(0, [7])] [], 1)"
  "tee_vote (ex_tee [] [] [(0, [7])] []) [7] 1 = (ex_tee [] [] [(0, [7]), (1, [7])] [], 2)"
  "vote_launcher (ex_tee [ex_image] [] [] []) (AddLauncher [8]) 0 = (ex_tee [ex_image] [] [] [(0, AddLauncher [8])], 1)"
  "vote_launcher (ex_tee [ex_image] [] [] [(0, AddLauncher [8])]) (AddLauncher [8]) 1 =
     (ex_tee [ex_image] [] [] [(0, AddLauncher [8]), (1, AddLauncher [8])], 2)"
  by (simp_all add: ex_ops_defs)

lemma ex_whitelist:
  "whitelist_tee_proposal toy_compose_libs (ex_call_env ''b'') (ex_tee [] [] [(0, [7]), (1, [7])] []) [7] d =
     Inr (ex_tee [ex_image] [] [] [])"
  by (simp add: ex_ops_defs timestamp_now_def ex_env_def ex_image_def)

lemma ex_add_launcher:
  "get_docker_compose_hash toy_compose_libs [8] [7] = Inr h \<Longrightarrow>
     add_launcher_image toy_compose_libs (ex_call_env ''b'')
       (ex_tee [ex_image] [] [] [(0, AddLauncher [8]), (1, AddLauncher [8])]) [8] d =
     Inr (ex_tee [ex_image] [\<lparr>al_launcher_hash = [8], al_compose_hashes = [h]\<rparr>] [] [], True)"
  by (simp add: ex_ops_defs ex_image_def)

lemma ex_vote_calls:
  "call_method ex_compose_libs (ex_call_env ''a'') (ex_started (ex_tee [] [] [] [])) (CallVoteCodeHash [7]) =
     Inr (ex_started (ex_tee [] [] [(0, [7])] []), [])"
  "call_method ex_compose_libs (ex_call_env ''b'') (ex_started (ex_tee [] [] [(0, [7])] [])) (CallVoteCodeHash [7]) =
     Inr (ex_started (ex_tee [ex_image] [] [] []), [])"
  "call_method ex_compose_libs (ex_call_env ''a'') (ex_started (ex_tee [ex_image] [] [] [])) (CallVoteAddLauncherHash [8]) =
     Inr (ex_started (ex_tee [ex_image] [] [] [(0, AddLauncher [8])]), [])"
  "\<exists>h. get_docker_compose_hash toy_compose_libs [8] [7] = Inr h \<and>
     call_method ex_compose_libs (ex_call_env ''b'') (ex_started (ex_tee [ex_image] [] [] [(0, AddLauncher [8])]))
       (CallVoteAddLauncherHash [8]) =
     Inr (ex_started (ex_tee [ex_image] [\<lparr>al_launcher_hash = [8], al_compose_hashes = [h]\<rparr>] [] []), [])"
proof -
  have put: "store_and_load (ex_started (ex_tee images ls vs ws)) = ex_started (ex_tee images ls vs ws)"
    if "images = [] \<or> images = [ex_image]" for images ls vs ws
  proof -
    have "stored_timestamp (10 ^ 9) = 10 ^ 9"
      by (subst stored_timestamp_eq) (simp_all add: duration_as_secs_def)
    then show ?thesis
      using that by (auto simp: store_and_load_def store_images_def ex_started_def ex_tee_def ex_image_def)
  qed
  have tee: "mc_tee_state (ex_started ts) = ts" "(ex_started ts)\<lparr>mc_tee_state := ts'\<rparr> = ex_started ts'" for ts ts'
    by (simp_all add: ex_started_def)
  have call: "call_method ex_compose_libs (ex_call_env p) c m = bind_res (run_method ex_compose_libs (ex_call_env p) c m)
      (\<lambda>(c', es). Inr (store_and_load c', es))" if "\<not> is_private m" for p c m
    using that by (simp add: call_method_def ex_env_def)
  have libs: "cl_tee ex_compose_libs = toy_compose_libs" by (simp add: ex_compose_libs_def)
  note defs = call without_value_def vote_code_hash_def vote_add_launcher_hash_def ex_voters tee libs
  obtain h where "get_docker_compose_hash toy_compose_libs [8] [7] = Inr h"
    by (simp add: get_docker_compose_hash_def toy_compose_libs_def)
  note ops = ex_votes ex_whitelist ex_add_launcher [OF this] this
  show "call_method ex_compose_libs (ex_call_env ''a'') (ex_started (ex_tee [] [] [] [])) (CallVoteCodeHash [7]) =
     Inr (ex_started (ex_tee [] [] [(0, [7])] []), [])"
    "call_method ex_compose_libs (ex_call_env ''b'') (ex_started (ex_tee [] [] [(0, [7])] [])) (CallVoteCodeHash [7]) =
     Inr (ex_started (ex_tee [ex_image] [] [] []), [])"
    "call_method ex_compose_libs (ex_call_env ''a'') (ex_started (ex_tee [ex_image] [] [] [])) (CallVoteAddLauncherHash [8]) =
     Inr (ex_started (ex_tee [ex_image] [] [] [(0, AddLauncher [8])]), [])"
    "\<exists>h. get_docker_compose_hash toy_compose_libs [8] [7] = Inr h \<and>
     call_method ex_compose_libs (ex_call_env ''b'') (ex_started (ex_tee [ex_image] [] [] [(0, AddLauncher [8])]))
       (CallVoteAddLauncherHash [8]) =
     Inr (ex_started (ex_tee [ex_image] [\<lparr>al_launcher_hash = [8], al_compose_hashes = [h]\<rparr>] [] []), [])"
    by (simp_all add: defs ops put del: One_nat_def)
qed

theorem compose_hashes_cover_witness:
  "let c = execute ex_compose_libs (ex_started (ex_tee [] [] [] []))
       [(ex_call_env ''a'', CallVoteCodeHash [7]), (ex_call_env ''b'', CallVoteCodeHash [7]),
        (ex_call_env ''a'', CallVoteAddLauncherHash [8]), (ex_call_env ''b'', CallVoteAddLauncherHash [8])]
   in get_allowed_mpc_docker_image_hashes (ex_env ''a'' 2) (mc_tee_state c) (tee_upgrade_deadline_duration c) = [[7]] \<and>
     launcher_hashes (ts_allowed_launcher_images (mc_tee_state c)) = [[8]] \<and>
     compose_covered toy_compose_libs (mc_tee_state c) {[7]}"
proof -
  let ?calls = "[(ex_call_env ''a'', CallVoteCodeHash [7]), (ex_call_env ''b'', CallVoteCodeHash [7]),
        (ex_call_env ''a'', CallVoteAddLauncherHash [8]), (ex_call_env ''b'', CallVoteAddLauncherHash [8])]"
  have dur: "tee_upgrade_deadline_duration (ex_started ts) = duration_from_secs DEFAULT_TEE_UPGRADE_DEADLINE_DURATION_SECONDS"
    for ts
    by (simp add: tee_upgrade_deadline_duration_def ex_started_def initial_contract_def config_default_def)
  obtain h where h: "execute ex_compose_libs (ex_started (ex_tee [] [] [] [])) ?calls =
      ex_started (ex_tee [ex_image] [\<lparr>al_launcher_hash = [8], al_compose_hashes = [h]\<rparr>] [] [])"
    using ex_vote_calls by auto
  have "grace_not_raised ex_compose_libs (ex_started (ex_tee [] [] [] [])) ?calls"
    using ex_vote_calls by (auto simp: Let_def dur)
  moreover have "sorted (map (timestamp_now \<circ> fst) ?calls @ [timestamp_now (ex_env ''a'' 2)])"
    by (simp add: timestamp_now_def ex_env_def)
  moreover have "duration_as_secs (timestamp_now (ex_env ''a'' 2) +
      tee_upgrade_deadline_duration (ex_started (ex_tee [] [] [] []))) < 2 ^ 64"
    by (simp add: dur duration_from_secs_def duration_as_secs_def timestamp_now_def ex_env_def)
  moreover have "get_allowed_mpc_docker_image_hashes (ex_env ''a'' 2) (mc_tee_state (execute ex_compose_libs
      (ex_started (ex_tee [] [] [] [])) ?calls)) d = [[7]]" for d
    unfolding h by (simp add: ex_started_def ex_tee_def ex_image_def get_allowed_mpc_docker_image_hashes_def
        get_allowed_mpc_docker_images_def valid_entries_def)
  moreover have "cl_tee ex_compose_libs = toy_compose_libs" by (simp add: ex_compose_libs_def)
  ultimately show ?thesis
    using compose_hashes_cover [OF disjI1 [OF ex_init], of ?calls "ex_env ''a'' 2" ex_compose_libs]
    unfolding Let_def h by (simp add: launcher_hashes_def) (simp add: ex_started_def ex_tee_def)
qed

text \<open>
  Why the grace duration must not be raised. Of two images added a second apart, the older one is expired
  two seconds later under a grace duration of one second, so a launcher image added then gets the
  compose hash of the newer one only. With a grace duration of ten seconds from then on, the older
  image is allowed again and the pair has no compose hash.
\<close>

lemma raised_grace_uncovers:
  assumes "get_docker_compose_hash th l m1 = Inr h1" "get_docker_compose_hash th l m2 = Inr h2" "h1 \<noteq> h2"
  defines "ts \<equiv> ex_tee [\<lparr>ai_image_hash = m1, ai_added = 0\<rparr>, \<lparr>ai_image_hash = m2, ai_added = 10 ^ 9\<rparr>] [] [] []"
  shows "\<exists>ts'. add_launcher_image th (ex_env ''a'' 3) ts l (10 ^ 9) = Inr (ts', True) \<and>
    get_allowed_mpc_docker_image_hashes (ex_env ''a'' 4) ts' (10 * 10 ^ 9) = [m1, m2] \<and>
    \<not> compose_covered th ts' {m1, m2}"
proof -
  note times = grace_period_over_iff duration_as_secs_def timestamp_now_def ex_env_def
  have "get_image_hashes (ex_env ''a'' 3) (ts_allowed_docker_image_hashes ts) (10 ^ 9) = [m2]"
    by (simp add: ts_def ex_tee_def get_image_hashes_def valid_entries_def times)
  then have "add_launcher_image th (ex_env ''a'' 3) ts l (10 ^ 9) =
      Inr (ts\<lparr>ts_launcher_votes := \<lparr>lhv_vote_by_account = []\<rparr>,
        ts_allowed_launcher_images := \<lparr>ali_entries = [\<lparr>al_launcher_hash = l, al_compose_hashes = [h2]\<rparr>]\<rparr>\<rparr>, True)"
    by (simp add: add_launcher_image_def allowed_launcher_images_add_def assms(2) launcher_hash_clear_votes_def
        ts_def ex_tee_def)
  then show ?thesis
    using assms(1,3)
    by (simp add: compose_covered_def get_allowed_mpc_docker_image_hashes_def get_allowed_mpc_docker_images_def
        valid_entries_def ts_def ex_tee_def times)
qed

end
