(* ===== verification/Bytes.thy ===== *)
theory Bytes
  imports Prelude
begin

text \<open>
  Numbers as bytes: \<^verbatim>\<open>to_le_bytes\<close> and \<^verbatim>\<open>to_be_bytes\<close> of the Rust integers, their inverses, and the order of
  byte strings, which is the order of the keys in the database of a node.
\<close>

section \<open>Encodings\<close>

text \<open>The bytes of a number, least significant first.\<close>

fun le_bytes :: "nat \<Rightarrow> nat \<Rightarrow> nat list" where
  "le_bytes 0 n = []"
| "le_bytes (Suc k) n = n mod 256 # le_bytes k (n div 256)"

definition be_bytes :: "nat \<Rightarrow> nat \<Rightarrow> nat list" where
  "be_bytes k n = rev (le_bytes k n)"

lemma le_bytes_numeral [simp]: "le_bytes (numeral k) n = n mod 256 # le_bytes (pred_numeral k) (n div 256)"
  by (simp only: numeral_eq_Suc [of k] le_bytes.simps)

lemma length_le_bytes [simp]: "length (le_bytes k n) = k"
  by (induction k arbitrary: n) auto

lemma length_be_bytes [simp]: "length (be_bytes k n) = k"
  by (simp add: be_bytes_def)

text \<open>The value of little endian and of big endian bytes.\<close>

fun le_value :: "nat list \<Rightarrow> nat" where
  "le_value [] = 0"
| "le_value (b # bs) = b + 256 * le_value bs"

definition be_value :: "nat list \<Rightarrow> nat" where
  "be_value bs = le_value (rev bs)"

lemma le_value_le_bytes: "n < 256 ^ k \<Longrightarrow> le_value (le_bytes k n) = n"
  by (induction k arbitrary: n) (auto simp: less_mult_imp_div_less mult.commute)

lemma be_value_be_bytes: "n < 256 ^ k \<Longrightarrow> be_value (be_bytes k n) = n"
  by (simp add: be_value_def be_bytes_def le_value_le_bytes)

lemma le_bytes_bound: "b \<in> set (le_bytes k n) \<Longrightarrow> b < 256"
  by (induction k arbitrary: n) auto

lemma be_bytes_bound: "b \<in> set (be_bytes k n) \<Longrightarrow> b < 256"
  by (simp add: be_bytes_def le_bytes_bound)

lemma le_bytes_append: "le_bytes (j + k) n = le_bytes j n @ le_bytes k (n div 256 ^ j)"
  by (induction j arbitrary: n) (auto simp: div_mult2_eq)

text \<open>The high bytes come first.\<close>

lemma be_bytes_append: "be_bytes (k + j) n = be_bytes k (n div 256 ^ j) @ be_bytes j n"
  using le_bytes_append [of j k n] by (simp add: be_bytes_def add.commute)

lemma le_bytes_inj: "le_bytes k m = le_bytes k n \<Longrightarrow> m < 256 ^ k \<Longrightarrow> n < 256 ^ k \<Longrightarrow> m = n"
  by (metis le_value_le_bytes)

lemma be_bytes_inj: "be_bytes k m = be_bytes k n \<Longrightarrow> m < 256 ^ k \<Longrightarrow> n < 256 ^ k \<Longrightarrow> m = n"
  by (metis be_value_be_bytes)

section \<open>The order of byte strings\<close>

fun bytes_less :: "nat list \<Rightarrow> nat list \<Rightarrow> bool" where
  "bytes_less xs [] = False"
| "bytes_less [] (y # ys) = True"
| "bytes_less (x # xs) (y # ys) = (x < y \<or> x = y \<and> bytes_less xs ys)"

lemma bytes_less_same_prefix [simp]: "bytes_less (zs @ xs) (zs @ ys) = bytes_less xs ys"
  by (induction zs) auto

lemma bytes_less_append:
  "length xs = length ys \<Longrightarrow> xs \<noteq> ys \<Longrightarrow> bytes_less (xs @ us) (ys @ vs) = bytes_less xs ys"
  by (induction xs ys rule: list_induct2) auto

lemma bytes_less_irrefl [simp]: "\<not> bytes_less xs xs"
  by (induction xs) auto

lemma bytes_less_nil: "bytes_less xs ys \<Longrightarrow> ys \<noteq> []"
  by (cases ys) auto

lemma le_value_bound: "list_all (\<lambda>b. b < 256) bs \<Longrightarrow> le_value bs < 256 ^ length bs"
  by (induction bs) auto

lemma be_value_Cons: "be_value (b # bs) = b * 256 ^ length bs + be_value bs"
proof -
  have "le_value (xs @ [b]) = le_value xs + b * 256 ^ length xs" for xs by (induction xs) auto
  from this [of "rev bs"] show ?thesis by (simp add: be_value_def)
qed

lemma be_value_bound: "list_all (\<lambda>b. b < 256) bs \<Longrightarrow> be_value bs < 256 ^ length bs"
  using le_value_bound [of "rev bs"] by (simp add: be_value_def)

text \<open>On strings of the same length it is the order of the numbers.\<close>

lemma bytes_less_value:
  assumes "length xs = length ys" "list_all (\<lambda>b. b < 256) xs" "list_all (\<lambda>b. b < 256) ys"
  shows "bytes_less xs ys \<longleftrightarrow> be_value xs < be_value ys"
  using assms
proof (induction xs ys rule: list_induct2)
  case (Cons x xs y ys)
  let ?w = "256 ^ length xs :: nat"
  have b: "be_value xs < ?w" "be_value ys < ?w" using Cons be_value_bound [of xs] be_value_bound [of ys] by auto
  consider "x < y" | "x = y" | "y < x" by linarith
  then show ?case
  proof cases
    case 1
    then have "(x + 1) * ?w \<le> y * ?w" by (intro mult_right_mono) auto
    with 1 b Cons(1) show ?thesis by (simp add: be_value_Cons)
  next
    case 2
    with Cons show ?thesis by (simp add: be_value_Cons)
  next
    case 3
    then have "(y + 1) * ?w \<le> x * ?w" by (intro mult_right_mono) auto
    with 3 b Cons(1) show ?thesis by (simp add: be_value_Cons)
  qed
qed simp

lemma bytes_less_be_bytes:
  assumes "m < 256 ^ k" "n < 256 ^ k"
  shows "bytes_less (be_bytes k m) (be_bytes k n) \<longleftrightarrow> m < n"
  using bytes_less_value [of "be_bytes k m" "be_bytes k n"] assms
  by (simp add: list_all_iff be_bytes_bound be_value_be_bytes)

end
