(* ===== verification/Ciphersuite.thy ===== *)
theory Ciphersuite
  imports Bytes Complex_Main
begin

text \<open>
  What the crate \<^verbatim>\<open>threshold-signatures\<close> takes from a ciphersuite, with its errors and its participant
  identifiers. The scalars of a suite are the elements of a type of class \<open>field\<close>, the curve points
  those of a type of class \<open>ab_group_add\<close>; multiplication of a point by a scalar, the generator, the
  decoding of scalars and the hash functions belong to the suite and are fields of a record that every
  definition gets as an argument. \<open>suite_laws\<close> lists what a suite is known to satisfy: the points are a
  vector space over the scalars, the generator is not the identity, and small numbers decode to
  different scalars.
\<close>

section \<open>Errors\<close>

text \<open>\<^verbatim>\<open>ProtocolError\<close>, without the texts that some of its variants carry.\<close>

datatype protocol_error =
  AssertionFailed
| DKGNotSupported
| EmptyOrZeroCoefficients
| ErrorExtractVerificationKey
| ErrorEncoding
| IdentityElement
| IncompatibleRerandomizationInputs
| InvalidCommitmentHash
| InvalidIndex
| InvalidInterpolationArguments
| IncorrectNumberOfCommitments
| InvalidProofOfKnowledge nat
| InvalidSecretShare nat
| MaliciousParticipant nat
| HashingError
| ZeroScalar
| Unreachable
| IntegerOverflow
| OtherError

datatype initialization_error =
  BadParameters
| DuplicateParticipants
| MissingParticipant nat
| NotEnoughParticipants nat
| NotEnoughParticipantsForThreshold nat nat
| NotEnoughParticipantsForNewThreshold nat nat
| ThresholdTooSmall nat nat
| ThresholdTooLarge nat nat

text \<open>A run of the library code ends with an error of its own or panics.\<close>

datatype ts_abort = TsError protocol_error | TsPanic

type_synonym 'a ts_res = "ts_abort + 'a"

section \<open>Ciphersuites\<close>

datatype bytes_order = BigEndian | LittleEndian

record ('s, 'g) ciphersuite =
  cs_bytes_order :: bytes_order
  cs_deserialize_scalar :: "nat list \<Rightarrow> 's option"
  cs_mul :: "'g \<Rightarrow> 's \<Rightarrow> 'g"
  cs_generator :: 'g
  cs_HDKG :: "nat list \<Rightarrow> 's option"
  cs_serialize_scalar :: "'s \<Rightarrow> nat list"
  cs_serialize_element :: "'g \<Rightarrow> nat list option"

section \<open>Participant identifiers\<close>

text \<open>\<^verbatim>\<open>Participant::scalar\<close>: the identifier plus one, as the 32 bytes of a scalar in the order of the suite.\<close>

definition participant_scalar_bytes :: "bytes_order \<Rightarrow> nat \<Rightarrow> nat list" where
  "participant_scalar_bytes order p = (case order of
     BigEndian \<Rightarrow> replicate 24 0 @ be_bytes 8 (p + 1)
   | LittleEndian \<Rightarrow> le_bytes 8 (p + 1) @ replicate 24 0)"

definition participant_scalar :: "('s, 'g, 'm) ciphersuite_scheme \<Rightarrow> nat \<Rightarrow> 's ts_res" where
  "participant_scalar cs p =
     ok_or (cs_deserialize_scalar cs (participant_scalar_bytes (cs_bytes_order cs) p)) TsPanic"

text \<open>\<^verbatim>\<open>Participant::bytes\<close>.\<close>

definition participant_bytes :: "nat \<Rightarrow> nat list" where
  "participant_bytes p = le_bytes 4 p"

section \<open>What a suite satisfies\<close>

text \<open>
  The scalars are a field whose characteristic is above \<open>2 ^ 32\<close> (the suites have prime orders of about
  256 bits), canonical bytes of a small number decode to it, and the points are a group of that prime
  order: a vector space over the scalars.
\<close>

definition suite_laws :: "('s :: field, 'g :: ab_group_add, 'm) ciphersuite_scheme \<Rightarrow> bool" where
  "suite_laws cs \<longleftrightarrow>
     vector_space (\<lambda>s g. cs_mul cs g s) \<and> cs_generator cs \<noteq> 0 \<and>
     (\<forall>n \<le> 2 ^ 32. n \<noteq> 0 \<longrightarrow> of_nat n \<noteq> (0 :: 's)) \<and>
     (\<forall>p < 2 ^ 32. participant_scalar cs p = Inr (of_nat (p + 1)))"

lemma suite_module: "suite_laws cs \<Longrightarrow> module (\<lambda>s g. cs_mul cs g s)"
  by (auto simp: suite_laws_def vector_space_def module_def)

lemma suite_scalar:
  "suite_laws cs \<Longrightarrow> p < 2 ^ 32 \<Longrightarrow> participant_scalar cs p = Inr (of_nat (p + 1))"
  by (simp add: suite_laws_def)

lemma of_nat_small_inj:
  assumes "suite_laws (cs :: ('s :: field, 'g :: ab_group_add, 'm) ciphersuite_scheme)"
    and "m \<le> 2 ^ 32" "n \<le> 2 ^ 32" "of_nat m = (of_nat n :: 's)"
  shows "m = n"
proof -
  have "m = n" if "m \<le> n" "n \<le> 2 ^ 32" "of_nat m = (of_nat n :: 's)" for m n
  proof (rule ccontr)
    assume "m \<noteq> n"
    then have "n - m \<noteq> 0" "n - m \<le> 2 ^ 32" using that by auto
    then have "of_nat (n - m) \<noteq> (0 :: 's)" using assms(1) unfolding suite_laws_def by blast
    then show False using that by (simp add: of_nat_diff)
  qed
  then show ?thesis using assms(2-4) by (metis nle_le)
qed

text \<open>The group laws, in the argument order of the code.\<close>

lemma suite_mul:
  assumes "suite_laws cs"
  shows "cs_mul cs (g + h) s = cs_mul cs g s + cs_mul cs h s"
    "cs_mul cs g (s + t) = cs_mul cs g s + cs_mul cs g t"
    "cs_mul cs (cs_mul cs g s) t = cs_mul cs g (s * t)"
    "cs_mul cs g 1 = g" "cs_mul cs 0 s = 0" "cs_mul cs g 0 = 0"
    "cs_mul cs g (- s) = - cs_mul cs g s" "cs_mul cs g (s - t) = cs_mul cs g s - cs_mul cs g t"
    "cs_mul cs (g - h) s = cs_mul cs g s - cs_mul cs h s"
  by (simp_all add: module.scale_right_distrib [OF suite_module [OF assms]]
    module.scale_left_distrib [OF suite_module [OF assms]] module.scale_scale [OF suite_module [OF assms]]
    module.scale_one [OF suite_module [OF assms]] module.scale_zero_left [OF suite_module [OF assms]]
    module.scale_zero_right [OF suite_module [OF assms]] module.scale_minus_left [OF suite_module [OF assms]]
    module.scale_left_diff_distrib [OF suite_module [OF assms]]
    module.scale_right_diff_distrib [OF suite_module [OF assms]] mult.commute)

lemma suite_mul_sum:
  assumes "suite_laws cs"
  shows "cs_mul cs g (sum f A) = (\<Sum>i\<in>A. cs_mul cs g (f i))"
    "cs_mul cs (sum h A) s = (\<Sum>i\<in>A. cs_mul cs (h i) s)"
  by (simp_all add: module.scale_sum_left [OF suite_module [OF assms]]
    module.scale_sum_right [OF suite_module [OF assms]])

lemma generator_mul_inj:
  assumes "suite_laws cs"
  shows "cs_mul cs (cs_generator cs) s = cs_mul cs (cs_generator cs) t \<longleftrightarrow> s = t"
  using assms vector_space.scale_cancel_right [of "\<lambda>s g. cs_mul cs g s"] by (auto simp: suite_laws_def)

section \<open>A suite over the rationals\<close>

text \<open>
  The rationals as scalars and as points satisfy the laws, with canonical little endian decoding: an
  instance on which the statements below are evaluated.
\<close>

definition rat_suite :: "(rat, rat) ciphersuite" where
  "rat_suite = \<lparr>cs_bytes_order = LittleEndian, cs_deserialize_scalar = (\<lambda>bs. Some (of_nat (le_value bs))),
     cs_mul = (*), cs_generator = 1, cs_HDKG = (\<lambda>bs. Some (of_nat (length bs))),
     cs_serialize_scalar = (\<lambda>s. [0]), cs_serialize_element = (\<lambda>g. if g = 0 then None else Some [1])\<rparr>"

lemma le_value_append: "le_value (xs @ ys) = le_value xs + 256 ^ length xs * le_value ys"
  by (induction xs) (auto simp: algebra_simps)

lemma le_value_replicate_0 [simp]: "le_value (replicate k 0) = 0"
  by (induction k) auto

lemma rat_suite_fields [simp]:
  "cs_mul rat_suite = (*)" "cs_generator rat_suite = 1" "cs_HDKG rat_suite bs = Some (of_nat (length bs))"
  "cs_serialize_scalar rat_suite s = [0]" "cs_serialize_element rat_suite g = (if g = 0 then None else Some [1])"
  by (simp_all add: rat_suite_def)

lemma rat_suite_scalar: "p < 2 ^ 32 \<Longrightarrow> participant_scalar rat_suite p = Inr (of_nat (p + 1))"
  using le_value_le_bytes [of "p + 1" 8]
  by (simp add: participant_scalar_def rat_suite_def participant_scalar_bytes_def le_value_append)

lemma rat_suite_laws: "suite_laws rat_suite"
  unfolding suite_laws_def
proof (intro conjI)
  show "vector_space (\<lambda>s g. cs_mul rat_suite g s)"
    by unfold_locales (auto simp: rat_suite_def algebra_simps)
  show "\<forall>p<2 ^ 32. participant_scalar rat_suite p = Inr (of_nat (p + 1))"
    using rat_suite_scalar by blast
qed (auto simp: rat_suite_def)

end
