(* ===== verification/Polynomials.thy ===== *)
theory Polynomials
  imports Ciphersuite
begin

text \<open>
  Polynomials over the scalars of a suite and their commitments, as
  \<^verbatim>\<open>crates/threshold-signatures/src/crypto/polynomials.rs\<close> has them: construction, evaluation by Horner's
  rule, Lagrange coefficients one by one and in a batch, and interpolation of scalars and of points.
  The lemmas relate every routine to the textbook definition: evaluation to the sum of powers, both
  computations of Lagrange coefficients to the product formula, and interpolation to evaluation.
\<close>

section \<open>Polynomials\<close>

record 's polynomial =
  poly_coefficients :: "'s list"

definition polynomial_new :: "'s :: field list \<Rightarrow> 's polynomial ts_res" where
  "polynomial_new coefficients =
     (if coefficients = [] then Inl (TsError EmptyOrZeroCoefficients)
      else let count = length (takeWhile (\<lambda>x. x = 0) (rev coefficients));
               last_non_null = length coefficients - count;
               new_coefficients = take last_non_null coefficients
           in if new_coefficients = [] then Inl (TsError EmptyOrZeroCoefficients)
              else Inr \<lparr>poly_coefficients = new_coefficients\<rparr>)"

text \<open>Draws of the random number generator: the generator is an argument that returns a scalar and its next state.\<close>

fun random_scalars :: "('r \<Rightarrow> 's \<times> 'r) \<Rightarrow> nat \<Rightarrow> 'r \<Rightarrow> 's list \<times> 'r" where
  "random_scalars rnd 0 r = ([], r)"
| "random_scalars rnd (Suc k) r = (case rnd r of (s, r') \<Rightarrow> case random_scalars rnd k r' of (ss, r'') \<Rightarrow> (s # ss, r''))"

text \<open>\<^verbatim>\<open>usize\<close> has 64 bits; \<open>scalar_size\<close> is the size of a scalar in bytes.\<close>

definition generate_polynomial ::
    "('r \<Rightarrow> 's :: field \<times> 'r) \<Rightarrow> nat \<Rightarrow> 's option \<Rightarrow> nat \<Rightarrow> 'r \<Rightarrow> ('s polynomial \<times> 'r) ts_res" where
  "generate_polynomial rnd scalar_size secret degree r =
     bind_res (ok_or (checked_add 64 degree 1) (TsError IntegerOverflow)) (\<lambda>poly_size.
     bind_res (ok_or (checked_mul 64 poly_size scalar_size) (TsError IntegerOverflow)) (\<lambda>poly_alloc_size.
     bind_res (ensure (poly_alloc_size \<le> 2 ^ 63 - 1) (TsError IntegerOverflow)) (\<lambda>_.
     let (secret, r) = (case secret of Some s \<Rightarrow> (s, r) | None \<Rightarrow> rnd r);
         (rest, r) = random_scalars rnd (poly_size - 1) r
     in bind_res (polynomial_new (secret # rest)) (\<lambda>p. Inr (p, r)))))"

definition poly_eval_at_zero :: "'s polynomial \<Rightarrow> 's ts_res" where
  "poly_eval_at_zero self = (case poly_coefficients self of
     [] \<Rightarrow> Inl (TsError EmptyOrZeroCoefficients) | c # _ \<Rightarrow> Inr c)"

definition poly_eval_at_point :: "'s :: field polynomial \<Rightarrow> 's \<Rightarrow> 's ts_res" where
  "poly_eval_at_point self point =
     (if poly_coefficients self = [] then Inl (TsError EmptyOrZeroCoefficients)
      else if point = 0 then poly_eval_at_zero self
      else Inr (fold (\<lambda>coeff value. value * point + coeff) (rev (poly_coefficients self)) 0))"

definition poly_eval_at_participant ::
    "('s :: field, 'g, 'm) ciphersuite_scheme \<Rightarrow> 's polynomial \<Rightarrow> nat \<Rightarrow> 's ts_res" where
  "poly_eval_at_participant cs self participant =
     bind_res (participant_scalar cs participant) (\<lambda>point. poly_eval_at_point self point)"

definition set_nonzero_constant :: "'s :: field polynomial \<Rightarrow> 's \<Rightarrow> 's polynomial ts_res" where
  "set_nonzero_constant self v = (case poly_coefficients self of
     [] \<Rightarrow> Inl (TsError EmptyOrZeroCoefficients)
   | _ # rest \<Rightarrow> if v = 0 \<and> length (poly_coefficients self) = 1 then Inl (TsError EmptyOrZeroCoefficients)
       else Inr (self\<lparr>poly_coefficients := v # rest\<rparr>))"

definition extend_with_zero :: "'s :: field polynomial \<Rightarrow> 's polynomial ts_res" where
  "extend_with_zero self = polynomial_new (0 # poly_coefficients self)"

section \<open>Lagrange coefficients\<close>

text \<open>\<^verbatim>\<open>Field::invert\<close> fails on zero only.\<close>

definition field_invert :: "'s :: field \<Rightarrow> 's option" where
  "field_invert x = (if x = 0 then None else Some (inverse x))"

definition lagrange_loop :: "('s :: field \<Rightarrow> 's) \<Rightarrow> ('s \<Rightarrow> 's) \<Rightarrow> 's \<Rightarrow> 's list \<Rightarrow> 's \<times> 's \<times> bool" where
  "lagrange_loop num_factor den_factor x_i points_set =
     fold (\<lambda>x_j (num, den, contains_i).
         if x_i = x_j then (num, den, True) else (num * num_factor x_j, den * den_factor x_j, contains_i))
       points_set (1, 1, False)"

definition compute_lagrange_coefficient :: "'s :: field list \<Rightarrow> 's \<Rightarrow> 's option \<Rightarrow> 's ts_res" where
  "compute_lagrange_coefficient points_set x_i x =
     bind_res (ensure (\<not> length points_set \<le> 1) (TsError InvalidInterpolationArguments)) (\<lambda>_.
     let (num, den, contains_i) = (case x of
         Some x \<Rightarrow> lagrange_loop (\<lambda>x_j. x - x_j) (\<lambda>x_j. x_i - x_j) x_i points_set
       | None \<Rightarrow> lagrange_loop (\<lambda>x_j. x_j) (\<lambda>x_j. x_j - x_i) x_i points_set)
     in bind_res (ensure contains_i (TsError InvalidInterpolationArguments)) (\<lambda>_.
        bind_res (ok_or (field_invert den) (TsError Unreachable)) (\<lambda>den.
        Inr (num * den))))"

text \<open>\<^verbatim>\<open>batch_invert\<close>: prefix products, one inversion, and a walk back from the last element to the second.\<close>

fun prefix_products :: "'s :: field \<Rightarrow> 's list \<Rightarrow> 's list" where
  "prefix_products acc [] = []"
| "prefix_products acc (v # vs) = acc * v # prefix_products (acc * v) vs"

fun invert_back :: "'s :: field list \<Rightarrow> 's list \<Rightarrow> 's \<Rightarrow> 's list \<Rightarrow> 's list" where
  "invert_back (p # ps) (v # vs) inv_last inverted = invert_back ps vs (inv_last * v) (p * inv_last # inverted)"
| "invert_back ps vs inv_last inverted = inv_last # inverted"

definition batch_invert :: "'s :: field list \<Rightarrow> 's list ts_res" where
  "batch_invert values =
     bind_res (ensure (values \<noteq> []) (TsError InvalidInterpolationArguments)) (\<lambda>_.
     let products = prefix_products 1 values; acc = fold (\<lambda>v acc. acc * v) values 1
     in bind_res (ok_or (field_invert acc) (TsError InvalidInterpolationArguments)) (\<lambda>inv_last.
        Inr (invert_back (tl (rev products)) (rev (tl values)) inv_last [])))"

text \<open>The index of the last point equal to \<open>x\<close>; positions are converted to \<^verbatim>\<open>u32\<close>.\<close>

fun kronecker_index :: "nat \<Rightarrow> 's list \<Rightarrow> 's \<Rightarrow> nat option \<Rightarrow> nat option ts_res" where
  "kronecker_index i [] x found = Inr found"
| "kronecker_index i (p # ps) x found =
     bind_res (ensure (i < 2 ^ 32) (TsError InvalidInterpolationArguments)) (\<lambda>_.
     kronecker_index (Suc i) ps x (if p = x then Some i else found))"

definition lagrange_denominator :: "'s :: field list \<Rightarrow> nat \<Rightarrow> 's" where
  "lagrange_denominator points_set i =
     fold (\<lambda>j den. if i = j then den else den * (points_set ! i - points_set ! j)) [0..<length points_set] 1"

definition batch_numerator :: "'s :: field list \<Rightarrow> 's \<Rightarrow> ('s \<times> 's list) ts_res" where
  "batch_numerator points_set x =
     (if x = 0 then
        let p = fold (\<lambda>x_i p. p * x_i) points_set 1
        in bind_res (batch_invert points_set) (\<lambda>inv_xis.
           Inr (if length points_set mod 2 = 0 then 0 - p else p, inv_xis))
      else
        bind_res (batch_invert (map (\<lambda>x_i. x - x_i) points_set)) (\<lambda>inv.
        Inr (fold (\<lambda>x_i full. full * (x - x_i)) points_set 1, inv)))"

definition batch_compute_lagrange_coefficients :: "'s :: field list \<Rightarrow> 's option \<Rightarrow> 's list ts_res" where
  "batch_compute_lagrange_coefficients points_set x =
     bind_res (ensure (\<not> length points_set \<le> 1) (TsError InvalidInterpolationArguments)) (\<lambda>_.
     let n = length points_set; x = (case x of Some x \<Rightarrow> x | None \<Rightarrow> 0)
     in bind_res (kronecker_index 0 points_set x None) (\<lambda>k. case k of
          Some k \<Rightarrow> Inr ((replicate n 0)[k := 1])
        | None \<Rightarrow>
            bind_res (batch_invert (map (lagrange_denominator points_set) [0..<n])) (\<lambda>inv_denominators.
            bind_res (batch_numerator points_set x) (\<lambda>(numerator_prod, inv_factors).
            Inr (map (\<lambda>(f, d). numerator_prod * f * d) (zip inv_factors inv_denominators))))))"

definition eval_interpolation :: "'s :: field list \<Rightarrow> 's list \<Rightarrow> 's option \<Rightarrow> 's ts_res" where
  "eval_interpolation identifiers shares point =
     bind_res (ensure (\<not> (length identifiers \<noteq> length shares \<or> length identifiers \<le> 1))
       (TsError InvalidInterpolationArguments)) (\<lambda>_.
     bind_res (batch_compute_lagrange_coefficients identifiers point) (\<lambda>coefficients.
     Inr (fold (\<lambda>(l, s) acc. acc + l * s) (zip coefficients shares) 0)))"

section \<open>Commitments\<close>

record 'g polynomial_commitment =
  pc_coefficients :: "'g list"

definition commitment_new :: "'g :: ab_group_add list \<Rightarrow> 'g polynomial_commitment ts_res" where
  "commitment_new coefcommitments =
     (let count = (case rposition (\<lambda>x. x \<noteq> 0) coefcommitments of None \<Rightarrow> 0 | Some i \<Rightarrow> i + 1)
      in if count = 0 then Inl (TsError EmptyOrZeroCoefficients)
         else Inr \<lparr>pc_coefficients = take count coefcommitments\<rparr>)"

definition commit_polynomial ::
    "('s, 'g :: ab_group_add, 'm) ciphersuite_scheme \<Rightarrow> 's polynomial \<Rightarrow> 'g polynomial_commitment ts_res" where
  "commit_polynomial cs self = commitment_new (map (\<lambda>c. cs_mul cs (cs_generator cs) c) (poly_coefficients self))"

abbreviation commitment_degree :: "'g polynomial_commitment \<Rightarrow> nat ts_res" where
  "commitment_degree self \<equiv> ok_or (checked_sub (length (pc_coefficients self)) 1) TsPanic"

fun add_coefficients :: "'g :: ab_group_add list \<Rightarrow> 'g list \<Rightarrow> 'g list" where
  "add_coefficients (a # as) (b # bs) = (a + b) # add_coefficients as bs"
| "add_coefficients as [] = as"
| "add_coefficients [] bs = bs"

definition commitment_add ::
    "'g :: ab_group_add polynomial_commitment \<Rightarrow> 'g polynomial_commitment \<Rightarrow> 'g polynomial_commitment ts_res" where
  "commitment_add self rhs = commitment_new (add_coefficients (pc_coefficients self) (pc_coefficients rhs))"

definition commitment_eval_at_zero :: "'g polynomial_commitment \<Rightarrow> 'g ts_res" where
  "commitment_eval_at_zero self = (case pc_coefficients self of
     [] \<Rightarrow> Inl (TsError EmptyOrZeroCoefficients) | c # _ \<Rightarrow> Inr c)"

definition commitment_eval_at_point ::
    "('s, 'g :: ab_group_add, 'm) ciphersuite_scheme \<Rightarrow> 'g polynomial_commitment \<Rightarrow> 's \<Rightarrow> 'g ts_res" where
  "commitment_eval_at_point cs self point =
     (if pc_coefficients self = [] then Inl (TsError EmptyOrZeroCoefficients)
      else Inr (fold (\<lambda>c out. cs_mul cs out point + c) (rev (pc_coefficients self)) 0))"

definition commitment_eval_at_participant ::
    "('s, 'g :: ab_group_add, 'm) ciphersuite_scheme \<Rightarrow> 'g polynomial_commitment \<Rightarrow> nat \<Rightarrow> 'g ts_res" where
  "commitment_eval_at_participant cs self participant =
     bind_res (participant_scalar cs participant) (\<lambda>point. commitment_eval_at_point cs self point)"

definition eval_exponent_interpolation ::
    "('s :: field, 'g :: ab_group_add, 'm) ciphersuite_scheme \<Rightarrow> 's list \<Rightarrow> 'g list \<Rightarrow> 's option \<Rightarrow> 'g ts_res" where
  "eval_exponent_interpolation cs identifiers shares point =
     bind_res (ensure (\<not> (length identifiers \<noteq> length shares \<or> length identifiers \<le> 1))
       (TsError InvalidInterpolationArguments)) (\<lambda>_.
     bind_res (batch_compute_lagrange_coefficients identifiers point) (\<lambda>coefficients.
     Inr (fold (\<lambda>(l, s) acc. acc + cs_mul cs s l) (zip coefficients shares) 0)))"

definition extend_with_identity :: "'g :: ab_group_add polynomial_commitment \<Rightarrow> 'g polynomial_commitment ts_res" where
  "extend_with_identity self = commitment_new (0 # pc_coefficients self)"

definition set_non_identity_constant ::
    "'g :: ab_group_add polynomial_commitment \<Rightarrow> 'g \<Rightarrow> 'g polynomial_commitment ts_res" where
  "set_non_identity_constant self v = (case pc_coefficients self of
     [] \<Rightarrow> Inl (TsError EmptyOrZeroCoefficients)
   | _ # rest \<Rightarrow> if v = 0 \<and> length (pc_coefficients self) = 1 then Inl (TsError EmptyOrZeroCoefficients)
       else Inr (self\<lparr>pc_coefficients := v # rest\<rparr>))"

section \<open>Polynomial functions\<close>

text \<open>The value of a coefficient list at a point, and the functions that are polynomials of degree below \<open>n\<close>.\<close>

definition horner :: "'s :: field list \<Rightarrow> 's \<Rightarrow> 's" where
  "horner cs x = foldr (\<lambda>c v. v * x + c) cs 0"

lemma horner_simps [simp]: "horner [] x = 0" "horner (c # cs) x = horner cs x * x + c"
  by (simp_all add: horner_def)

lemma horner_sum: "horner cs x = (\<Sum>k<length cs. cs ! k * x ^ k)"
proof (induction cs)
  case (Cons c cs)
  have "(\<Sum>k<length (c # cs). (c # cs) ! k * x ^ k) = c + (\<Sum>k<length cs. cs ! k * x ^ Suc k)"
    by (simp add: sum.lessThan_Suc_shift del: sum.lessThan_Suc)
  also have "\<dots> = c + (\<Sum>k<length cs. cs ! k * x ^ k) * x"
    by (subst sum_distrib_right) (simp add: ac_simps)
  finally show ?case using Cons.IH by simp
qed simp

definition poly_fun :: "nat \<Rightarrow> ('s :: field \<Rightarrow> 's) \<Rightarrow> bool" where
  "poly_fun n f \<longleftrightarrow> (\<exists>cs. length cs \<le> n \<and> f = horner cs)"

lemma poly_fun_horner: "length cs \<le> n \<Longrightarrow> poly_fun n (horner cs)"
  by (auto simp: poly_fun_def)

lemma poly_fun_mono: "poly_fun m f \<Longrightarrow> m \<le> n \<Longrightarrow> poly_fun n f"
  by (auto simp: poly_fun_def intro: order_trans)

lemma poly_fun_zero: "poly_fun n (\<lambda>_. 0)"
  unfolding poly_fun_def by (rule exI [of _ "[]"]) (auto simp: horner_def)

lemma poly_fun_add:
  assumes "poly_fun n f" "poly_fun n g"
  shows "poly_fun n (\<lambda>x. f x + g x)"
proof -
  have "\<exists>cs. length cs \<le> max (length as) (length bs) \<and> (\<forall>x. horner cs x = horner as x + horner bs x)"
    for as bs :: "'a list"
  proof (induction as arbitrary: bs)
    case (Cons a as)
    show ?case
    proof (cases bs)
      case (Cons b bs')
      obtain cs where "length cs \<le> max (length as) (length bs')"
        "\<forall>x. horner cs x = horner as x + horner bs' x" using Cons.IH by blast
      then show ?thesis
        unfolding Cons by (intro exI [of _ "(a + b) # cs"]) (auto simp: algebra_simps)
    qed (auto intro: exI [of _ "a # as"])
  qed auto
  moreover obtain as bs where "length as \<le> n" "f = horner as" "length bs \<le> n" "g = horner bs"
    using assms by (auto simp: poly_fun_def)
  ultimately obtain cs where "length cs \<le> n" "\<forall>x. horner cs x = f x + g x"
    by (metis max.bounded_iff order_trans)
  then show ?thesis unfolding poly_fun_def by (intro exI [of _ cs]) (auto simp: fun_eq_iff)
qed

lemma poly_fun_scale: "poly_fun n f \<Longrightarrow> poly_fun n (\<lambda>x. k * f x)"
proof -
  have "horner (map ((*) k) cs) x = k * horner cs x" for cs :: "'a list" and x
    by (induction cs) (auto simp: algebra_simps)
  moreover assume "poly_fun n f"
  then obtain cs where "length cs \<le> n" "f = horner cs" by (auto simp: poly_fun_def)
  ultimately show ?thesis
    unfolding poly_fun_def by (intro exI [of _ "map ((*) k) cs"]) (auto simp: fun_eq_iff)
qed

lemma poly_fun_linear: "poly_fun n f \<Longrightarrow> poly_fun (Suc n) (\<lambda>x. f x * (x - a))"
proof -
  assume "poly_fun n f"
  then obtain cs where cs: "length cs \<le> n" "f = horner cs" by (auto simp: poly_fun_def)
  have "poly_fun (Suc n) (\<lambda>x. horner (0 # cs) x + (- a) * horner cs x)"
    using cs(1) by (intro poly_fun_add poly_fun_scale poly_fun_horner) auto
  then show ?thesis using cs(2) by (simp add: algebra_simps)
qed

lemma poly_fun_const: "poly_fun (Suc n) (\<lambda>x. k)"
proof -
  have "(\<lambda>x. k) = horner [k]" by (simp add: fun_eq_iff)
  then show ?thesis using poly_fun_horner [of "[k]" "Suc n"] by simp
qed

lemma poly_fun_sum: "finite A \<Longrightarrow> (\<And>i. i \<in> A \<Longrightarrow> poly_fun n (f i)) \<Longrightarrow> poly_fun n (\<lambda>x. \<Sum>i\<in>A. f i x)"
  by (induction A rule: finite_induct) (auto intro: poly_fun_zero poly_fun_add)

text \<open>A polynomial is divisible by \<open>x - a\<close> up to its value at \<open>a\<close>, so it has no more roots than its degree.\<close>

lemma poly_fun_divide:
  "\<exists>g. poly_fun (length cs - 1) g \<and> (\<forall>x. horner cs x - horner cs a = g x * (x - a))"
proof (induction cs)
  case (Cons c cs)
  then obtain g where g: "poly_fun (length cs - 1) g" "\<forall>x. horner cs x - horner cs a = g x * (x - a)"
    by blast
  have "poly_fun (length cs) (\<lambda>x. horner cs x + a * g x)"
    using g(1) by (intro poly_fun_add poly_fun_scale poly_fun_horner) (auto intro: poly_fun_mono)
  moreover have "horner (c # cs) x - horner (c # cs) a = (horner cs x + a * g x) * (x - a)" for x
  proof -
    have "horner (c # cs) x - horner (c # cs) a = horner cs x * (x - a) + a * (horner cs x - horner cs a)"
      by (simp add: algebra_simps)
    also have "\<dots> = horner cs x * (x - a) + a * (g x * (x - a))" using g(2) by simp
    finally show ?thesis by (simp only: distrib_right mult.assoc)
  qed
  ultimately show ?case by auto
qed (auto intro: exI [of _ "\<lambda>_. 0"] poly_fun_zero)

lemma poly_fun_roots:
  assumes "poly_fun n f" "finite S" "n \<le> card S" "\<forall>s \<in> S. f s = 0"
  shows "f x = 0"
  using assms
proof (induction n arbitrary: f S)
  case (Suc n)
  then obtain a where a: "a \<in> S" by fastforce
  obtain cs where cs: "length cs \<le> Suc n" "f = horner cs" using Suc.prems(1) by (auto simp: poly_fun_def)
  obtain g where g: "poly_fun (length cs - 1) g" "\<forall>x. horner cs x - horner cs a = g x * (x - a)"
    using poly_fun_divide by blast
  then have f: "f x = g x * (x - a)" for x using Suc.prems(4) a cs(2) by auto
  have "g x = 0"
  proof (rule Suc.IH)
    show "poly_fun n g" using g(1) cs(1) by (auto intro: poly_fun_mono)
    show "n \<le> card (S - {a})" using Suc.prems(2,3) a by (simp add: card_Diff_singleton)
    show "\<forall>s \<in> S - {a}. g s = 0" using Suc.prems(4) f by auto
  qed (use Suc.prems(2) in simp)
  with f show ?case by simp
qed (auto simp: poly_fun_def)

section \<open>Lagrange interpolation\<close>

text \<open>The Lagrange basis polynomial of \<open>y\<close> in \<open>S\<close>, at \<open>x\<close>.\<close>

definition lagrange_basis :: "'s :: field set \<Rightarrow> 's \<Rightarrow> 's \<Rightarrow> 's" where
  "lagrange_basis S y x = (\<Prod>z \<in> S - {y}. (x - z) / (y - z))"

lemma poly_fun_basis: "finite S \<Longrightarrow> y \<in> S \<Longrightarrow> poly_fun (card S) (lagrange_basis S y)"
proof -
  assume S: "finite S" "y \<in> S"
  have "poly_fun (Suc (card T)) (\<lambda>x. \<Prod>z\<in>T. (x - z) / (y - z))" if "finite T" for T
    using that
  proof (induction T rule: finite_induct)
    case (insert z T)
    have "poly_fun (Suc (Suc (card T))) (\<lambda>x. inverse (y - z) * ((\<Prod>z\<in>T. (x - z) / (y - z)) * (x - z)))"
      by (intro poly_fun_scale poly_fun_linear insert.IH)
    with insert.hyps show ?case by (simp add: divide_inverse ac_simps)
  qed (simp add: poly_fun_const)
  from this [of "S - {y}"] S show ?thesis
    using card_Suc_Diff1 [OF S] by (simp add: lagrange_basis_def [abs_def])
qed

lemma lagrange_basis_at:
  assumes "finite S" "y \<in> S" "s \<in> S"
  shows "lagrange_basis S y s = (if s = y then 1 else 0)"
proof (cases "s = y")
  case False
  then have "s \<in> S - {y}" using assms(3) by simp
  then show ?thesis using assms(1) False unfolding lagrange_basis_def by (subst prod_zero) auto
next
  case True
  have "(\<Prod>z \<in> S - {y}. (y - z) / (y - z)) = 1" by (rule prod.neutral) auto
  with True show ?thesis by (simp only: lagrange_basis_def if_True simp_thms)
qed

lemma lagrange_interpolation:
  assumes f: "poly_fun (card S) f" and S: "finite S"
  shows "(\<Sum>y\<in>S. lagrange_basis S y x * f y) = f x"
proof -
  let ?h = "\<lambda>x. (\<Sum>y\<in>S. f y * lagrange_basis S y x) + (- 1) * f x"
  have "poly_fun (card S) ?h"
    using assms by (intro poly_fun_add poly_fun_scale poly_fun_sum poly_fun_basis) auto
  moreover have "?h s = 0" if "s \<in> S" for s
    using S that by (simp add: lagrange_basis_at if_distrib sum.delta cong: if_cong)
  ultimately have "?h x = 0" using S by (intro poly_fun_roots [of "card S" ?h S]) auto
  then show ?thesis by (simp add: mult.commute)
qed

section \<open>The routines of the code\<close>

subsection \<open>Evaluation\<close>

lemma fold_rev_horner: "fold (\<lambda>c v. v * x + c) (rev cs) 0 = horner cs x"
  by (simp add: horner_def foldr_conv_fold)

lemma poly_eval_at_point_eq:
  "poly_coefficients p \<noteq> [] \<Longrightarrow> poly_eval_at_point p x = Inr (horner (poly_coefficients p) x)"
  by (auto simp: poly_eval_at_point_def poly_eval_at_zero_def fold_rev_horner neq_Nil_conv)

lemma poly_eval_at_zero_eq:
  "poly_coefficients p \<noteq> [] \<Longrightarrow> poly_eval_at_zero p = Inr (horner (poly_coefficients p) 0)"
  by (auto simp: poly_eval_at_zero_def neq_Nil_conv)

lemma horner_append_zeros: "\<forall>c \<in> set ds. c = 0 \<Longrightarrow> horner (cs @ ds) x = horner cs x"
proof (induction cs)
  case Nil
  then show ?case by (induction ds) auto
qed auto

lemma drop_zeros:
  fixes cs :: "'s :: field list"
  defines "k \<equiv> length cs - length (takeWhile (\<lambda>x. x = 0) (rev cs))"
  shows "\<forall>c \<in> set (drop k cs). c = 0" "take k cs = [] \<longleftrightarrow> (\<forall>c \<in> set cs. c = 0)"
    "take k cs \<noteq> [] \<Longrightarrow> last (take k cs) \<noteq> 0"
proof -
  let ?z = "takeWhile (\<lambda>x. x = 0) (rev cs)" and ?r = "dropWhile (\<lambda>x. x = 0) (rev cs)"
  have "cs = rev (?z @ ?r)" by simp
  then have split: "cs = rev ?r @ rev ?z" by (simp only: rev_append)
  then have len: "length cs = length ?r + length ?z" by (metis length_append length_rev)
  then have k: "k = length (rev ?r)" by (simp add: k_def)
  have t: "take k cs = rev ?r" "drop k cs = rev ?z"
    using split [symmetric] unfolding k append_eq_conv_conj by (metis, metis)
  show "\<forall>c \<in> set (drop k cs). c = 0" unfolding t using set_takeWhileD by fastforce
  show "take k cs = [] \<longleftrightarrow> (\<forall>c \<in> set cs. c = 0)" unfolding t by (simp add: dropWhile_eq_Nil_conv)
  show "take k cs \<noteq> [] \<Longrightarrow> last (take k cs) \<noteq> 0"
    unfolding t using hd_dropWhile [of "\<lambda>x. x = 0" "rev cs"] by (simp add: last_rev)
qed

lemma polynomial_new_Inr:
  assumes "polynomial_new cs = Inr p"
  shows "poly_coefficients p \<noteq> []" "last (poly_coefficients p) \<noteq> 0"
    "length (poly_coefficients p) \<le> length cs" "horner (poly_coefficients p) x = horner cs x"
proof -
  let ?k = "length cs - length (takeWhile (\<lambda>x. x = 0) (rev cs))"
  have p: "poly_coefficients p = take ?k cs" "take ?k cs \<noteq> []"
    using assms by (auto simp: polynomial_new_def Let_def split: if_splits)
  show "poly_coefficients p \<noteq> []" unfolding p(1) by (rule p(2))
  show "last (poly_coefficients p) \<noteq> 0" unfolding p(1) by (rule drop_zeros(3) [OF p(2)])
  show "length (poly_coefficients p) \<le> length cs" unfolding p(1) by simp
  show "horner (poly_coefficients p) x = horner cs x"
    using horner_append_zeros [OF drop_zeros(1) [of cs], of "take ?k cs" x] unfolding p(1) append_take_drop_id by (rule sym)
qed

lemma polynomial_new_Inl: "polynomial_new cs = Inl e \<longleftrightarrow> (\<forall>c \<in> set cs. c = 0) \<and> e = TsError EmptyOrZeroCoefficients"
  using drop_zeros(2) [of cs] by (auto simp: polynomial_new_def Let_def)

subsection \<open>Batch inversion\<close>

lemma fold_mult: "fold (\<lambda>v acc. acc * f v) vs (a :: 's :: field) = a * prod_list (map f vs)"
  by (induction vs arbitrary: a) (auto simp: ac_simps)

lemma prefix_products_snoc: "prefix_products a (vs @ [v]) = prefix_products a vs @ [a * prod_list vs * v]"
  by (induction vs arbitrary: a) (auto simp: ac_simps)

lemma rev_prefix_products:
  "vs \<noteq> [] \<Longrightarrow> rev (prefix_products 1 vs) = prod_list vs # rev (prefix_products 1 (butlast vs))"
  by (cases vs rule: rev_cases) (simp_all add: prefix_products_snoc)

lemma invert_back_spec:
  assumes "vs \<noteq> []" "0 \<notin> set vs"
  shows "invert_back (tl (rev (prefix_products 1 vs))) (rev (tl vs)) (inverse (prod_list vs)) acc = map inverse vs @ acc"
  using assms
proof (induction vs arbitrary: acc rule: rev_induct)
  case (snoc v vs)
  show ?case
  proof (cases "vs = []")
    case False
    have "prod_list vs \<noteq> 0" "v \<noteq> 0" using snoc.prems by (auto simp: prod_list_zero_iff)
    then have inv: "inverse (prod_list (vs @ [v])) * v = inverse (prod_list vs)"
      "prod_list vs * inverse (prod_list (vs @ [v])) = inverse v"
      by (simp_all add: field_simps)
    have "invert_back (tl (rev (prefix_products 1 (vs @ [v])))) (rev (tl (vs @ [v])))
        (inverse (prod_list (vs @ [v]))) acc
      = invert_back (prod_list vs # rev (prefix_products 1 (butlast vs))) (v # rev (tl vs))
        (inverse (prod_list (vs @ [v]))) acc"
      by (simp only: prefix_products_snoc rev_append rev.simps list.sel append.simps
        rev_prefix_products [OF False] tl_append2 [OF False])
    also have "\<dots> = invert_back (tl (rev (prefix_products 1 vs))) (rev (tl vs)) (inverse (prod_list vs)) (inverse v # acc)"
      by (simp only: invert_back.simps inv rev_prefix_products [OF False] list.sel)
    finally show ?thesis using snoc False by simp
  qed simp
qed simp

lemma batch_invert_eq:
  "vs \<noteq> [] \<Longrightarrow> 0 \<notin> set vs \<Longrightarrow> batch_invert vs = Inr (map inverse vs)"
  using fold_mult [of "\<lambda>x. x" vs 1] invert_back_spec [of vs "[]"]
  by (simp add: batch_invert_def Let_def field_invert_def prod_list_zero_iff)

lemma batch_invert_zero: "0 \<in> set vs \<Longrightarrow> batch_invert vs = Inl (TsError InvalidInterpolationArguments)"
  using fold_mult [of "\<lambda>x. x" vs 1]
  by (cases vs) (auto simp: batch_invert_def Let_def field_invert_def prod_list_zero_iff)

subsection \<open>Lagrange coefficients\<close>

lemma lagrange_loop_eq:
  assumes "distinct pts"
  shows "lagrange_loop nf df x_i pts =
    (\<Prod>z \<in> set pts - {x_i}. nf z, \<Prod>z \<in> set pts - {x_i}. df z, x_i \<in> set pts)"
proof -
  let ?f = "\<lambda>x_j (num, den, contains_i).
    if x_i = x_j then (num, den, True) else (num * nf x_j, den * df x_j, contains_i)"
  have "fold ?f pts (a, b, c) =
      (a * (\<Prod>z \<in> set pts - {x_i}. nf z), b * (\<Prod>z \<in> set pts - {x_i}. df z), c \<or> x_i \<in> set pts)" for a b c
    using assms
  proof (induction pts arbitrary: a b c)
    case (Cons p pts)
    then show ?case by (cases "x_i = p") (auto simp: insert_Diff_if ac_simps)
  qed simp
  from this [of 1 1 False] show ?thesis by (simp add: lagrange_loop_def)
qed

lemma prod_minus_swap:
  fixes f g :: "'a \<Rightarrow> 's :: field"
  shows "(\<Prod>z\<in>S. (0 - f z) / (g z)) = (\<Prod>z\<in>S. f z / (- g z))"
  by (simp add: divide_inverse)

lemma compute_lagrange_coefficient_eq:
  assumes "distinct pts" "2 \<le> length pts" "y \<in> set pts"
  shows "compute_lagrange_coefficient pts y x = Inr (lagrange_basis (set pts) y (case x of Some x \<Rightarrow> x | None \<Rightarrow> 0))"
proof -
  have nz: "(\<Prod>z \<in> set pts - {y}. y - z) \<noteq> 0" "(\<Prod>z \<in> set pts - {y}. z - y) \<noteq> 0"
    by (auto simp: prod_zero_iff)
  show ?thesis
  proof (cases x)
    case None
    have "lagrange_basis (set pts) y 0 = (\<Prod>z \<in> set pts - {y}. z / (z - y))"
      using prod_minus_swap [of "\<lambda>z. z" "\<lambda>z. y - z"] by (simp add: lagrange_basis_def)
    also have "\<dots> = (\<Prod>z \<in> set pts - {y}. z) * inverse (\<Prod>z \<in> set pts - {y}. z - y)"
      by (simp only: prod_dividef) (simp only: divide_inverse)
    finally show ?thesis
      using assms nz None by (simp add: compute_lagrange_coefficient_def lagrange_loop_eq field_invert_def)
  next
    case (Some a)
    have "lagrange_basis (set pts) y a = (\<Prod>z \<in> set pts - {y}. a - z) * inverse (\<Prod>z \<in> set pts - {y}. y - z)"
      unfolding lagrange_basis_def by (simp only: prod_dividef) (simp only: divide_inverse)
    then show ?thesis
      using assms nz Some by (simp add: compute_lagrange_coefficient_def lagrange_loop_eq field_invert_def)
  qed
qed

lemma kronecker_index_found:
  "x \<notin> set pts \<Longrightarrow> i + length pts \<le> 2 ^ 32 \<Longrightarrow> kronecker_index i pts x found = Inr found"
  by (induction pts arbitrary: i) auto

lemma kronecker_index_at:
  assumes "distinct pts" "i + length pts \<le> 2 ^ 32" "k < length pts"
  shows "kronecker_index i pts (pts ! k) found = Inr (Some (i + k))"
  using assms
proof (induction pts arbitrary: i k found)
  case (Cons p pts)
  show ?case
  proof (cases k)
    case 0
    with Cons.prems show ?thesis by (simp add: kronecker_index_found)
  next
    case (Suc m)
    with Cons.prems have "p \<noteq> pts ! m" by auto
    with Suc Cons.prems Cons.IH [of "Suc i" m found] show ?thesis by simp
  qed
qed simp

lemma lagrange_denominator_eq:
  assumes "distinct pts" "i < length pts"
  shows "lagrange_denominator pts i = (\<Prod>z \<in> set pts - {pts ! i}. pts ! i - z)"
proof -
  have f: "fold (\<lambda>j den. if i = j then den else den * g j) js a = a * (\<Prod>j \<in> set js - {i}. g j)"
    if "distinct js" for js a and g :: "nat \<Rightarrow> 'a"
    using that by (induction js arbitrary: a) (auto simp: insert_Diff_if ac_simps)
  have "bij_betw ((!) pts) ({0..<length pts} - {i}) (set pts - {pts ! i})"
    using assms by (auto simp: bij_betw_def inj_on_def nth_eq_iff_index_eq set_conv_nth)
  then have "(\<Prod>j \<in> {0..<length pts} - {i}. pts ! i - pts ! j) = (\<Prod>z \<in> set pts - {pts ! i}. pts ! i - z)"
    by (rule prod.reindex_bij_betw)
  then show ?thesis using f [of "[0..<length pts]"] by (simp add: lagrange_denominator_def)
qed

lemma batch_numerator_eq:
  assumes "pts \<noteq> []" "x \<notin> set pts"
  shows "\<exists>n. batch_numerator pts x = Inr (n, map (\<lambda>y. inverse (if x = 0 then y else x - y)) pts) \<and>
    (\<forall>y \<in> set pts. n * inverse (if x = 0 then y else x - y) = prod_list (map (\<lambda>z. x - z) pts) / (x - y))"
proof (cases "x = 0")
  case True
  have "prod_list (map (\<lambda>z. - z) ps) = (if length ps mod 2 = 0 then prod_list ps else - prod_list ps)"
    for ps :: "'a list"
    by (induction ps) (auto simp: mod_Suc)
  moreover have "batch_invert pts = Inr (map inverse pts)"
    using assms True by (intro batch_invert_eq) auto
  ultimately show ?thesis
    using True assms fold_mult [of "\<lambda>x. x" pts 1]
    by (auto simp: batch_numerator_def Let_def divide_inverse)
next
  case False
  have "batch_invert (map ((-) x) pts) = Inr (map inverse (map ((-) x) pts))"
    using assms by (intro batch_invert_eq) auto
  then show ?thesis
    using False fold_mult [of "(-) x" pts 1] by (simp add: batch_numerator_def divide_inverse)
qed

definition point_or_zero :: "'s :: field option \<Rightarrow> 's" where
  "point_or_zero x = (case x of Some x \<Rightarrow> x | None \<Rightarrow> 0)"

lemma batch_off_points:
  assumes d: "distinct pts" and n: "2 \<le> length pts" and x: "x \<notin> set pts"
  shows "bind_res (batch_invert (map (lagrange_denominator pts) [0..<length pts])) (\<lambda>inv_denominators.
      bind_res (batch_numerator pts x) (\<lambda>(numerator_prod, inv_factors).
      Inr (map (\<lambda>(f, d). numerator_prod * f * d) (zip inv_factors inv_denominators))))
    = Inr (map (\<lambda>y. lagrange_basis (set pts) y x) pts)"
proof -
  let ?den = "\<lambda>y. \<Prod>z \<in> set pts - {y}. y - z"
  have "map (lagrange_denominator pts) [0..<length pts] = map ?den pts"
    using lagrange_denominator_eq [OF d] by (intro nth_equalityI) auto
  moreover have "batch_invert (map ?den pts) = Inr (map inverse (map ?den pts))"
    using n by (intro batch_invert_eq) (auto simp: prod_zero_iff)
  moreover obtain num where num:
      "batch_numerator pts x = Inr (num, map (\<lambda>y. inverse (if x = 0 then y else x - y)) pts)"
      "\<forall>y \<in> set pts. num * inverse (if x = 0 then y else x - y) = prod_list (map (\<lambda>z. x - z) pts) / (x - y)"
    using batch_numerator_eq [OF _ x] n by fastforce
  moreover have "num * inverse (if x = 0 then y else x - y) * inverse (?den y) = lagrange_basis (set pts) y x"
    if y: "y \<in> set pts" for y
  proof -
    have "x - y \<noteq> 0" using x y by auto
    have "prod_list (map (\<lambda>z. x - z) pts) = (x - y) * (\<Prod>z \<in> set pts - {y}. x - z)"
      using prod.distinct_set_conv_list [OF d, of "\<lambda>z. x - z"] prod.remove [OF _ y, of "\<lambda>z. x - z"] by simp
    then have "prod_list (map (\<lambda>z. x - z) pts) / (x - y) = (\<Prod>z \<in> set pts - {y}. x - z)"
      using \<open>x - y \<noteq> 0\<close> by simp
    then show ?thesis
      using num(2) y by (simp add: lagrange_basis_def prod_dividef) (simp add: divide_inverse)
  qed
  ultimately show ?thesis by (simp add: zip_map_map zip_same_conv_map)
qed

lemma batch_lagrange_eq:
  assumes d: "distinct pts" and n: "2 \<le> length pts" "length pts \<le> 2 ^ 32"
  shows "batch_compute_lagrange_coefficients pts x =
    Inr (map (\<lambda>y. lagrange_basis (set pts) y (point_or_zero x)) pts)"
proof (cases "point_or_zero x \<in> set pts")
  case True
  then obtain k where k: "k < length pts" "pts ! k = point_or_zero x" by (metis in_set_conv_nth)
  have "(replicate (length pts) 0)[k := 1] = map (\<lambda>y. lagrange_basis (set pts) y (pts ! k)) pts"
    using k(1) d by (intro nth_equalityI)
      (auto simp: nth_list_update lagrange_basis_at nth_eq_iff_index_eq)
  then show ?thesis
    using kronecker_index_at [OF d, of 0 k None] n k
    by (simp add: batch_compute_lagrange_coefficients_def point_or_zero_def Let_def)
next
  case False
  then show ?thesis
    using kronecker_index_found [OF False, of 0 None] batch_off_points [OF d n(1) False] n
    by (simp add: batch_compute_lagrange_coefficients_def point_or_zero_def Let_def)
qed

text \<open>
  C33. The batch computation of Lagrange coefficients is the one by one computation. For two or more
  distinct points, at most \<open>2 ^ 32\<close> of them, and any evaluation point (none stands for zero),
  \<^verbatim>\<open>batch_compute_lagrange_coefficients\<close> succeeds, whether or not the evaluation point is one of the
  points, and returns in order exactly what \<^verbatim>\<open>compute_lagrange_coefficient\<close> returns for each point,
  which is the product formula of the Lagrange basis.
\<close>

theorem batch_lagrange_agrees:
  assumes "distinct pts" "2 \<le> length pts" "length pts \<le> 2 ^ 32"
  shows "\<exists>ls. batch_compute_lagrange_coefficients pts x = Inr ls \<and>
    map (\<lambda>y. compute_lagrange_coefficient pts y x) pts = map Inr ls \<and>
    ls = map (\<lambda>y. \<Prod>z \<in> set pts - {y}. (point_or_zero x - z) / (y - z)) pts"
  using batch_lagrange_eq [OF assms, of x] compute_lagrange_coefficient_eq [OF assms(1,2), of _ x]
  by (auto simp: lagrange_basis_def point_or_zero_def)

theorem batch_lagrange_agrees_witness:
  "batch_compute_lagrange_coefficients [1, 2, 4] (Some 3) = Inr [- 1 / 3, 1, 1 / 3 :: rat] \<and>
   compute_lagrange_coefficient [1, 2, 4] 1 (Some 3) = Inr (- 1 / 3 :: rat)"
  using batch_lagrange_agrees [of "[1, 2, 4 :: rat]" "Some 3"] by (simp add: point_or_zero_def insert_Diff_if)

subsection \<open>Interpolation\<close>

lemma fold_zip_sum: "fold (\<lambda>(l, s) acc. acc + f l s) (zip ls ss) (a :: 'm :: comm_monoid_add) =
    a + sum_list (map (\<lambda>(l, s). f l s) (zip ls ss))"
  by (induction ls ss arbitrary: a rule: list_induct2') (auto simp: ac_simps)

lemma weighted_sum:
  "distinct pts \<Longrightarrow> sum_list (map (\<lambda>(l, s). f l s) (zip (map g pts) (map h pts))) =
    (\<Sum>y \<in> set pts. (f (g y) (h y) :: 'm :: comm_monoid_add))"
  by (simp add: zip_map_map zip_same_conv_map sum.distinct_set_conv_list comp_def)

lemma eval_interpolation_eq:
  assumes "distinct ids" "2 \<le> length ids" "length ids \<le> 2 ^ 32" "length cs \<le> length ids"
  shows "eval_interpolation ids (map (horner cs) ids) x = Inr (horner cs (point_or_zero x))"
proof -
  have "poly_fun (card (set ids)) (horner cs)"
    using assms by (intro poly_fun_horner) (simp add: distinct_card)
  from lagrange_interpolation [OF this, of "point_or_zero x"] show ?thesis
    using assms by (simp add: eval_interpolation_def batch_lagrange_eq fold_zip_sum weighted_sum)
qed

text \<open>Polynomials with coefficients in the group, and interpolation in the exponent.\<close>

definition ghorner :: "('s, 'g :: ab_group_add, 'm) ciphersuite_scheme \<Rightarrow> 'g list \<Rightarrow> 's \<Rightarrow> 'g" where
  "ghorner cs as x = foldr (\<lambda>c v. cs_mul cs v x + c) as 0"

lemma ghorner_simps [simp]: "ghorner cs [] x = 0" "ghorner cs (a # as) x = cs_mul cs (ghorner cs as x) x + a"
  by (simp_all add: ghorner_def)

lemma ghorner_sum: "suite_laws cs \<Longrightarrow> ghorner cs as x = (\<Sum>k<length as. cs_mul cs (as ! k) (x ^ k))"
proof (induction as)
  case (Cons a as)
  have "(\<Sum>k<length (a # as). cs_mul cs ((a # as) ! k) (x ^ k)) = a + (\<Sum>k<length as. cs_mul cs (as ! k) (x ^ Suc k))"
    by (simp add: sum.lessThan_Suc_shift suite_mul [OF Cons.prems] del: sum.lessThan_Suc)
  also have "\<dots> = a + cs_mul cs (\<Sum>k<length as. cs_mul cs (as ! k) (x ^ k)) x"
    by (simp add: suite_mul_sum [OF Cons.prems] suite_mul [OF Cons.prems] mult.commute)
  finally show ?case using Cons by simp
qed simp

lemma ghorner_interpolation:
  assumes s: "suite_laws cs" and S: "finite S" and n: "length as \<le> card S"
  shows "(\<Sum>y\<in>S. cs_mul cs (ghorner cs as y) (lagrange_basis S y x)) = ghorner cs as x"
proof -
  have p: "(\<Sum>y\<in>S. lagrange_basis S y x * y ^ k) = x ^ k" if "k < length as" for k
  proof -
    have "horner (replicate k 0 @ [1]) y = y ^ k" for y :: 'a by (induction k) auto
    moreover have "length (replicate k 0 @ [1 :: 'a]) \<le> card S" using that n by simp
    ultimately show ?thesis
      using lagrange_interpolation [OF poly_fun_horner S, of "replicate k 0 @ [1]" x] by simp
  qed
  have "(\<Sum>y\<in>S. cs_mul cs (ghorner cs as y) (lagrange_basis S y x)) =
      (\<Sum>y\<in>S. \<Sum>k<length as. cs_mul cs (as ! k) (lagrange_basis S y x * y ^ k))"
    by (simp add: ghorner_sum [OF s] suite_mul_sum [OF s] suite_mul [OF s] mult.commute)
  also have "\<dots> = (\<Sum>k<length as. cs_mul cs (as ! k) (\<Sum>y\<in>S. lagrange_basis S y x * y ^ k))"
    by (subst sum.swap) (simp add: suite_mul_sum [OF s])
  also have "\<dots> = (\<Sum>k<length as. cs_mul cs (as ! k) (x ^ k))" using p by simp
  finally show ?thesis by (simp add: ghorner_sum [OF s])
qed

lemma eval_exponent_interpolation_eq:
  assumes "suite_laws cs" "distinct ids" "2 \<le> length ids" "length ids \<le> 2 ^ 32" "length as \<le> length ids"
  shows "eval_exponent_interpolation cs ids (map (ghorner cs as) ids) x = Inr (ghorner cs as (point_or_zero x))"
  using assms ghorner_interpolation [OF assms(1), of "set ids" as "point_or_zero x"]
  by (simp add: eval_exponent_interpolation_def batch_lagrange_eq fold_zip_sum weighted_sum [of ids "\<lambda>l s. cs_mul cs s l"]
    distinct_card)

lemma commitment_eval_at_point_eq:
  "pc_coefficients c \<noteq> [] \<Longrightarrow> commitment_eval_at_point cs c x = Inr (ghorner cs (pc_coefficients c) x)"
  by (simp add: commitment_eval_at_point_def ghorner_def foldr_conv_fold)

lemma ghorner_generator:
  "suite_laws cs \<Longrightarrow> ghorner cs (map (cs_mul cs (cs_generator cs)) as) x = cs_mul cs (cs_generator cs) (horner as x)"
  by (induction as) (auto simp: suite_mul)

subsection \<open>Commitments\<close>

lemma rposition_last: "xs \<noteq> [] \<Longrightarrow> P (last xs) \<Longrightarrow> rposition P xs = Some (length xs - 1)"
proof (induction xs)
  case (Cons x xs)
  then show ?case by (cases "xs = []") auto
qed simp

lemma commitment_new_last:
  "as \<noteq> [] \<Longrightarrow> last as \<noteq> 0 \<Longrightarrow> commitment_new as = Inr \<lparr>pc_coefficients = as\<rparr>"
  by (simp add: commitment_new_def rposition_last)

lemma commit_polynomial_eq:
  assumes "suite_laws cs" "poly_coefficients p \<noteq> []" "last (poly_coefficients p) \<noteq> 0"
  shows "commit_polynomial cs p = Inr \<lparr>pc_coefficients = map (cs_mul cs (cs_generator cs)) (poly_coefficients p)\<rparr>"
proof -
  have "cs_mul cs (cs_generator cs) (last (poly_coefficients p)) \<noteq> 0"
    using generator_mul_inj [OF assms(1), of "last (poly_coefficients p)" 0] assms(1,3) by (simp add: suite_mul)
  then show ?thesis using assms(2) by (simp add: commit_polynomial_def commitment_new_last last_map)
qed

text \<open>
  C34. Interpolation undoes evaluation, for scalars and in the exponent. For a polynomial built by
  \<^verbatim>\<open>Polynomial::new\<close> from at most as many coefficients as there are identifiers, which are distinct,
  at least two and at most \<open>2 ^ 32\<close>: interpolating its values at the identifiers gives its value at
  any point (none stands for zero), that is the sum of the coefficients times the powers of the point;
  and interpolating the values times the generator gives what the commitment of the polynomial
  evaluates to there, which is the value times the generator. None of these computations fails.
\<close>

theorem interpolation_evaluates:
  assumes "suite_laws cs" "polynomial_new coefficients = Inr p" "length coefficients \<le> length ids"
    and "distinct ids" "2 \<le> length ids" "length ids \<le> 2 ^ 32"
    and "map (poly_eval_at_point p) ids = map Inr shares"
  shows "\<exists>c v. commit_polynomial cs p = Inr c \<and>
    v = (\<Sum>k<length coefficients. coefficients ! k * point_or_zero x ^ k) \<and>
    poly_eval_at_point p (point_or_zero x) = Inr v \<and> eval_interpolation ids shares x = Inr v \<and>
    commitment_eval_at_point cs c (point_or_zero x) = Inr (cs_mul cs (cs_generator cs) v) \<and>
    eval_exponent_interpolation cs ids (map (cs_mul cs (cs_generator cs)) shares) x =
      Inr (cs_mul cs (cs_generator cs) v)"
proof -
  let ?as = "poly_coefficients p" and ?G = "cs_mul cs (cs_generator cs)"
  note p = polynomial_new_Inr [OF assms(2)]
  have shares: "shares = map (horner ?as) ids"
  proof -
    have "map Inr (map (horner ?as) ids) = (map Inr shares :: 'a ts_res list)"
      unfolding assms(7) [symmetric] by (simp add: poly_eval_at_point_eq p(1))
    then show ?thesis by (simp only: inj_map_eq_map [OF inj_Inr])
  qed
  have len: "length ?as \<le> length ids" using p(3) assms(3) by simp
  have e: "eval_exponent_interpolation cs ids (map ?G shares) x = Inr (?G (horner ?as (point_or_zero x)))"
  proof -
    have "ghorner cs (map ?G ?as) = (\<lambda>x. ?G (horner ?as x))"
      by (simp add: fun_eq_iff ghorner_generator [OF assms(1)])
    then show ?thesis
      using eval_exponent_interpolation_eq [OF assms(1,4-6), of "map ?G ?as" x] len by (simp add: shares comp_def)
  qed
  show ?thesis
    using e commit_polynomial_eq [OF assms(1) p(1,2)] eval_interpolation_eq [OF assms(4-6) len, of x] p(1)
    by (auto simp: shares poly_eval_at_point_eq p(4) horner_sum [of coefficients] commitment_eval_at_point_eq
      ghorner_generator [OF assms(1)])
qed

theorem interpolation_evaluates_witness:
  "eval_interpolation [1, 2, 4] [6, 11, 27 :: rat] None = Inr 3 \<and>
   eval_exponent_interpolation rat_suite [1, 2, 4] [6, 11, 27] None = Inr 3"
  using interpolation_evaluates [OF rat_suite_laws, of "[3, 2, 1]" "\<lparr>poly_coefficients = [3, 2, 1]\<rparr>" "[1, 2, 4]"
    "[6, 11, 27]" None]
  by (auto simp: polynomial_new_def poly_eval_at_point_def point_or_zero_def numeral_3_eq_3)

end
