(* ===== verification/ParticipantLists.thy ===== *)
theory ParticipantLists
  imports Polynomials
begin

text \<open>
  The participants of one run of a protocol: sorted lists with their positions, maps with one entry per
  participant, counters of participants, and the gathering of one message from each participant
  (\<^verbatim>\<open>crates/threshold-signatures/src/participants.rs\<close>, \<^verbatim>\<open>protocol/helpers.rs\<close>). Maps and counters share a
  contract, the first entry of a participant counts and every later one is dropped, which is a locale
  with both as instances.
\<close>

section \<open>Participant lists\<close>

record participant_list =
  pl_participants :: "nat list"
  pl_indices :: "(nat, nat) amap"

definition participant_list_new :: "nat list \<Rightarrow> participant_list option" where
  "participant_list_new participants =
     (let participants = sort participants;
          indices = fold (\<lambda>(p, x) m. am_insert x p m) (List.enumerate 0 participants) []
      in if length indices < length participants then None
         else Some \<lparr>pl_participants = participants, pl_indices = indices\<rparr>)"

definition pl_len :: "participant_list \<Rightarrow> nat" where
  "pl_len self = length (pl_participants self)"

definition pl_contains :: "participant_list \<Rightarrow> nat \<Rightarrow> bool" where
  "pl_contains self p \<longleftrightarrow> map_of (pl_indices self) p \<noteq> None"

definition pl_others :: "participant_list \<Rightarrow> nat \<Rightarrow> nat list" where
  "pl_others self me = filter (\<lambda>x. x \<noteq> me) (pl_participants self)"

definition pl_index :: "participant_list \<Rightarrow> nat \<Rightarrow> nat ts_res" where
  "pl_index self p = ok_or (map_of (pl_indices self) p) (TsError InvalidIndex)"

definition pl_get_participant :: "participant_list \<Rightarrow> nat \<Rightarrow> nat option" where
  "pl_get_participant self i = (if i < length (pl_participants self) then Some (pl_participants self ! i) else None)"

fun participant_scalars :: "('s, 'g, 'm) ciphersuite_scheme \<Rightarrow> nat list \<Rightarrow> 's list ts_res" where
  "participant_scalars cs [] = Inr []"
| "participant_scalars cs (p # ps) =
     bind_res (participant_scalar cs p) (\<lambda>x. bind_res (participant_scalars cs ps) (\<lambda>xs. Inr (x # xs)))"

definition pl_lagrange :: "('s :: field, 'g, 'm) ciphersuite_scheme \<Rightarrow> participant_list \<Rightarrow> nat \<Rightarrow> 's ts_res" where
  "pl_lagrange cs self p =
     bind_res (participant_scalar cs p) (\<lambda>p.
     bind_res (participant_scalars cs (pl_participants self)) (\<lambda>identifiers.
     compute_lagrange_coefficient identifiers p None))"

definition pl_intersection :: "participant_list \<Rightarrow> participant_list \<Rightarrow> participant_list ts_res" where
  "pl_intersection self others =
     ok_or (participant_list_new (filter (pl_contains others) (pl_participants self))) TsPanic"

section \<open>One entry per participant\<close>

record 'a participant_map =
  pm_participants :: participant_list
  pm_data :: "'a option list"
  pm_count :: nat

definition participant_map_new :: "participant_list \<Rightarrow> 'a participant_map" where
  "participant_map_new participants = \<lparr>pm_participants = participants,
     pm_data = replicate (length (pl_participants participants)) None, pm_count = 0\<rparr>"

definition pm_full :: "'a participant_map \<Rightarrow> bool" where
  "pm_full self \<longleftrightarrow> pm_count self = length (pm_data self)"

definition pm_put :: "nat \<Rightarrow> 'a \<Rightarrow> 'a participant_map \<Rightarrow> 'a participant_map" where
  "pm_put participant data self = (case map_of (pl_indices (pm_participants self)) participant of
     Some i \<Rightarrow> if i < length (pm_data self) \<and> pm_data self ! i = None
       then self\<lparr>pm_data := (pm_data self)[i := Some data], pm_count := pm_count self + 1\<rparr>
       else self
   | None \<Rightarrow> self)"

text \<open>\<^verbatim>\<open>into_vec_or_none\<close> and \<^verbatim>\<open>to_refs_or_none\<close>: all entries, if none is missing.\<close>

definition pm_vec_or_none :: "'a participant_map \<Rightarrow> 'a list option" where
  "pm_vec_or_none self = those (pm_data self)"

definition pm_index :: "'a participant_map \<Rightarrow> nat \<Rightarrow> 'a ts_res" where
  "pm_index self p =
     bind_res (pl_index (pm_participants self) p) (\<lambda>i.
     bind_res (ok_or (if i < length (pm_data self) then Some (pm_data self ! i) else None) (TsError InvalidIndex)) (\<lambda>d.
     ok_or d (TsError OtherError)))"

record participant_counter =
  pco_participants :: participant_list
  pco_seen :: "bool list"
  pco_counter :: nat

definition participant_counter_new :: "participant_list \<Rightarrow> participant_counter" where
  "participant_counter_new participants = \<lparr>pco_participants = participants,
     pco_seen = replicate (pl_len participants) False, pco_counter = pl_len participants\<rparr>"

definition pco_put :: "nat \<Rightarrow> participant_counter \<Rightarrow> participant_counter \<times> bool" where
  "pco_put participant self = (case map_of (pl_indices (pco_participants self)) participant of
     None \<Rightarrow> (self, False)
   | Some i \<Rightarrow> if i < length (pco_seen self) then
         let inserted = \<not> pco_seen self ! i; self = self\<lparr>pco_seen := (pco_seen self)[i := True]\<rparr>
         in (if inserted then self\<lparr>pco_counter := pco_counter self - 1\<rparr> else self, inserted)
       else (self, False))"

definition pco_full :: "participant_counter \<Rightarrow> bool" where
  "pco_full self \<longleftrightarrow> pco_counter self = 0"

section \<open>Gathering messages\<close>

text \<open>
  \<^verbatim>\<open>recv_from_others\<close> on the messages that arrive at a waitpoint: \<open>None\<close> stands for waiting for more of
  them, an error of the channel ends the gathering.
\<close>

fun recv_loop :: "participant_counter \<Rightarrow> (nat \<times> 'm) list \<Rightarrow> (nat \<times> 'm) ts_res list \<Rightarrow> (nat \<times> 'm) list ts_res option" where
  "recv_loop seen messages inbox =
     (if pco_full seen then Some (Inr messages)
      else case inbox of
        [] \<Rightarrow> None
      | Inl e # _ \<Rightarrow> Some (Inl e)
      | Inr (from, msg) # inbox \<Rightarrow>
          (case pco_put from seen of (seen, inserted) \<Rightarrow>
             recv_loop seen (if inserted then messages @ [(from, msg)] else messages) inbox))"

declare recv_loop.simps [simp del]

definition recv_from_others ::
    "participant_list \<Rightarrow> nat \<Rightarrow> (nat \<times> 'm) ts_res list \<Rightarrow> (nat \<times> 'm) list ts_res option" where
  "recv_from_others participants me inbox = recv_loop (fst (pco_put me (participant_counter_new participants))) [] inbox"

section \<open>Positions\<close>

definition wf_plist :: "participant_list \<Rightarrow> bool" where
  "wf_plist pl \<longleftrightarrow> sorted (pl_participants pl) \<and> distinct (pl_participants pl) \<and>
     (\<forall>p i. map_of (pl_indices pl) p = Some i \<longleftrightarrow> i < length (pl_participants pl) \<and> pl_participants pl ! i = p)"

lemma index_fold:
  "map_of (fold (\<lambda>(p, x) m. am_insert x p m) (List.enumerate k xs) m) q =
     (case rposition (\<lambda>x. x = q) xs of Some i \<Rightarrow> Some (k + i) | None \<Rightarrow> map_of m q)"
proof (induction xs arbitrary: k m)
  case (Cons x xs)
  then show ?case by (auto split: option.splits)
qed simp

lemma keys_index_fold:
  "set (map fst (fold (\<lambda>(p, x) m. am_insert x p m) (List.enumerate k xs) m)) = set (map fst m) \<union> set xs"
  "wf_amap m \<Longrightarrow> wf_amap (fold (\<lambda>(p, x) m. am_insert x p m) (List.enumerate k xs) m)"
  by (induction xs arbitrary: k m) auto

lemma rposition_distinct:
  "distinct xs \<Longrightarrow> rposition (\<lambda>x. x = q) xs = Some i \<longleftrightarrow> i < length xs \<and> xs ! i = q"
proof
  assume "distinct xs" "i < length xs \<and> xs ! i = q"
  then show "rposition (\<lambda>x. x = q) xs = Some i"
    using rposition_None [of "\<lambda>x. x = q" xs] rposition_Some [of "\<lambda>x. x = q" xs]
    by (cases "rposition (\<lambda>x. x = q) xs") (auto simp: nth_eq_iff_index_eq)
qed (use rposition_Some in fastforce)

lemma index_fold_distinct:
  assumes "distinct xs"
  shows "map_of (fold (\<lambda>(p, x) m. am_insert x p m) (List.enumerate 0 xs) []) q = Some i \<longleftrightarrow> i < length xs \<and> xs ! i = q"
  unfolding rposition_distinct [OF assms, symmetric] index_fold by (auto split: option.splits)

lemma participant_list_new_Some:
  "participant_list_new ps = Some pl \<longleftrightarrow> distinct ps \<and> pl_participants pl = sort ps \<and> wf_plist pl \<and>
     pl_indices pl = fold (\<lambda>(p, x) m. am_insert x p m) (List.enumerate 0 (sort ps)) []"
proof -
  let ?ix = "fold (\<lambda>(p, x) m. am_insert x p m) (List.enumerate 0 (sort ps)) []"
  have "length ?ix = card (set (map fst ?ix))"
    using keys_index_fold(2) [of "[]" 0 "sort ps"] by (metis distinct.simps(1) distinct_card length_map list.simps(8))
  also have "\<dots> = card (set ps)" using keys_index_fold(1) [of 0 "sort ps" "[]"] by simp
  finally have l: "length ?ix < length ps \<longleftrightarrow> \<not> distinct ps"
    using card_length [of ps] card_eq_length_iff [of ps] by linarith
  have "wf_plist pl" if "distinct ps" "pl_participants pl = sort ps" "pl_indices pl = ?ix"
    using that index_fold_distinct [of "sort ps"] by (simp add: wf_plist_def)
  then show ?thesis by (cases pl) (auto simp: participant_list_new_def Let_def l)
qed

lemma participant_list_new_wf: "participant_list_new ps = Some pl \<Longrightarrow> wf_plist pl"
  by (simp add: participant_list_new_Some)

lemma participant_list_new_ex:
  assumes "distinct ps"
  shows "\<exists>pl. participant_list_new ps = Some pl \<and> pl_participants pl = sort ps \<and> wf_plist pl"
proof (cases "participant_list_new ps")
  case None
  then show ?thesis
    using assms participant_list_new_Some [of ps "\<lparr>pl_participants = sort ps,
      pl_indices = fold (\<lambda>(p, x) m. am_insert x p m) (List.enumerate 0 (sort ps)) []\<rparr>"]
    by (simp add: wf_plist_def index_fold_distinct)
qed (auto simp: participant_list_new_Some)

lemma wf_plist_lookup:
  assumes "wf_plist pl"
  shows "pl_contains pl p \<longleftrightarrow> p \<in> set (pl_participants pl)"
    "pl_index pl p = Inr i \<longleftrightarrow> i < length (pl_participants pl) \<and> pl_participants pl ! i = p"
    "pl_get_participant pl i = Some p \<longleftrightarrow> pl_index pl p = Inr i"
  using assms by (auto simp: pl_contains_def pl_index_def pl_get_participant_def wf_plist_def in_set_conv_nth)

lemma pl_intersection_Inr:
  assumes "wf_plist a" "wf_plist b"
  shows "\<exists>c. pl_intersection a b = Inr c \<and> wf_plist c \<and>
    pl_participants c = filter (\<lambda>p. p \<in> set (pl_participants b)) (pl_participants a)"
proof -
  let ?ps = "filter (pl_contains b) (pl_participants a)"
  have "distinct ?ps" "sort ?ps = ?ps"
    using assms(1) by (auto simp: wf_plist_def intro: sorted_sort_id sorted_wrt_filter)
  then show ?thesis
    using participant_list_new_ex [of ?ps] wf_plist_lookup(1) [OF assms(2)] by (auto simp: pl_intersection_def intro!: filter_cong)
qed

section \<open>The contract of maps and counters\<close>

text \<open>
  A tally takes entries for participants: it knows which participants may enter (\<open>universe\<close>) and which
  have (\<open>members\<close>), an entry adds its participant if that is one of the universe, and the tally is full
  exactly when everybody has entered.
\<close>

locale participant_tally =
  fixes inv :: "'s \<Rightarrow> bool" and universe :: "'s \<Rightarrow> nat set" and members :: "'s \<Rightarrow> nat set"
    and key :: "'x \<Rightarrow> nat" and enter :: "'x \<Rightarrow> 's \<Rightarrow> 's" and full :: "'s \<Rightarrow> bool"
  assumes inv_enter: "inv s \<Longrightarrow> inv (enter x s)"
    and universe_enter: "inv s \<Longrightarrow> universe (enter x s) = universe s"
    and members_enter: "inv s \<Longrightarrow> members (enter x s) = members s \<union> ({key x} \<inter> universe s)"
    and members_sub: "inv s \<Longrightarrow> members s \<subseteq> universe s"
    and full_iff: "inv s \<Longrightarrow> full s \<longleftrightarrow> members s = universe s"
begin

lemma inv_fold: "inv s \<Longrightarrow> inv (fold enter xs s)"
  by (induction xs arbitrary: s) (auto simp: inv_enter)

lemma members_fold:
  "inv s \<Longrightarrow> universe (fold enter xs s) = universe s \<and>
     members (fold enter xs s) = members s \<union> (key ` set xs \<inter> universe s)"
  by (induction xs arbitrary: s) (auto simp: inv_enter universe_enter members_enter)

lemma full_fold: "inv s \<Longrightarrow> full (fold enter xs s) \<longleftrightarrow> universe s \<subseteq> members s \<union> key ` set xs"
  using full_iff [OF inv_fold, of s xs] members_fold [of s xs] members_sub [of s] by auto

end

lemma length_filter_update:
  assumes "i < length xs" "P (xs ! i)" "\<not> P y"
  shows "length (filter P (xs[i := y])) = length (filter P xs) - 1" "0 < length (filter P xs)"
proof -
  let ?A = "{j. j < length xs \<and> P (xs ! j)}"
  have "{j. j < length (xs[i := y]) \<and> P (xs[i := y] ! j)} = ?A - {i}"
    using assms by (auto simp: nth_list_update split: if_splits)
  moreover have "i \<in> ?A" "finite ?A" using assms by auto
  ultimately show "length (filter P (xs[i := y])) = length (filter P xs) - 1" "0 < length (filter P xs)"
    unfolding length_filter_conv_card by (auto simp: card_gt_0_iff)
qed

lemma length_filter_grow:
  assumes "i < length xs" "\<not> P (xs ! i)" "P y"
  shows "length (filter P (xs[i := y])) = Suc (length (filter P xs))"
proof -
  have "{j. j < length (xs[i := y]) \<and> P (xs[i := y] ! j)} = insert i {j. j < length xs \<and> P (xs ! j)}"
    using assms by (auto simp: nth_list_update split: if_splits)
  then show ?thesis unfolding length_filter_conv_card using assms(2) by simp
qed

definition wf_counter :: "participant_counter \<Rightarrow> bool" where
  "wf_counter c \<longleftrightarrow> wf_plist (pco_participants c) \<and> length (pco_seen c) = length (pl_participants (pco_participants c)) \<and>
     pco_counter c = length (filter Not (pco_seen c))"

definition counted :: "participant_counter \<Rightarrow> nat set" where
  "counted c = {pl_participants (pco_participants c) ! i |i. i < length (pco_seen c) \<and> pco_seen c ! i}"

definition wf_pmap :: "'a participant_map \<Rightarrow> bool" where
  "wf_pmap m \<longleftrightarrow> wf_plist (pm_participants m) \<and> length (pm_data m) = length (pl_participants (pm_participants m)) \<and>
     pm_count m = length (filter (\<lambda>d. d \<noteq> None) (pm_data m))"

definition mapped :: "'a participant_map \<Rightarrow> nat set" where
  "mapped m = {pl_participants (pm_participants m) ! i |i. i < length (pm_data m) \<and> pm_data m ! i \<noteq> None}"

lemma entries_cover:
  assumes "distinct ps" "length xs = length ps"
  shows "(\<forall>i < length xs. P (xs ! i)) \<longleftrightarrow> {ps ! i |i. i < length xs \<and> P (xs ! i)} = set ps"
proof
  assume "{ps ! i |i. i < length xs \<and> P (xs ! i)} = set ps"
  moreover have "ps ! i \<in> set ps" if "i < length xs" for i using that assms(2) by simp
  ultimately have "\<exists>j < length xs. ps ! i = ps ! j \<and> P (xs ! j)" if "i < length xs" for i using that by blast
  then show "\<forall>i < length xs. P (xs ! i)" using assms by (metis nth_eq_iff_index_eq)
qed (use assms in \<open>fastforce simp: in_set_conv_nth\<close>)

lemma pco_put_cases:
  assumes "wf_counter c"
  shows "wf_counter (fst (pco_put p c)) \<and> pco_participants (fst (pco_put p c)) = pco_participants c \<and>
    counted (fst (pco_put p c)) = counted c \<union> ({p} \<inter> set (pl_participants (pco_participants c))) \<and>
    (snd (pco_put p c) \<longleftrightarrow> p \<in> set (pl_participants (pco_participants c)) - counted c)"
proof (cases "map_of (pl_indices (pco_participants c)) p")
  case None
  then have "p \<notin> set (pl_participants (pco_participants c))"
    using assms wf_plist_lookup(1) [of "pco_participants c" p] by (simp add: wf_counter_def pl_contains_def)
  with None assms show ?thesis by (simp add: pco_put_def)
next
  case (Some i)
  let ?ps = "pl_participants (pco_participants c)"
  have i: "i < length ?ps" "?ps ! i = p" "distinct ?ps" "length (pco_seen c) = length ?ps"
    using assms Some by (auto simp: wf_counter_def wf_plist_def)
  have eq: "?ps ! j = p \<longleftrightarrow> j = i" if "j < length ?ps" for j
    using i that by (metis nth_eq_iff_index_eq)
  show ?thesis
  proof (cases "pco_seen c ! i")
    case True
    then have "(pco_seen c)[i := True] = pco_seen c" by (metis list_update_id)
    then have put: "pco_put p c = (c, False)" using Some True i by (simp add: pco_put_def)
    have "p \<in> counted c" using True i by (auto simp: counted_def)
    with put assms show ?thesis by auto
  next
    case False
    then have put: "pco_put p c = (c\<lparr>pco_seen := (pco_seen c)[i := True], pco_counter := pco_counter c - 1\<rparr>, True)"
      using Some i by (simp add: pco_put_def)
    have "p \<notin> counted c" using False i eq by (auto simp: counted_def)
    moreover have "counted (fst (pco_put p c)) = counted c \<union> {p}"
      unfolding put using i eq by (auto simp: counted_def nth_list_update split: if_splits)
    moreover have "wf_counter (fst (pco_put p c))"
      using assms i False length_filter_update(1) [of i "pco_seen c" Not True]
      unfolding put by (simp add: wf_counter_def)
    ultimately show ?thesis using i nth_mem [OF i(1)] by (simp add: put)
  qed
qed

lemma pco_full_iff:
  assumes "wf_counter c"
  shows "pco_full c \<longleftrightarrow> counted c = set (pl_participants (pco_participants c))"
proof -
  have "pco_full c \<longleftrightarrow> (\<forall>b \<in> set (pco_seen c). b)"
    using assms by (simp add: pco_full_def wf_counter_def filter_empty_conv)
  also have "\<dots> \<longleftrightarrow> (\<forall>i < length (pco_seen c). pco_seen c ! i)" by (simp add: all_set_conv_all_nth)
  also have "\<dots> \<longleftrightarrow> counted c = set (pl_participants (pco_participants c))"
    unfolding counted_def using assms by (intro entries_cover) (auto simp: wf_counter_def wf_plist_def)
  finally show ?thesis .
qed

interpretation counters: participant_tally wf_counter "\<lambda>c. set (pl_participants (pco_participants c))" counted
    "\<lambda>p. p" "\<lambda>p c. fst (pco_put p c)" pco_full
proof unfold_locales
  fix c assume "wf_counter c"
  then show "counted c \<subseteq> set (pl_participants (pco_participants c))"
    by (auto simp: counted_def wf_counter_def)
qed (use pco_put_cases pco_full_iff in auto)

lemma pm_put_cases:
  assumes "wf_pmap m"
  shows "wf_pmap (pm_put p d m) \<and> pm_participants (pm_put p d m) = pm_participants m \<and>
    mapped (pm_put p d m) = mapped m \<union> ({p} \<inter> set (pl_participants (pm_participants m))) \<and>
    pm_index (pm_put p d m) q =
      (if q = p \<and> p \<in> set (pl_participants (pm_participants m)) - mapped m then Inr d else pm_index m q)"
proof (cases "map_of (pl_indices (pm_participants m)) p")
  case None
  then have "p \<notin> set (pl_participants (pm_participants m))"
    using assms wf_plist_lookup(1) [of "pm_participants m" p] by (simp add: wf_pmap_def pl_contains_def)
  with None assms show ?thesis by (simp add: pm_put_def)
next
  case (Some i)
  let ?ps = "pl_participants (pm_participants m)"
  have i: "i < length ?ps" "?ps ! i = p" "distinct ?ps" "length (pm_data m) = length ?ps" "wf_plist (pm_participants m)"
    using assms Some by (auto simp: wf_pmap_def wf_plist_def)
  have eq: "?ps ! j = p \<longleftrightarrow> j = i" if "j < length ?ps" for j
    using i that by (metis nth_eq_iff_index_eq)
  show ?thesis
  proof (cases "pm_data m ! i = None")
    case False
    then have put: "pm_put p d m = m" using Some by (auto simp: pm_put_def)
    have "p \<in> mapped m" using False i by (auto simp: mapped_def)
    with put assms show ?thesis by auto
  next
    case True
    then have put: "pm_put p d m = m\<lparr>pm_data := (pm_data m)[i := Some d], pm_count := pm_count m + 1\<rparr>"
      using Some i by (simp add: pm_put_def)
    have "p \<notin> mapped m" using True i eq by (auto simp: mapped_def)
    moreover have "mapped (pm_put p d m) = mapped m \<union> {p}"
      unfolding put using i eq by (auto simp: mapped_def nth_list_update split: if_splits)
    moreover have "wf_pmap (pm_put p d m)"
      using assms i True length_filter_grow [of i "pm_data m" "\<lambda>d. d \<noteq> None" "Some d"]
      unfolding put by (simp add: wf_pmap_def)
    moreover have "pm_index (pm_put p d m) q = (if q = p then Inr d else pm_index m q)"
    proof (cases "pl_index (pm_participants m) q")
      case (Inr j)
      then have "j < length ?ps" "?ps ! j = q" using wf_plist_lookup(2) [OF i(5)] by auto
      then show ?thesis using i eq by (auto simp: pm_index_def put Inr nth_list_update)
    next
      case (Inl e)
      then have "q \<noteq> p" using Some by (auto simp: pl_index_def)
      with Inl show ?thesis by (simp add: pm_index_def put)
    qed
    ultimately show ?thesis using nth_mem [OF i(1)] i(2) by (simp add: put)
  qed
qed

lemma pm_full_iff:
  assumes "wf_pmap m"
  shows "pm_full m \<longleftrightarrow> mapped m = set (pl_participants (pm_participants m))"
proof -
  have "pm_full m \<longleftrightarrow> (\<forall>d \<in> set (pm_data m). d \<noteq> None)"
    using assms length_filter_less [of _ "pm_data m" "\<lambda>d. d \<noteq> None"]
    by (auto simp: pm_full_def wf_pmap_def)
      (metis (no_types, lifting) filter_id_conv not_None_eq)
  also have "\<dots> \<longleftrightarrow> (\<forall>i < length (pm_data m). pm_data m ! i \<noteq> None)" by (simp add: all_set_conv_all_nth)
  also have "\<dots> \<longleftrightarrow> mapped m = set (pl_participants (pm_participants m))"
    unfolding mapped_def using assms by (intro entries_cover) (auto simp: wf_pmap_def wf_plist_def)
  finally show ?thesis .
qed

interpretation maps: participant_tally wf_pmap "\<lambda>m. set (pl_participants (pm_participants m))" mapped
    fst "\<lambda>(p, d). pm_put p d" pm_full
proof unfold_locales
  fix m :: "'a participant_map" assume "wf_pmap m"
  then show "mapped m \<subseteq> set (pl_participants (pm_participants m))"
    by (auto simp: mapped_def wf_pmap_def)
qed (simp_all add: pm_put_cases pm_full_iff split: prod.splits)

lemma new_wf:
  assumes "wf_plist pl"
  shows "wf_counter (participant_counter_new pl)" "counted (participant_counter_new pl) = {}"
    "wf_pmap (participant_map_new pl)" "mapped (participant_map_new pl) = {}"
    "pco_participants (participant_counter_new pl) = pl" "pm_participants (participant_map_new pl) = pl"
  using assms by (auto simp: wf_counter_def counted_def wf_pmap_def mapped_def participant_counter_new_def
    participant_map_new_def pl_len_def)

text \<open>The first entry of each participant is the one that is kept.\<close>

lemma pm_index_fold:
  assumes "wf_pmap m" "distinct (map fst es)"
  shows "pm_index (fold (\<lambda>(p, d). pm_put p d) es m) q =
    (if q \<in> set (pl_participants (pm_participants m)) - mapped m \<and> q \<in> fst ` set es
     then Inr (the (map_of es q)) else pm_index m q)"
  using assms
proof (induction es arbitrary: m)
  case (Cons e es)
  obtain p d where e: "e = (p, d)" by fastforce
  note put = pm_put_cases [OF Cons.prems(1), of p d]
  have "q \<in> fst ` set es \<Longrightarrow> q \<noteq> p" using Cons.prems(2) e by force
  with put Cons.IH [of "pm_put p d m"] Cons.prems(2) show ?case by (auto simp: e)
qed simp

lemma pm_participants_fold:
  "wf_pmap m \<Longrightarrow> pm_participants (fold (\<lambda>(p, d). pm_put p d) es m) = pm_participants m"
proof (induction es arbitrary: m)
  case (Cons e es)
  then show ?case using pm_put_cases [OF Cons.prems, of "fst e" "snd e"] by (simp add: case_prod_unfold)
qed simp

section \<open>What gathering returns\<close>

lemma recv_loop_Inr:
  assumes "recv_loop seen ms inbox = Some (Inr out)" "wf_counter seen" "distinct (map fst ms)"
    and "fst ` set ms \<subseteq> counted seen"
  shows "\<exists>new. out = ms @ new \<and> distinct (map fst out) \<and> set new \<subseteq> {m. Inr m \<in> set inbox} \<and>
    fst ` set new = set (pl_participants (pco_participants seen)) - counted seen"
  using assms
proof (induction seen ms inbox rule: recv_loop.induct)
  case (1 seen ms inbox)
  show ?case
  proof (cases "pco_full seen")
    case True
    with 1(2-) show ?thesis by (auto simp: recv_loop.simps [of seen] pco_full_iff intro!: exI [of _ "[]"])
  next
    case False
    with 1(2) obtain sender msg rest where inbox: "inbox = Inr (sender, msg) # rest"
      by (auto simp: recv_loop.simps [of seen] split: list.splits sum.splits)
    obtain seen' ins where put: "pco_put sender seen = (seen', ins)" by fastforce
    note cases = pco_put_cases [OF 1(3), of sender, unfolded put, simplified]
    let ?ms = "if ins then ms @ [(sender, msg)] else ms"
    have "recv_loop seen' ?ms rest = Some (Inr out)"
      using 1(2) False by (simp add: recv_loop.simps [of seen] inbox put)
    moreover have "distinct (map fst ?ms)" "fst ` set ?ms \<subseteq> counted seen'"
      using 1(4,5) cases by auto
    ultimately obtain new where new: "out = ?ms @ new" "distinct (map fst out)" "set new \<subseteq> {m. Inr m \<in> set rest}"
      "fst ` set new = set (pl_participants (pco_participants seen')) - counted seen'"
      using 1(1) [OF False inbox refl refl put [symmetric]] cases by auto
    show ?thesis
    proof (cases ins)
      case True
      with new cases show ?thesis by (intro exI [of _ "(sender, msg) # new"]) (auto simp: inbox)
    next
      case False
      with new cases show ?thesis by (intro exI [of _ new]) (auto simp: inbox)
    qed
  qed
qed

lemma recv_from_others_Inr:
  assumes "recv_from_others pl me inbox = Some (Inr ms)" "wf_plist pl"
  shows "distinct (map fst ms)" "fst ` set ms = set (pl_participants pl) - {me}" "set ms \<subseteq> {m. Inr m \<in> set inbox}"
proof -
  note put = pco_put_cases [OF new_wf(1) [OF assms(2)], of me, unfolded new_wf [OF assms(2)]]
  show "distinct (map fst ms)" "fst ` set ms = set (pl_participants pl) - {me}" "set ms \<subseteq> {m. Inr m \<in> set inbox}"
    using recv_loop_Inr [OF assms(1) [unfolded recv_from_others_def]] put by auto
qed

section \<open>Lagrange coefficients of participants\<close>

definition pscalar :: "nat \<Rightarrow> 's :: field" where
  "pscalar p = of_nat (p + 1)"

definition u32_plist :: "participant_list \<Rightarrow> bool" where
  "u32_plist pl \<longleftrightarrow> wf_plist pl \<and> (\<forall>p \<in> set (pl_participants pl). p < 2 ^ 32)"

lemma pscalar_inj: "suite_laws (cs :: ('s :: field, 'g :: ab_group_add, 'm) ciphersuite_scheme) \<Longrightarrow>
    inj_on (pscalar :: nat \<Rightarrow> 's) {..<2 ^ 32}"
  unfolding inj_on_def pscalar_def using of_nat_small_inj [of cs] by force

lemma suite_pscalar: "suite_laws cs \<Longrightarrow> p < 2 ^ 32 \<Longrightarrow> participant_scalar cs p = Inr (pscalar p)"
  unfolding pscalar_def by (rule suite_scalar)

lemma participant_scalars_eq:
  "suite_laws cs \<Longrightarrow> \<forall>p \<in> set ps. p < 2 ^ 32 \<Longrightarrow> participant_scalars cs ps = Inr (map pscalar ps)"
  by (induction ps) (auto simp: suite_pscalar)

lemma distinct_pscalars:
  "suite_laws (cs :: ('s :: field, 'g :: ab_group_add, 'm) ciphersuite_scheme) \<Longrightarrow> distinct ps \<Longrightarrow>
     \<forall>p \<in> set ps. p < 2 ^ 32 \<Longrightarrow> distinct (map (pscalar :: nat \<Rightarrow> 's) ps)"
  using pscalar_inj [of cs] by (auto simp: distinct_map intro: inj_on_subset)

lemma pl_lagrange_eq:
  assumes "suite_laws cs" "u32_plist pl" "2 \<le> length (pl_participants pl)" "p \<in> set (pl_participants pl)"
  shows "pl_lagrange cs pl p = Inr (lagrange_basis (pscalar ` set (pl_participants pl)) (pscalar p) 0)"
proof -
  have "distinct (map pscalar (pl_participants pl) :: 'a list)"
    using assms by (intro distinct_pscalars [OF assms(1)]) (auto simp: u32_plist_def wf_plist_def)
  then show ?thesis
    using assms by (simp add: pl_lagrange_def suite_pscalar participant_scalars_eq u32_plist_def
      compute_lagrange_coefficient_eq)
qed

end
