(* ===== verification/Dkg.thy ===== *)
theory Dkg
  imports ParticipantLists
begin

text \<open>
  Distributed key generation, resharing and refresh (\<^verbatim>\<open>crates/threshold-signatures/src/dkg.rs\<close>, with
  \<^verbatim>\<open>crypto/hash.rs\<close> and the entry points of \<^verbatim>\<open>lib.rs\<close>), as the computation one participant performs on
  the messages it receives. The results of the reliable broadcasts and the private messages are
  arguments, so that nothing is assumed of the other participants. What the crate takes from
  \<^verbatim>\<open>frost_core\<close> (sums of commitments, the key of a commitment, verification of a share), from SHA-256 and
  from the message encoding are fields of a record; \<open>frost_laws\<close> states what they are documented to do.
\<close>

section \<open>Third-party functions\<close>

datatype share_verdict = ShareValid | ShareInvalid | ShareMalformed

type_synonym hash_output = "nat list"

record ('s, 'g) signature_rz =
  sig_R :: 'g
  sig_z :: 's

record ('s, 'g) frost_suite = "('s, 'g) ciphersuite" +
  fr_identifier_new :: "'s \<Rightarrow> 's option"
  fr_share_verify :: "'s \<Rightarrow> 's \<Rightarrow> 'g list \<Rightarrow> share_verdict"
  fr_sum_commitments :: "'g list list \<Rightarrow> 'g list option"
  fr_key_from_commitment :: "'g list \<Rightarrow> 'g option"
  fr_sha256 :: "nat list \<Rightarrow> hash_output"
  fr_encode_sessions :: "nat \<Rightarrow> nat list option list \<Rightarrow> nat list option"
  fr_encode_commitment :: "nat \<Rightarrow> nat \<times> 'g list \<times> hash_output \<Rightarrow> nat list option"

text \<open>The random number generator of a participant: scalars, the 32 bytes of a session id, nonces.\<close>

record ('r, 's, 'g) rng_ops =
  rng_scalar :: "'r \<Rightarrow> 's \<times> 'r"
  rng_session_id :: "'r \<Rightarrow> nat list \<times> 'r"
  rng_nonce :: "'r \<Rightarrow> ('s \<times> 'g) \<times> 'r"
  rng_signing_key :: "'r \<Rightarrow> 's \<times> 'r"

section \<open>Hashing\<close>

abbreviation NEAR_HASH_LABEL :: "nat list" where
  "NEAR_HASH_LABEL \<equiv> map of_char ''Near threshold signature generic hash''"

definition hash_value :: "('s, 'g, 'm) frost_suite_scheme \<Rightarrow> nat list option \<Rightarrow> hash_output ts_res" where
  "hash_value fr encoded = bind_res (ok_or encoded (TsError ErrorEncoding)) (\<lambda>bytes.
     Inr (fr_sha256 fr (NEAR_HASH_LABEL @ bytes)))"

definition ds_increment :: "nat \<Rightarrow> nat ts_res" where
  "ds_increment ds = ok_or (checked_add 32 ds 1) TsPanic"

definition domain_separate_hash ::
    "('s, 'g, 'm) frost_suite_scheme \<Rightarrow> (nat \<Rightarrow> 'd \<Rightarrow> nat list option) \<Rightarrow> nat \<Rightarrow> 'd \<Rightarrow> (nat \<times> hash_output) ts_res" where
  "domain_separate_hash fr encode ds data =
     bind_res (ds_increment ds) (\<lambda>ds'.
     bind_res (hash_value fr (encode ds data)) (\<lambda>h. Inr (ds', h)))"

section \<open>The parts of the protocol\<close>

definition assert_keyshare_inputs ::
    "nat \<Rightarrow> 's :: field \<Rightarrow> ('g \<times> participant_list) option \<Rightarrow> ('g option \<times> participant_list option) ts_res" where
  "assert_keyshare_inputs me secret old_reshare_package = (case old_reshare_package of
     Some (old_key, old_participants) \<Rightarrow>
       if secret = 0 then
         if pl_contains old_participants me then Inl (TsError AssertionFailed)
         else Inr (Some old_key, Some old_participants)
       else if \<not> pl_contains old_participants me then Inl (TsError AssertionFailed)
         else Inr (Some old_key, Some old_participants)
   | None \<Rightarrow> if secret = 0 then Inl (TsError AssertionFailed) else Inr (None, None))"

definition generate_coefficient_commitment ::
    "('s :: field, 'g :: ab_group_add, 'm) ciphersuite_scheme \<Rightarrow> 's polynomial \<Rightarrow> 'g polynomial_commitment ts_res" where
  "generate_coefficient_commitment cs secret_coefficients =
     (let cs' = (case poly_coefficients secret_coefficients of
          c # rest \<Rightarrow> if c = 0 then rest else c # rest | [] \<Rightarrow> [])
      in bind_res (polynomial_new cs') (\<lambda>p. commit_polynomial cs p))"

definition dkg_challenge ::
    "('s, 'g, 'm) frost_suite_scheme \<Rightarrow> nat \<Rightarrow> hash_output \<Rightarrow> 's \<Rightarrow> 'g \<Rightarrow> 'g \<Rightarrow> (nat \<times> 's) ts_res" where
  "dkg_challenge fr ds session_id pid vk_share big_r =
     bind_res (ok_or (cs_serialize_element fr vk_share) (TsError AssertionFailed)) (\<lambda>vk.
     bind_res (ok_or (cs_serialize_element fr big_r) (TsError AssertionFailed)) (\<lambda>br.
     let preimage = le_bytes 4 ds @ session_id @ cs_serialize_scalar fr pid @ vk @ br
     in bind_res (ds_increment ds) (\<lambda>ds'.
        bind_res (ok_or (cs_HDKG fr preimage) (TsError DKGNotSupported)) (\<lambda>h. Inr (ds', h)))))"

definition proof_of_knowledge ::
    "('s :: field, 'g :: ab_group_add, 'm) frost_suite_scheme \<Rightarrow> ('r, 's, 'g) rng_ops \<Rightarrow> hash_output \<Rightarrow> nat \<Rightarrow> nat \<Rightarrow>
       's polynomial \<Rightarrow> 'g polynomial_commitment \<Rightarrow> 'r \<Rightarrow> (nat \<times> ('s, 'g) signature_rz \<times> 'r) ts_res" where
  "proof_of_knowledge fr rng session_id ds me coefficients coefficient_commitment r =
     bind_res (participant_scalar fr me) (\<lambda>pid.
     bind_res (commitment_eval_at_zero coefficient_commitment) (\<lambda>vk_share.
     let ((k, big_r), r) = rng_nonce rng r
     in bind_res (dkg_challenge fr ds session_id pid vk_share big_r) (\<lambda>(ds, h).
        bind_res (poly_eval_at_zero coefficients) (\<lambda>a_0.
        Inr (ds, \<lparr>sig_R = big_r, sig_z = k + a_0 * h\<rparr>, r)))))"

definition internal_verify_proof_of_knowledge ::
    "('s :: field, 'g :: ab_group_add, 'm) frost_suite_scheme \<Rightarrow> hash_output \<Rightarrow> nat \<Rightarrow> nat \<Rightarrow> 'g list \<Rightarrow>
       ('s, 'g) signature_rz \<Rightarrow> unit ts_res" where
  "internal_verify_proof_of_knowledge fr session_id ds participant commitment proof =
     bind_res (participant_scalar fr participant) (\<lambda>pid.
     bind_res (case commitment of [] \<Rightarrow> Inl (TsError AssertionFailed) | c # _ \<Rightarrow> Inr c) (\<lambda>vk_share.
     bind_res (dkg_challenge fr ds session_id pid vk_share (sig_R proof)) (\<lambda>(_, c).
     ensure (sig_R proof = cs_mul fr (cs_generator fr) (sig_z proof) - cs_mul fr vk_share c)
       (TsError (InvalidProofOfKnowledge participant)))))"

definition verify_proof_of_knowledge ::
    "('s :: field, 'g :: ab_group_add, 'm) frost_suite_scheme \<Rightarrow> hash_output \<Rightarrow> nat \<Rightarrow> nat \<Rightarrow> nat \<Rightarrow>
       participant_list option \<Rightarrow> 'g list \<Rightarrow> ('s, 'g) signature_rz option \<Rightarrow> unit ts_res" where
  "verify_proof_of_knowledge fr session_id ds threshold participant old_participants commitment proof = (case proof of
     None \<Rightarrow>
       if (case old_participants of None \<Rightarrow> True | Some p \<Rightarrow> pl_contains p participant)
       then Inl (TsError (MaliciousParticipant participant))
       else ensure (length commitment = threshold - 1) (TsError IncorrectNumberOfCommitments)
   | Some proof \<Rightarrow>
       if (case old_participants of None \<Rightarrow> False | Some p \<Rightarrow> \<not> pl_contains p participant)
       then Inl (TsError (MaliciousParticipant participant))
       else bind_res (ensure (length commitment = threshold) (TsError IncorrectNumberOfCommitments)) (\<lambda>_.
         internal_verify_proof_of_knowledge fr session_id ds participant commitment proof))"

definition verify_commitment_hash ::
    "('s, 'g, 'm) frost_suite_scheme \<Rightarrow> hash_output \<Rightarrow> nat \<Rightarrow> nat \<Rightarrow> 'g list \<Rightarrow> hash_output participant_map \<Rightarrow> unit ts_res" where
  "verify_commitment_hash fr session_id participant ds commitment all_hash_commitments =
     bind_res (pm_index all_hash_commitments participant) (\<lambda>actual.
     bind_res (domain_separate_hash fr (fr_encode_commitment fr) ds (participant, commitment, session_id)) (\<lambda>(_, h).
     ensure (actual = h) (TsError InvalidCommitmentHash)))"

definition insert_identity_if_missing :: "nat \<Rightarrow> 'g :: ab_group_add list \<Rightarrow> 'g list" where
  "insert_identity_if_missing threshold commitment =
     (if length commitment = threshold - 1 then 0 # commitment else commitment)"

definition validate_received_share ::
    "('s, 'g, 'm) frost_suite_scheme \<Rightarrow> nat \<Rightarrow> nat \<Rightarrow> 's \<Rightarrow> 'g list \<Rightarrow> unit ts_res" where
  "validate_received_share fr me sender share commitment =
     bind_res (participant_scalar fr me) (\<lambda>x.
     bind_res (ok_or (fr_identifier_new fr x) (TsError IdentityElement)) (\<lambda>pid.
     case fr_share_verify fr pid share commitment of
       ShareValid \<Rightarrow> Inr ()
     | ShareInvalid \<Rightarrow> Inl (TsError (InvalidSecretShare sender))
     | ShareMalformed \<Rightarrow> Inl (TsError AssertionFailed)))"

definition public_key_from_commitments :: "('s, 'g, 'm) frost_suite_scheme \<Rightarrow> 'g list list \<Rightarrow> 'g ts_res" where
  "public_key_from_commitments fr commitments =
     bind_res (ok_or (fr_sum_commitments fr commitments) (TsError IncorrectNumberOfCommitments)) (\<lambda>commitment.
     ok_or (fr_key_from_commitment fr commitment) (TsError ErrorExtractVerificationKey))"

text \<open>\<^verbatim>\<open>broadcast_success\<close>, on the outcome of the broadcast of the votes.\<close>

definition broadcast_success :: "hash_output \<Rightarrow> (bool \<times> hash_output) participant_map ts_res \<Rightarrow> unit ts_res" where
  "broadcast_success session_id votes =
     bind_res votes (\<lambda>vote_list.
     bind_res (ok_or (pm_vec_or_none vote_list) (TsError AssertionFailed)) (\<lambda>vote_list.
     bind_res (ensure (list_all (\<lambda>(_, sid). sid = session_id) vote_list) (TsError AssertionFailed)) (\<lambda>_.
     ensure (list_all (\<lambda>(b, _). b) vote_list) (TsError AssertionFailed))))"

section \<open>The protocol\<close>

text \<open>
  What reaches a participant: the outcomes of the three broadcasts, and the messages at the two
  waitpoints. A run that still waits for messages has the value \<open>None\<close>.
\<close>

record ('s, 'g) keyshare_inbox =
  ki_session_ids :: "nat list participant_map ts_res"
  ki_hashes :: "(nat \<times> hash_output) ts_res list"
  ki_commitments :: "('g list \<times> ('s, 'g) signature_rz option) participant_map ts_res"
  ki_shares :: "(nat \<times> 's) ts_res list"
  ki_votes :: "(bool \<times> hash_output) participant_map ts_res"

record ('s, 'g) keygen_output =
  ko_private_share :: 's
  ko_public_key :: 'g

text \<open>What a participant holds after the second round: its polynomial, its commitment, its proof, hash and session.\<close>

record ('s, 'g) keyshare_state =
  k2_session_id :: hash_output
  k2_secret_coefficients :: "'s polynomial"
  k2_commitment :: "'g list"
  k2_proof :: "('s, 'g) signature_rz option"
  k2_proof_ds :: nat
  k2_commit_ds :: nat
  k2_commitment_hash :: hash_output

definition keyshare_round2 ::
    "('s :: field, 'g :: ab_group_add, 'm) frost_suite_scheme \<Rightarrow> ('r, 's, 'g) rng_ops \<Rightarrow> nat \<Rightarrow> nat \<Rightarrow> nat \<Rightarrow> 's \<Rightarrow>
       participant_list option \<Rightarrow> nat list participant_map \<Rightarrow> 'r \<Rightarrow> ('s, 'g) keyshare_state ts_res" where
  "keyshare_round2 fr rng scalar_size me threshold secret old_participants session_ids r =
     bind_res (domain_separate_hash fr (fr_encode_sessions fr) 0 (pm_data session_ids)) (\<lambda>(ds, session_id).
     bind_res (ok_or (checked_sub threshold 1) (TsError IntegerOverflow)) (\<lambda>degree.
     bind_res (generate_polynomial (rng_scalar rng) scalar_size (Some secret) degree r) (\<lambda>(secret_coefficients, r).
     bind_res (generate_coefficient_commitment fr secret_coefficients) (\<lambda>coefficient_commitment.
     let proof_ds = ds; generate_proof = (case old_participants of None \<Rightarrow> True | Some old \<Rightarrow> pl_contains old me)
     in bind_res (if generate_proof
          then bind_res (proof_of_knowledge fr rng session_id ds me secret_coefficients coefficient_commitment r)
            (\<lambda>(ds, proof, r). Inr (ds, Some proof))
          else bind_res (ds_increment ds) (\<lambda>ds. Inr (ds, None))) (\<lambda>(ds, proof).
        let commitment = pc_coefficients coefficient_commitment; commit_ds = ds
        in bind_res (domain_separate_hash fr (fr_encode_commitment fr) ds (me, commitment, session_id)) (\<lambda>(ds, h).
           Inr \<lparr>k2_session_id = session_id, k2_secret_coefficients = secret_coefficients, k2_commitment = commitment,
             k2_proof = proof, k2_proof_ds = proof_ds, k2_commit_ds = commit_ds, k2_commitment_hash = h\<rparr>))))))"

text \<open>Round 4: the commitments of the others are checked and completed one by one.\<close>

fun collect_commitments ::
    "('s :: field, 'g :: ab_group_add, 'm) frost_suite_scheme \<Rightarrow> ('s, 'g) keyshare_state \<Rightarrow> nat \<Rightarrow> participant_list option \<Rightarrow>
       hash_output participant_map \<Rightarrow> ('g list \<times> ('s, 'g) signature_rz option) participant_map \<Rightarrow> nat list \<Rightarrow>
       'g list participant_map \<Rightarrow> 'g list participant_map ts_res" where
  "collect_commitments fr k2 threshold old_participants hashes received [] full = Inr full"
| "collect_commitments fr k2 threshold old_participants hashes received (p # ps) full =
     bind_res (pm_index received p) (\<lambda>(commitment_i, proof_i).
     bind_res (verify_proof_of_knowledge fr (k2_session_id k2) (k2_proof_ds k2) threshold p old_participants
       commitment_i proof_i) (\<lambda>_.
     bind_res (verify_commitment_hash fr (k2_session_id k2) p (k2_commit_ds k2) commitment_i hashes) (\<lambda>_.
     collect_commitments fr k2 threshold old_participants hashes received ps
       (pm_put p (insert_identity_if_missing threshold commitment_i) full))))"

text \<open>The shares sent to the others at the end of round 4.\<close>

fun shares_to_send :: "('s :: field, 'g, 'm) ciphersuite_scheme \<Rightarrow> 's polynomial \<Rightarrow> nat list \<Rightarrow> (nat \<times> 's) list ts_res" where
  "shares_to_send cs secret_coefficients [] = Inr []"
| "shares_to_send cs secret_coefficients (p # ps) =
     bind_res (poly_eval_at_participant cs secret_coefficients p) (\<lambda>s.
     bind_res (shares_to_send cs secret_coefficients ps) (\<lambda>rest. Inr ((p, s) # rest)))"

text \<open>Round 5: the shares of the others are validated and summed up.\<close>

fun collect_shares ::
    "('s :: field, 'g, 'm) frost_suite_scheme \<Rightarrow> nat \<Rightarrow> 'g list participant_map \<Rightarrow> (nat \<times> 's) list \<Rightarrow> 's \<Rightarrow> 's ts_res" where
  "collect_shares fr me full [] share = Inr share"
| "collect_shares fr me full ((sender, s) # rest) share =
     bind_res (pm_index full sender) (\<lambda>commitment.
     bind_res (validate_received_share fr me sender s commitment) (\<lambda>_.
     collect_shares fr me full rest (share + s)))"

text \<open>Waiting: \<open>None\<close>, otherwise the result so far.\<close>

definition await :: "'a ts_res option \<Rightarrow> ('a \<Rightarrow> 'b ts_res option) \<Rightarrow> 'b ts_res option" where
  "await m f = (case m of None \<Rightarrow> None | Some (Inl e) \<Rightarrow> Some (Inl e) | Some (Inr x) \<Rightarrow> f x)"

definition do_keyshare ::
    "('s :: field, 'g :: ab_group_add, 'm) frost_suite_scheme \<Rightarrow> ('r, 's, 'g) rng_ops \<Rightarrow> nat \<Rightarrow> participant_list \<Rightarrow> nat \<Rightarrow>
       nat \<Rightarrow> 's \<Rightarrow> ('g \<times> participant_list) option \<Rightarrow> 'r \<Rightarrow> ('s, 'g) keyshare_inbox \<Rightarrow> ('s, 'g) keygen_output ts_res option" where
  "do_keyshare fr rng scalar_size participants me threshold secret old_reshare_package r inbox =
     await (Some (assert_keyshare_inputs me secret old_reshare_package)) (\<lambda>(old_verification_key, old_participants).
     let (my_session_id, r) = rng_session_id rng r
     in await (Some (ki_session_ids inbox)) (\<lambda>session_ids.
        await (Some (keyshare_round2 fr rng scalar_size me threshold secret old_participants session_ids r)) (\<lambda>k2.
        await (recv_from_others participants me (ki_hashes inbox)) (\<lambda>hashes.
        let all_hashes = fold (\<lambda>(p, h). pm_put p h) hashes
              (pm_put me (k2_commitment_hash k2) (participant_map_new participants));
            all_full = pm_put me (insert_identity_if_missing threshold (k2_commitment k2)) (participant_map_new participants)
        in await (Some (ki_commitments inbox)) (\<lambda>received.
           await (Some (collect_commitments fr k2 threshold old_participants all_hashes received
             (pl_others participants me) all_full)) (\<lambda>all_full.
           await (Some (ok_or (pm_vec_or_none all_full) (TsError AssertionFailed))) (\<lambda>all_commitments.
           await (Some (public_key_from_commitments fr all_commitments)) (\<lambda>verifying_key.
           await (Some (ensure (case old_verification_key of None \<Rightarrow> True | Some old \<Rightarrow> old = verifying_key)
             (TsError AssertionFailed))) (\<lambda>_.
           await (Some (shares_to_send fr (k2_secret_coefficients k2) (pl_others participants me))) (\<lambda>_.
           await (Some (poly_eval_at_participant fr (k2_secret_coefficients k2) me)) (\<lambda>my_share.
           await (recv_from_others participants me (ki_shares inbox)) (\<lambda>shares.
           await (Some (collect_shares fr me all_full shares my_share)) (\<lambda>share.
           await (Some (broadcast_success (k2_session_id k2) (ki_votes inbox))) (\<lambda>_.
           Some (Inr \<lparr>ko_private_share = share, ko_public_key = verifying_key\<rparr>)))))))))))))))"

definition do_keygen ::
    "('s :: field, 'g :: ab_group_add, 'm) frost_suite_scheme \<Rightarrow> ('r, 's, 'g) rng_ops \<Rightarrow> nat \<Rightarrow> participant_list \<Rightarrow> nat \<Rightarrow>
       nat \<Rightarrow> 'r \<Rightarrow> ('s, 'g) keyshare_inbox \<Rightarrow> ('s, 'g) keygen_output ts_res option" where
  "do_keygen fr rng scalar_size participants me threshold r inbox =
     (let (secret, r) = rng_signing_key rng r
      in do_keyshare fr rng scalar_size participants me threshold secret None r inbox)"

definition do_reshare ::
    "('s :: field, 'g :: ab_group_add, 'm) frost_suite_scheme \<Rightarrow> ('r, 's, 'g) rng_ops \<Rightarrow> nat \<Rightarrow> participant_list \<Rightarrow> nat \<Rightarrow>
       nat \<Rightarrow> 's option \<Rightarrow> 'g \<Rightarrow> participant_list \<Rightarrow> 'r \<Rightarrow> ('s, 'g) keyshare_inbox \<Rightarrow> ('s, 'g) keygen_output ts_res option" where
  "do_reshare fr rng scalar_size participants me threshold old_signing_key old_public_key old_participants r inbox =
     await (Some (pl_intersection old_participants participants)) (\<lambda>intersection.
     await (Some (case old_signing_key of
         Some x_i \<Rightarrow> bind_res (pl_lagrange fr intersection me) (\<lambda>l. Inr (l * x_i))
       | None \<Rightarrow> Inr 0)) (\<lambda>secret.
     do_keyshare fr rng scalar_size participants me threshold secret (Some (old_public_key, old_participants)) r inbox))"

text \<open>The checks before a run end with an initialization error or panic.\<close>

datatype init_abort = InitError initialization_error | InitPanic

definition assert_key_invariants :: "nat list \<Rightarrow> nat \<Rightarrow> nat \<Rightarrow> init_abort + participant_list" where
  "assert_key_invariants participants me threshold =
     bind_res (ensure (\<not> length participants < 2) (InitError (NotEnoughParticipants (length participants)))) (\<lambda>_.
     bind_res (ensure (\<not> threshold > length participants) (InitError (ThresholdTooLarge threshold (length participants)))) (\<lambda>_.
     bind_res (ensure (\<not> threshold < 2) (InitError (ThresholdTooSmall threshold 2))) (\<lambda>_.
     bind_res (ok_or (participant_list_new participants) (InitError DuplicateParticipants)) (\<lambda>pl.
     bind_res (ensure (pl_contains pl me) (InitError (MissingParticipant me))) (\<lambda>_. Inr pl)))))"

definition assert_reshare_keys_invariants ::
    "nat list \<Rightarrow> nat \<Rightarrow> nat \<Rightarrow> 's option \<Rightarrow> nat \<Rightarrow> nat list \<Rightarrow> init_abort + (participant_list \<times> participant_list)" where
  "assert_reshare_keys_invariants participants me threshold old_signing_key old_threshold old_participants =
     bind_res (assert_key_invariants participants me threshold) (\<lambda>pl.
     bind_res (ok_or (participant_list_new old_participants) (InitError DuplicateParticipants)) (\<lambda>old.
     case pl_intersection old pl of
       Inl _ \<Rightarrow> Inl InitPanic
     | Inr common \<Rightarrow>
         bind_res (ensure (\<not> pl_len common < old_threshold)
           (InitError (NotEnoughParticipantsForNewThreshold old_threshold (pl_len common)))) (\<lambda>_.
         bind_res (ensure (\<not> (pl_contains old me \<and> old_signing_key = None)) (InitError BadParameters)) (\<lambda>_.
         Inr (pl, old)))))"

section \<open>What the third-party functions do\<close>

text \<open>
  Identifiers are the nonzero scalars; a share verifies against a commitment when the share times the
  generator is the commitment evaluated at the identifier; commitments of equal length are added
  coefficient by coefficient; the key of a commitment is its constant term.
\<close>

definition frost_laws :: "('s :: field, 'g :: ab_group_add, 'm) frost_suite_scheme \<Rightarrow> bool" where
  "frost_laws fr \<longleftrightarrow> suite_laws fr \<and>
     (\<forall>x. fr_identifier_new fr x = (if x = 0 then None else Some x)) \<and>
     (\<forall>pid s c. c \<noteq> [] \<longrightarrow> (fr_share_verify fr pid s c = ShareValid \<longleftrightarrow> cs_mul fr (cs_generator fr) s = ghorner fr c pid)) \<and>
     (\<forall>cs n. cs \<noteq> [] \<longrightarrow> (\<forall>c \<in> set cs. length c = n) \<longrightarrow>
       fr_sum_commitments fr cs = Some (map (\<lambda>k. sum_list (map (\<lambda>c. c ! k) cs)) [0..<n])) \<and>
     (\<forall>c. c \<noteq> [] \<longrightarrow> fr_key_from_commitment fr c = Some (hd c))"

lemma frost_suite_laws: "frost_laws fr \<Longrightarrow> suite_laws fr"
  by (simp add: frost_laws_def)

section \<open>What one participant establishes\<close>

lemma await_Inr [res_simps]: "await m f = Some (Inr y) \<longleftrightarrow> (\<exists>x. m = Some (Inr x) \<and> f x = Some (Inr y))"
  by (auto simp: await_def split: option.splits sum.splits)

text \<open>The message of the second broadcast of a participant.\<close>

definition keyshare_broadcast ::
    "('s :: field, 'g :: ab_group_add, 'm) frost_suite_scheme \<Rightarrow> ('r, 's, 'g) rng_ops \<Rightarrow> nat \<Rightarrow> nat \<Rightarrow>
       nat \<Rightarrow> 's \<Rightarrow> ('g \<times> participant_list) option \<Rightarrow> 'r \<Rightarrow> ('s, 'g) keyshare_inbox \<Rightarrow>
       ('g list \<times> ('s, 'g) signature_rz option) ts_res" where
  "keyshare_broadcast fr rng scalar_size me threshold secret old_reshare_package r inbox =
     bind_res (assert_keyshare_inputs me secret old_reshare_package) (\<lambda>(_, old_participants).
     bind_res (ki_session_ids inbox) (\<lambda>session_ids.
     bind_res (keyshare_round2 fr rng scalar_size me threshold secret old_participants session_ids
       (snd (rng_session_id rng r))) (\<lambda>k2.
     Inr (k2_commitment k2, k2_proof k2))))"

definition own_coefficients :: "('s, 'g) keyshare_state \<Rightarrow> 's list" where
  "own_coefficients k2 = poly_coefficients (k2_secret_coefficients k2)"

lemma generate_polynomial_Inr:
  assumes "generate_polynomial rnd sz (Some secret) degree r = Inr (p, r')"
  shows "poly_coefficients p \<noteq> []" "last (poly_coefficients p) \<noteq> 0" "hd (poly_coefficients p) = secret"
proof -
  obtain rest where n: "polynomial_new (secret # rest) = Inr p"
    using assms by (auto simp: generate_polynomial_def res_simps Let_def split: prod.splits)
  then show "poly_coefficients p \<noteq> []" "last (poly_coefficients p) \<noteq> 0" by (rule polynomial_new_Inr)+
  with n show "hd (poly_coefficients p) = secret"
    by (auto simp: polynomial_new_def Let_def take_Cons' split: if_splits)
qed

lemma generate_coefficient_commitment_eq:
  assumes "suite_laws cs" "poly_coefficients p \<noteq> []" "last (poly_coefficients p) \<noteq> 0"
  shows "generate_coefficient_commitment cs p = Inr \<lparr>pc_coefficients = map (cs_mul cs (cs_generator cs))
    (if hd (poly_coefficients p) = 0 then tl (poly_coefficients p) else poly_coefficients p)\<rparr>"
proof -
  obtain a as where p: "poly_coefficients p = a # as" using assms(2) by (cases "poly_coefficients p") auto
  have trim: "polynomial_new bs = Inr \<lparr>poly_coefficients = bs\<rparr>" if "bs \<noteq> []" "last bs \<noteq> 0" for bs :: "'a list"
  proof -
    have "takeWhile (\<lambda>x. x = 0) (rev bs) = []" using that by (cases bs rule: rev_cases) auto
    then show ?thesis using that by (simp add: polynomial_new_def)
  qed
  have "a = 0 \<Longrightarrow> as \<noteq> []" using assms(3) p by auto
  then show ?thesis
    using assms p trim [of as] trim [of "a # as"]
    by (cases "a = 0") (auto simp: generate_coefficient_commitment_def Let_def commit_polynomial_eq)
qed

lemma keyshare_round2_Inr:
  assumes "keyshare_round2 fr rng sz me t secret old sids r = Inr k2" "suite_laws fr"
  shows "own_coefficients k2 \<noteq> []" "last (own_coefficients k2) \<noteq> 0" "hd (own_coefficients k2) = secret"
    "k2_commitment k2 = map (cs_mul fr (cs_generator fr))
      (if secret = 0 then tl (own_coefficients k2) else own_coefficients k2)"
    "k2_proof k2 = None \<longleftrightarrow> (\<exists>o'. old = Some o' \<and> \<not> pl_contains o' me)"
proof -
  let ?p = "k2_secret_coefficients k2"
  obtain d r' cc where p: "generate_polynomial (rng_scalar rng) sz (Some secret) d r = Inr (?p, r')"
      "generate_coefficient_commitment fr ?p = Inr cc" "k2_commitment k2 = pc_coefficients cc"
    and proof_iff: "k2_proof k2 = None \<longleftrightarrow> (\<exists>o'. old = Some o' \<and> \<not> pl_contains o' me)"
    using assms(1) by (auto simp: keyshare_round2_def res_simps Let_def split: prod.splits if_splits option.splits)
  note g = generate_polynomial_Inr [OF p(1)]
  show "own_coefficients k2 \<noteq> []" "last (own_coefficients k2) \<noteq> 0" "hd (own_coefficients k2) = secret"
    using g by (simp_all add: own_coefficients_def)
  show "k2_commitment k2 = map (cs_mul fr (cs_generator fr))
      (if secret = 0 then tl (own_coefficients k2) else own_coefficients k2)"
    using generate_coefficient_commitment_eq [OF assms(2) g(1,2)] p(2,3) g(3) by (simp add: own_coefficients_def)
  show "k2_proof k2 = None \<longleftrightarrow> (\<exists>o'. old = Some o' \<and> \<not> pl_contains o' me)" by (rule proof_iff)
qed

text \<open>The length of a broadcast commitment that passes the checks of another participant.\<close>

definition sized_message :: "nat \<Rightarrow> 'g list \<times> ('s, 'g) signature_rz option \<Rightarrow> bool" where
  "sized_message t m \<longleftrightarrow> length (fst m) = (if snd m = None then t - 1 else t)"

definition full_commitment :: "nat \<Rightarrow> 'g :: ab_group_add list \<times> ('s, 'g) signature_rz option \<Rightarrow> 'g list" where
  "full_commitment t m = insert_identity_if_missing t (fst m)"

lemma sized_full: "sized_message t m \<Longrightarrow> 0 < t \<Longrightarrow> length (full_commitment t m) = t"
  by (auto simp: sized_message_def full_commitment_def insert_identity_if_missing_def split: if_splits)

lemma own_full_commitment:
  assumes "keyshare_round2 fr rng sz me t secret old sids r = Inr k2" "suite_laws fr" "0 < t"
    and "assert_keyshare_inputs me secret pkg = Inr (key, old)"
    and "sized_message t (k2_commitment k2, k2_proof k2)"
  shows "full_commitment t (k2_commitment k2, k2_proof k2) = map (cs_mul fr (cs_generator fr)) (own_coefficients k2)"
proof -
  note k2 = keyshare_round2_Inr [OF assms(1,2)]
  have zero: "k2_proof k2 = None \<longleftrightarrow> secret = 0"
    using assms(4) k2(5) by (auto simp: assert_keyshare_inputs_def split: option.splits if_splits)
  obtain a as where cs: "own_coefficients k2 = a # as" using k2(1) by (cases "own_coefficients k2") auto
  show ?thesis
  proof (cases "secret = 0")
    case True
    then show ?thesis
      using assms(2,3,5) zero k2(3,4) cs
      by (simp add: sized_message_def full_commitment_def insert_identity_if_missing_def suite_mul)
  next
    case False
    then show ?thesis
      using assms(3,5) zero k2(4)
      by (auto simp: sized_message_def full_commitment_def insert_identity_if_missing_def)
  qed
qed

lemma collect_commitments_Inr:
  assumes "collect_commitments fr k2 t old hashes received ps full = Inr full'"
  shows "\<exists>e. (\<forall>p \<in> set ps. pm_index received p = Inr (e p) \<and> sized_message t (e p)) \<and>
    full' = fold (\<lambda>(p, d). pm_put p d) (map (\<lambda>p. (p, full_commitment t (e p))) ps) full"
  using assms
proof (induction ps arbitrary: full)
  case (Cons p ps)
  from Cons.prems obtain c pr where p: "pm_index received p = Inr (c, pr)"
      "verify_proof_of_knowledge fr (k2_session_id k2) (k2_proof_ds k2) t p old c pr = Inr ()"
      "collect_commitments fr k2 t old hashes received ps (pm_put p (full_commitment t (c, pr)) full) = Inr full'"
    by (auto simp: res_simps full_commitment_def)
  have s: "sized_message t (c, pr)"
    using p(2) by (auto simp: verify_proof_of_knowledge_def sized_message_def res_simps split: option.splits if_splits)
  obtain e where e: "\<forall>q \<in> set ps. pm_index received q = Inr (e q) \<and> sized_message t (e q)"
      "full' = fold (\<lambda>(p, d). pm_put p d) (map (\<lambda>p. (p, full_commitment t (e p))) ps)
        (pm_put p (full_commitment t (c, pr)) full)"
    using Cons.IH [OF p(3)] by blast
  define e' where "e' q = (case pm_index received q of Inr m \<Rightarrow> m | Inl _ \<Rightarrow> e q)" for q
  have "e' q = e q" if "q \<in> set ps" for q using e(1) that by (simp add: e'_def)
  moreover have "e' p = (c, pr)" using p(1) by (simp add: e'_def)
  ultimately show ?case
    using e p(1) s by (intro exI [of _ e']) (simp cong: map_cong)
qed auto

lemma collect_shares_Inr:
  assumes "collect_shares fr me full ss share = Inr share'"
  shows "share' = share + sum_list (map snd ss) \<and>
    (\<forall>(p, s) \<in> set ss. \<exists>c. pm_index full p = Inr c \<and> validate_received_share fr me p s c = Inr ())"
  using assms
proof (induction ss arbitrary: share)
  case (Cons e ss)
  obtain p s where e: "e = (p, s)" by fastforce
  from Cons.prems obtain c where "pm_index full p = Inr c" "validate_received_share fr me p s c = Inr ()"
      "collect_shares fr me full ss (share + s) = Inr share'"
    by (auto simp: e res_simps)
  with Cons.IH [of "share + s"] show ?case by (auto simp: e add.assoc)
qed simp

lemma pm_vec_index:
  assumes "wf_pmap m" "pm_vec_or_none m = Some ds"
  shows "ds = map (\<lambda>p. projr (pm_index m p)) (pl_participants (pm_participants m))"
proof -
  let ?ps = "pl_participants (pm_participants m)"
  have those: "length ds = length xs \<and> (\<forall>i < length xs. xs ! i = Some (ds ! i))" if "those xs = Some ds" for xs ds
    using that
  proof (induction xs arbitrary: ds)
    case (Cons x xs)
    then obtain d ds' where "x = Some d" "those xs = Some ds'" "ds = d # ds'" by (auto split: option.splits)
    with Cons.IH show ?case by (auto simp: nth_Cons')
  qed simp
  have d: "length ds = length ?ps" "\<forall>i < length ?ps. pm_data m ! i = Some (ds ! i)"
    using those [of "pm_data m" ds] assms by (auto simp: pm_vec_or_none_def wf_pmap_def)
  have "pl_index (pm_participants m) (?ps ! i) = Inr i" if "i < length ?ps" for i
    using that assms(1) by (auto simp: pl_index_def wf_pmap_def wf_plist_def)
  then have "pm_index m (?ps ! i) = Inr (ds ! i)" if "i < length ?ps" for i
    using d assms(1) that by (simp add: pm_index_def wf_pmap_def)
  with d(1) show ?thesis by (intro nth_equalityI) auto
qed

text \<open>A successful run, taken apart.\<close>

lemma do_keyshare_parts:
  assumes "do_keyshare fr rng sz pl me t secret pkg r inbox = Some (Inr out)"
    and "keyshare_broadcast fr rng sz me t secret pkg r inbox = Inr m" "ki_commitments inbox = Inr received"
  obtains key old sids k2 hashes full vec own shares share pk where
    "assert_keyshare_inputs me secret pkg = Inr (key, old)" "ki_session_ids inbox = Inr sids"
    "keyshare_round2 fr rng sz me t secret old sids (snd (rng_session_id rng r)) = Inr k2"
    "m = (k2_commitment k2, k2_proof k2)"
    "collect_commitments fr k2 t old hashes received (pl_others pl me)
       (pm_put me (full_commitment t m) (participant_map_new pl)) = Inr full"
    "pm_vec_or_none full = Some vec" "public_key_from_commitments fr vec = Inr (pk)"
    "case key of None \<Rightarrow> True | Some old \<Rightarrow> old = pk"
    "poly_eval_at_participant fr (k2_secret_coefficients k2) me = Inr own"
    "recv_from_others pl me (ki_shares inbox) = Some (Inr shares)"
    "collect_shares fr me full shares own = Inr share" "out = \<lparr>ko_private_share = share, ko_public_key = pk\<rparr>"
  using assms unfolding do_keyshare_def keyshare_broadcast_def full_commitment_def
  by (auto simp: res_simps Let_def case_prod_unfold split del: if_split)

text \<open>The commitment of a participant as it was delivered.\<close>

definition delivered :: "nat \<Rightarrow> ('g :: ab_group_add list \<times> ('s, 'g) signature_rz option) participant_map \<Rightarrow> nat \<Rightarrow> 'g list" where
  "delivered t received p = full_commitment t (projr (pm_index received p))"

lemma others_checked:
  assumes "do_keyshare fr rng sz pl me t secret pkg r inbox = Some (Inr out)"
    and "keyshare_broadcast fr rng sz me t secret pkg r inbox = Inr m" "ki_commitments inbox = Inr received"
    and "p \<in> set (pl_participants pl)" "p \<noteq> me"
  shows "\<exists>e. pm_index received p = Inr e \<and> sized_message t e"
proof -
  obtain k2 old hashes full where "collect_commitments fr k2 t old hashes received (pl_others pl me)
       (pm_put me (full_commitment t m) (participant_map_new pl)) = Inr full"
    using do_keyshare_parts [OF assms(1-3)] by metis
  moreover have "p \<in> set (pl_others pl me)" using assms(4,5) by (simp add: pl_others_def)
  ultimately show ?thesis using collect_commitments_Inr by blast
qed

lemma full_map_index:
  assumes "wf_plist pl" "me \<in> set (pl_participants pl)"
    and "collect_commitments fr k2 t old hashes received (pl_others pl me)
       (pm_put me (full_commitment t m) (participant_map_new pl)) = Inr full"
    and "pm_index received me = Inr m"
  shows "wf_pmap full" "pm_participants full = pl"
    "\<forall>p \<in> set (pl_participants pl). pm_index full p = Inr (delivered t received p)"
proof -
  let ?start = "pm_put me (full_commitment t m) (participant_map_new pl)"
  let ?put = "\<lambda>(p, d). pm_put p d"
  obtain e where e: "\<forall>p \<in> set (pl_others pl me). pm_index received p = Inr (e p) \<and> sized_message t (e p)"
      "full = fold ?put (map (\<lambda>p. (p, full_commitment t (e p))) (pl_others pl me)) ?start"
    using collect_commitments_Inr [OF assms(3)] by blast
  let ?es = "map (\<lambda>p. (p, full_commitment t (e p))) (pl_others pl me)"
  note put = pm_put_cases [OF new_wf(3) [OF assms(1)], of me "full_commitment t m"]
  have start: "wf_pmap ?start" "pm_participants ?start = pl" "mapped ?start = {me}"
      "pm_index ?start me = Inr (full_commitment t m)"
    using put assms(1,2) by (auto simp: new_wf)
  have "distinct (map fst ?es)" using assms(1) by (simp add: comp_def pl_others_def wf_plist_def)
  note idx = pm_index_fold [OF start(1) this, folded e(2), unfolded start]
  show "wf_pmap full" using maps.inv_fold [OF start(1), of ?es] by (simp add: e(2))
  show "pm_participants full = pl"
    using start by (simp add: e(2) pm_participants_fold)
  show "\<forall>p \<in> set (pl_participants pl). pm_index full p = Inr (delivered t received p)"
  proof
    fix p assume p: "p \<in> set (pl_participants pl)"
    show "pm_index full p = Inr (delivered t received p)"
    proof (cases "p = me")
      case True
      then show ?thesis using idx [of me] start(4) assms(4) by (simp add: delivered_def)
    next
      case False
      then have o: "p \<in> set (pl_others pl me)" using p by (simp add: pl_others_def)
      then have "map_of ?es p = Some (full_commitment t (e p))" by (simp add: map_of_map_restrict restrict_map_def)
      moreover have "p \<in> fst ` set ?es" using o by force
      ultimately show ?thesis using idx [of p] p False e(1) o by (simp add: delivered_def)
    qed
  qed
qed

lemma sum_distinct_fst:
  "distinct (map fst xs) \<Longrightarrow> sum_list (map (\<lambda>(p, _). f p) xs) = (\<Sum>p \<in> fst ` set xs. f p)"
  using sum.distinct_set_conv_list [of "map fst xs" f] by (simp add: comp_def case_prod_unfold)

lemma suite_mul_sum_list:
  "suite_laws cs \<Longrightarrow> cs_mul cs g (sum_list (map f xs)) = sum_list (map (\<lambda>x. cs_mul cs g (f x)) xs)"
  by (induction xs) (auto simp: suite_mul)

lemma validated_share:
  assumes "frost_laws fr" "me < 2 ^ 32" "c \<noteq> []" "validate_received_share fr me p s c = Inr ()"
  shows "cs_mul fr (cs_generator fr) s = ghorner fr c (pscalar me)"
  using assms suite_pscalar [OF frost_suite_laws [OF assms(1)] assms(2)]
  by (auto simp: validate_received_share_def res_simps frost_laws_def split: if_splits share_verdict.splits)

text \<open>What a participant that returns has checked of its own share and of the key.\<close>

lemma keyshare_consistent:
  assumes laws: "frost_laws fr" and pl: "u32_plist pl" "me \<in> set (pl_participants pl)" and t: "0 < t"
    and run: "do_keyshare fr rng sz pl me t secret pkg r inbox = Some (Inr out)"
    and own: "keyshare_broadcast fr rng sz me t secret pkg r inbox = Inr m" "ki_commitments inbox = Inr received"
      "pm_index received me = Inr m" "sized_message t m"
  shows "cs_mul fr (cs_generator fr) (ko_private_share out) =
      (\<Sum>p \<in> set (pl_participants pl). ghorner fr (delivered t received p) (pscalar me))"
    "ko_public_key out = (\<Sum>p \<in> set (pl_participants pl). delivered t received p ! 0)"
    "pkg = Some (old_key, old_pl) \<Longrightarrow> ko_public_key out = old_key"
    "\<forall>p \<in> set (pl_participants pl). length (delivered t received p) = t"
proof -
  let ?G = "cs_mul fr (cs_generator fr)" and ?ps = "pl_participants pl" and ?C = "delivered t received"
  note sl = frost_suite_laws [OF laws]
  have w: "wf_plist pl" "me < 2 ^ 32" "distinct ?ps" using pl by (auto simp: u32_plist_def wf_plist_def)
  obtain key old sids k2 hashes full vec s0 shares share pk where parts:
    "assert_keyshare_inputs me secret pkg = Inr (key, old)" "ki_session_ids inbox = Inr sids"
    "keyshare_round2 fr rng sz me t secret old sids (snd (rng_session_id rng r)) = Inr k2"
    "m = (k2_commitment k2, k2_proof k2)"
    "collect_commitments fr k2 t old hashes received (pl_others pl me)
       (pm_put me (full_commitment t m) (participant_map_new pl)) = Inr full"
    "pm_vec_or_none full = Some vec" "public_key_from_commitments fr vec = Inr pk"
    "case key of None \<Rightarrow> True | Some old \<Rightarrow> old = pk"
    "poly_eval_at_participant fr (k2_secret_coefficients k2) me = Inr s0"
    "recv_from_others pl me (ki_shares inbox) = Some (Inr shares)"
    "collect_shares fr me full shares s0 = Inr share" "out = \<lparr>ko_private_share = share, ko_public_key = pk\<rparr>"
    by (rule do_keyshare_parts [OF run own(1,2)])
  note full = full_map_index [OF w(1) pl(2) parts(5) own(3)]
  have len: "length (?C p) = t" if "p \<in> set ?ps" for p
  proof (cases "p = me")
    case True then show ?thesis using own(3,4) t by (simp add: delivered_def sized_full)
  next
    case False
    then show ?thesis
      using others_checked [OF run own(1,2) that] sized_full [OF _ t] by (fastforce simp: delivered_def)
  qed
  then show "\<forall>p \<in> set ?ps. length (?C p) = t" by blast
  have vec: "vec = map ?C ?ps" using pm_vec_index [OF full(1) parts(6)] full(2,3) by simp
  have "vec \<noteq> []" "\<forall>c \<in> set vec. length c = t" unfolding vec using pl(2) len by auto
  then have "fr_sum_commitments fr vec = Some (map (\<lambda>k. sum_list (map (\<lambda>c. c ! k) vec)) [0..<t])"
    using laws unfolding frost_laws_def by blast
  then have "pk = sum_list (map (\<lambda>c. c ! 0) vec)"
    using parts(7) t laws by (auto simp: public_key_from_commitments_def res_simps frost_laws_def upt_conv_Cons)
  then show "ko_public_key out = (\<Sum>p \<in> set ?ps. ?C p ! 0)"
    using w(3) by (simp add: parts(12) vec comp_def sum.distinct_set_conv_list)
  show "pkg = Some (old_key, old_pl) \<Longrightarrow> ko_public_key out = old_key"
    using parts(1,8) by (auto simp: assert_keyshare_inputs_def parts(12) split: if_splits)
  have "s0 = horner (own_coefficients k2) (pscalar me)"
    using parts(9) suite_pscalar [OF sl w(2)] keyshare_round2_Inr(1) [OF parts(3) sl]
    by (auto simp: poly_eval_at_participant_def poly_eval_at_point_eq own_coefficients_def)
  then have s0: "?G s0 = ghorner fr (?C me) (pscalar me)"
    using own_full_commitment [OF parts(3) sl t parts(1)] own(3,4) parts(4)
    by (simp add: delivered_def ghorner_generator [OF sl])
  note rc = recv_from_others_Inr [OF parts(10) w(1)] and cs = collect_shares_Inr [OF parts(11)]
  have each: "?G s = ghorner fr (?C p) (pscalar me)" if "(p, s) \<in> set shares" for p s
  proof -
    have p: "p \<in> set ?ps" using that rc(2) by force
    moreover have "?C p \<noteq> []" using len [OF p] t by auto
    ultimately show ?thesis using cs that full(3) validated_share [OF laws w(2)] by fastforce
  qed
  have "?G (sum_list (map snd shares)) = sum_list (map (\<lambda>(p, _). ghorner fr (?C p) (pscalar me)) shares)"
    unfolding suite_mul_sum_list [OF sl] using each by (intro arg_cong [of _ _ sum_list] map_cong) auto
  then have "?G (sum_list (map snd shares)) = (\<Sum>p \<in> set ?ps - {me}. ghorner fr (?C p) (pscalar me))"
    unfolding sum_distinct_fst [OF rc(1)] rc(2) .
  then show "?G (ko_private_share out) = (\<Sum>p \<in> set ?ps. ghorner fr (?C p) (pscalar me))"
    using cs s0 sum.remove [OF _ pl(2), of "\<lambda>p. ghorner fr (?C p) (pscalar me)"]
    by (simp add: parts(12) suite_mul [OF sl])
qed

section \<open>A threshold of participants holds the key\<close>

lemma eval_interpolation_sum:
  assumes "distinct (map g qs :: 's :: field list)" "2 \<le> length qs" "length qs \<le> 2 ^ 32"
  shows "eval_interpolation (map g qs) (map f qs) x =
    Inr (\<Sum>q \<in> set qs. lagrange_basis (g ` set qs) (g q) (point_or_zero x) * f q)"
proof -
  have "distinct qs" using assms(1) by (simp add: distinct_map)
  then show ?thesis
    using batch_lagrange_eq [OF assms(1), of x] assms(2,3)
    by (simp add: eval_interpolation_def fold_zip_sum comp_def weighted_sum)
qed

lemma interpolated_commitments:
  assumes sl: "suite_laws cs" and S: "finite S" and len: "\<forall>p \<in> P. length (C p) \<le> card S"
  shows "(\<Sum>y\<in>S. cs_mul cs (\<Sum>p\<in>P. ghorner cs (C p) y) (lagrange_basis S y x)) = (\<Sum>p\<in>P. ghorner cs (C p) x)"
proof -
  have "(\<Sum>y\<in>S. cs_mul cs (\<Sum>p\<in>P. ghorner cs (C p) y) (lagrange_basis S y x)) =
      (\<Sum>p\<in>P. \<Sum>y\<in>S. cs_mul cs (ghorner cs (C p) y) (lagrange_basis S y x))"
    by (simp add: suite_mul_sum(2) [OF sl]) (rule sum.swap)
  also have "\<dots> = (\<Sum>p\<in>P. ghorner cs (C p) x)"
    using ghorner_interpolation [OF sl S] len by simp
  finally show ?thesis .
qed

lemma ghorner_zero: "suite_laws cs \<Longrightarrow> as \<noteq> [] \<Longrightarrow> ghorner cs as 0 = as ! 0"
  by (cases as) (auto simp: suite_mul)

lemma other_member: "distinct Q \<Longrightarrow> 2 \<le> length Q \<Longrightarrow> \<exists>q \<in> set Q. q \<noteq> p"
  by (cases Q; cases "tl Q") auto

lemma shares_interpolate:
  fixes cs :: "('s :: field, 'g :: ab_group_add, 'm) ciphersuite_scheme"
  assumes sl: "suite_laws cs" and d: "distinct (map pscalar Q :: 's list)"
    and n: "2 \<le> length Q" "length Q \<le> 2 ^ 32"
    and C: "\<forall>p \<in> P. C p \<noteq> [] \<and> length (C p) \<le> length Q"
    and s: "\<forall>q \<in> set Q. cs_mul cs (cs_generator cs) (s q) = (\<Sum>p \<in> P. ghorner cs (C p) (pscalar q))"
  shows "\<exists>x. eval_interpolation (map pscalar Q) (map s Q) None = Inr x \<and>
    cs_mul cs (cs_generator cs) x = (\<Sum>p \<in> P. C p ! 0)"
proof -
  let ?G = "cs_mul cs (cs_generator cs)" and ?S = "pscalar ` set Q :: 's set"
  let ?F = "\<lambda>x. \<Sum>p \<in> P. ghorner cs (C p) x" and ?L = "\<lambda>y. lagrange_basis ?S y 0"
  let ?x = "\<Sum>q \<in> set Q. ?L (pscalar q) * s q"
  have "card ?S = length Q" using d by (metis distinct_card length_map list.set_map)
  then have C': "\<forall>p \<in> P. length (C p) \<le> card ?S" using C by simp
  have "?G ?x = (\<Sum>q \<in> set Q. cs_mul cs (?G (s q)) (?L (pscalar q)))"
    by (simp add: suite_mul_sum(1) [OF sl] suite_mul(3) [OF sl] mult.commute)
  also have "\<dots> = (\<Sum>q \<in> set Q. cs_mul cs (?F (pscalar q)) (?L (pscalar q)))"
    using s by (intro sum.cong) auto
  also have "\<dots> = (\<Sum>y \<in> ?S. cs_mul cs (?F y) (?L y))"
    using d by (subst sum.reindex) (simp_all add: distinct_map)
  also have "\<dots> = ?F 0" by (rule interpolated_commitments [OF sl _ C']) simp
  also have "\<dots> = (\<Sum>p \<in> P. C p ! 0)" using C by (intro sum.cong) (auto simp: ghorner_zero [OF sl])
  finally have "?G ?x = (\<Sum>p \<in> P. C p ! 0)" .
  moreover have "eval_interpolation (map pscalar Q) (map s Q) None = Inr ?x"
    using eval_interpolation_sum [OF d n, of s None] by (simp add: point_or_zero_def)
  ultimately show ?thesis by blast
qed

lemma distinct_u32_length:
  fixes qs :: "nat list"
  assumes "distinct qs" "\<forall>p \<in> set qs. p < 2 ^ 32"
  shows "length qs \<le> (2 :: nat) ^ 32"
proof -
  have "length qs = card (set qs)" using assms(1) by (simp add: distinct_card)
  also have "\<dots> \<le> card {..< 2 ^ 32 :: nat}" using assms(2) by (intro card_mono) auto
  finally show ?thesis by simp
qed

text \<open>
  Whatever the other participants do, a threshold of honest participants holds the secret key. Take any
  set of participants, at least \<open>t\<close> of them, that complete key generation or resharing, were delivered
  the same commitments by the reliable broadcast, and were delivered their own as they sent them. Then
  they return the same public key, their private shares interpolate to a scalar, and that scalar times
  the generator is the public key. When the run is a resharing, that key is the old one.
\<close>

lemma shares_hold_key:
  fixes fr :: "('s :: field, 'g :: ab_group_add, 'm) frost_suite_scheme"
  assumes laws: "frost_laws fr" and pl: "u32_plist pl" and t: "2 \<le> t"
    and Q: "distinct Q" "set Q \<subseteq> set (pl_participants pl)" "t \<le> length Q"
    and run: "\<forall>p \<in> set Q. do_keyshare fr rng sz pl p t (secret p) pkg (r p) (inbox p) = Some (Inr (out p))"
    and agree: "\<forall>p \<in> set Q. ki_commitments (inbox p) = Inr received"
    and own: "\<forall>p \<in> set Q. keyshare_broadcast fr rng sz p t (secret p) pkg (r p) (inbox p) = pm_index received p"
      "\<forall>p \<in> set Q. is_ok (pm_index received p)"
  shows "\<exists>x. eval_interpolation (map pscalar Q) (map (\<lambda>p. ko_private_share (out p)) Q) None = Inr x \<and>
    (\<forall>p \<in> set Q. ko_public_key (out p) = cs_mul fr (cs_generator fr) x) \<and>
    (case pkg of None \<Rightarrow> True | Some (old_key, _) \<Rightarrow> cs_mul fr (cs_generator fr) x = old_key)"
proof -
  let ?G = "cs_mul fr (cs_generator fr)" and ?C = "delivered t received" and ?P = "set (pl_participants pl)"
  note sl = frost_suite_laws [OF laws]
  have lt: "\<forall>p \<in> set Q. p < 2 ^ 32" using Q(2) pl by (auto simp: u32_plist_def)
  have d: "distinct (map pscalar Q :: 's list)" using distinct_pscalars [OF sl Q(1) lt] .
  have n: "2 \<le> length Q" "length Q \<le> 2 ^ 32" using Q(3) t distinct_u32_length [OF Q(1) lt] by auto
  have cons: "?G (ko_private_share (out p)) = (\<Sum>q \<in> ?P. ghorner fr (?C q) (pscalar p)) \<and>
      ko_public_key (out p) = (\<Sum>q \<in> ?P. ?C q ! 0) \<and> (\<forall>q \<in> ?P. length (?C q) = t) \<and>
      (\<forall>k o'. pkg = Some (k, o') \<longrightarrow> ko_public_key (out p) = k)" if p: "p \<in> set Q" for p
  proof -
    obtain m where m: "pm_index received p = Inr m" using own(2) p by (auto simp: is_ok_iff)
    obtain q where q: "q \<in> set Q" "q \<noteq> p" using other_member [OF Q(1) n(1)] by blast
    obtain mq where mq: "keyshare_broadcast fr rng sz q t (secret q) pkg (r q) (inbox q) = Inr mq"
      using own q(1) by (auto simp: is_ok_iff)
    have here: "p \<in> ?P" "0 < t" "ki_commitments (inbox p) = Inr received" "ki_commitments (inbox q) = Inr received"
      "do_keyshare fr rng sz pl p t (secret p) pkg (r p) (inbox p) = Some (Inr (out p))"
      "do_keyshare fr rng sz pl q t (secret q) pkg (r q) (inbox q) = Some (Inr (out q))"
      "keyshare_broadcast fr rng sz p t (secret p) pkg (r p) (inbox p) = Inr m"
      using p q Q(2) t agree run own(1) m by auto
    have "sized_message t m" using others_checked [OF here(6) mq here(4,1)] q(2) m by auto
    from keyshare_consistent [OF laws pl here(1,2,5,7,3) m this] show ?thesis by blast
  qed
  obtain p0 where p0: "p0 \<in> set Q" using n(1) by (cases Q) auto
  have C: "\<forall>p \<in> ?P. ?C p \<noteq> [] \<and> length (?C p) \<le> length Q" using cons [OF p0] t Q(3) by auto
  obtain x where "eval_interpolation (map pscalar Q) (map (\<lambda>p. ko_private_share (out p)) Q) None = Inr x"
      "?G x = (\<Sum>q \<in> ?P. ?C q ! 0)"
    using shares_interpolate [OF sl d n C, of "\<lambda>p. ko_private_share (out p)"] cons by blast
  with cons cons [OF p0] show ?thesis by (intro exI [of _ x]) (auto split: option.splits)
qed

text \<open>
  A run of two participants over the rationals: their secrets are 5 and 7, their polynomials
  \<open>5 + 2x\<close> and \<open>7 + 3x\<close>, so the key is 12 and the shares are the values of \<open>12 + 5x\<close> at 1 and 2.
\<close>

definition rat_frost :: "(rat, rat) frost_suite" where
  "rat_frost = ciphersuite.extend rat_suite (frost_suite.fields
     (\<lambda>x. if x = 0 then None else Some x)
     (\<lambda>pid s c. if s = foldr (\<lambda>a v. v * pid + a) c 0 then ShareValid else ShareInvalid)
     (\<lambda>cs. case cs of [] \<Rightarrow> None
       | c # _ \<Rightarrow> Some (map (\<lambda>k. sum_list (map (\<lambda>c. c ! k) cs)) [0..<length c]))
     (\<lambda>c. case c of [] \<Rightarrow> None | a # _ \<Rightarrow> Some a)
     (\<lambda>_. []) (\<lambda>_ _. Some []) (\<lambda>_ _. Some []))"

lemma rat_frost_fields [simp]:
  "cs_mul rat_frost = (*)" "cs_generator rat_frost = 1" "cs_HDKG rat_frost bs = Some (of_nat (length bs))"
  "cs_serialize_scalar rat_frost s = [0]" "cs_serialize_element rat_frost g = (if g = 0 then None else Some [1])"
  "fr_identifier_new rat_frost x = (if x = 0 then None else Some x)"
  "fr_share_verify rat_frost pid s c = (if s = foldr (\<lambda>a v. v * pid + a) c 0 then ShareValid else ShareInvalid)"
  "fr_sum_commitments rat_frost cs = (case cs of [] \<Rightarrow> None
     | c # _ \<Rightarrow> Some (map (\<lambda>k. sum_list (map (\<lambda>c. c ! k) cs)) [0..<length c]))"
  "fr_key_from_commitment rat_frost c = (case c of [] \<Rightarrow> None | a # _ \<Rightarrow> Some a)"
  "fr_sha256 rat_frost bs = []" "fr_encode_sessions rat_frost n d = Some []" "fr_encode_commitment rat_frost n e = Some []"
  by (simp_all add: rat_frost_def rat_suite_def ciphersuite.defs frost_suite.defs)

lemma rat_frost_scalar: "p < 2 ^ 32 \<Longrightarrow> participant_scalar rat_frost p = Inr (of_nat (p + 1))"
  using rat_suite_scalar [of p]
  by (simp add: participant_scalar_def rat_frost_def rat_suite_def ciphersuite.defs)

lemma rat_frost_laws: "frost_laws rat_frost"
proof -
  have "vector_space (\<lambda>s g. cs_mul rat_frost g s)" by unfold_locales (auto simp: algebra_simps)
  then have "suite_laws rat_frost" using rat_frost_scalar unfolding suite_laws_def by auto
  then show ?thesis
    by (auto simp: frost_laws_def ghorner_def hd_conv_nth neq_Nil_conv split: list.splits)
qed

definition rat_rng :: "(rat list, rat, rat) rng_ops" where
  "rat_rng = \<lparr>rng_scalar = (\<lambda>r. (hd r, tl r)), rng_session_id = (\<lambda>r. ([], r)),
     rng_nonce = (\<lambda>r. ((1, 1), r)), rng_signing_key = (\<lambda>r. (hd r, tl r))\<rparr>"

definition ex_plist :: participant_list where
  "ex_plist = \<lparr>pl_participants = [0, 1], pl_indices = [(0, 0), (1, 1)]\<rparr>"

definition ex_received :: "(rat list \<times> (rat, rat) signature_rz option) participant_map" where
  "ex_received = \<lparr>pm_participants = ex_plist,
     pm_data = [Some ([5, 2], Some \<lparr>sig_R = 1, sig_z = 36\<rparr>), Some ([7, 3], Some \<lparr>sig_R = 1, sig_z = 50\<rparr>)], pm_count = 2\<rparr>"

definition ex_inbox :: "nat \<Rightarrow> (rat, rat) keyshare_inbox" where
  "ex_inbox p = \<lparr>
     ki_session_ids = Inr \<lparr>pm_participants = ex_plist, pm_data = [Some [], Some []], pm_count = 2\<rparr>,
     ki_hashes = [Inr (1 - p, [])], ki_commitments = Inr ex_received,
     ki_shares = [Inr (1 - p, if p = 0 then 10 else 9)],
     ki_votes = Inr \<lparr>pm_participants = ex_plist, pm_data = [Some (True, []), Some (True, [])], pm_count = 2\<rparr>\<rparr>"

definition ex_secret :: "nat \<Rightarrow> rat" where
  "ex_secret p = (if p = 0 then 5 else 7)"

definition ex_coins :: "nat \<Rightarrow> rat list" where
  "ex_coins p = (if p = 0 then [2] else [3])"

definition ex_out :: "nat \<Rightarrow> (rat, rat) keygen_output" where
  "ex_out p = \<lparr>ko_private_share = if p = 0 then 17 else 22, ko_public_key = 12\<rparr>"

lemma less_2_cases_iff': "p < 2 \<longleftrightarrow> p = 0 \<or> p = (1 :: nat)"
  by auto

lemma ex_plist_wf: "u32_plist ex_plist"
proof -
  have "participant_list_new [0, 1] = Some ex_plist"
    by (simp add: participant_list_new_def ex_plist_def)
  then show ?thesis using participant_list_new_wf by (auto simp: u32_plist_def ex_plist_def)
qed

lemmas ex_defs = rat_rng_def ex_secret_def ex_coins_def checked_add_def checked_sub_def checked_mul_def Let_def

lemma ex_polynomial:
  "p < 2 \<Longrightarrow> generate_polynomial (rng_scalar rat_rng) 32 (Some (ex_secret p)) 1 (ex_coins p) =
    Inr (\<lparr>poly_coefficients = if p = 0 then [5, 2] else [7, 3]\<rparr>, [])"
  unfolding less_2_cases_iff' by (elim disjE) (simp_all add: generate_polynomial_def ex_defs polynomial_new_def)

lemma ex_commitment:
  "p < (2 :: nat) \<Longrightarrow> generate_coefficient_commitment rat_frost \<lparr>poly_coefficients = if p = 0 then [5, 2] else [7, 3]\<rparr> =
    Inr \<lparr>pc_coefficients = if p = 0 then [5, 2] else [7, 3]\<rparr>"
  unfolding less_2_cases_iff'
  by (elim disjE) (simp_all add: generate_coefficient_commitment_def polynomial_new_def commit_polynomial_def commitment_new_def)

lemma ex_proof:
  "p < 2 \<Longrightarrow> proof_of_knowledge rat_frost rat_rng [] 1 p \<lparr>poly_coefficients = if p = 0 then [5, 2] else [7, 3]\<rparr>
      \<lparr>pc_coefficients = if p = 0 then [5, 2] else [7, 3]\<rparr> r =
    Inr (2, if p = 0 then \<lparr>sig_R = 1, sig_z = 36\<rparr> else \<lparr>sig_R = 1, sig_z = 50\<rparr>, r)"
  unfolding less_2_cases_iff'
  by (elim disjE) (simp_all add: proof_of_knowledge_def rat_frost_scalar commitment_eval_at_zero_def ex_defs
    dkg_challenge_def ds_increment_def poly_eval_at_zero_def)

lemma ex_round2:
  "p < 2 \<Longrightarrow> keyshare_round2 rat_frost rat_rng 32 p 2 (ex_secret p) None
      \<lparr>pm_participants = ex_plist, pm_data = [Some [], Some []], pm_count = 2\<rparr> (ex_coins p) =
    Inr \<lparr>k2_session_id = [], k2_secret_coefficients = \<lparr>poly_coefficients = if p = 0 then [5, 2] else [7, 3]\<rparr>,
      k2_commitment = if p = 0 then [5, 2] else [7, 3],
      k2_proof = Some (if p = 0 then \<lparr>sig_R = 1, sig_z = 36\<rparr> else \<lparr>sig_R = 1, sig_z = 50\<rparr>),
      k2_proof_ds = 1, k2_commit_ds = 2, k2_commitment_hash = []\<rparr>"
  using ex_polynomial [of p] ex_commitment [of p] ex_proof [of p "[]"]
  by (simp add: keyshare_round2_def domain_separate_hash_def ds_increment_def hash_value_def checked_add_def
    checked_sub_def Let_def)

lemma ex_recv:
  "p < 2 \<Longrightarrow> recv_from_others ex_plist p [Inr (1 - p, x)] = Some (Inr [(1 - p, x)])"
  unfolding less_2_cases_iff'
  by (elim disjE) (simp_all add: recv_from_others_def recv_loop.simps pco_put_def participant_counter_new_def ex_plist_def
    pl_len_def pco_full_def)

lemma ex_collect:
  "p < 2 \<Longrightarrow> collect_commitments rat_frost \<lparr>k2_session_id = [], k2_secret_coefficients = cs, k2_commitment = c,
      k2_proof = pr, k2_proof_ds = 1, k2_commit_ds = 2, k2_commitment_hash = []\<rparr> 2 None
      (fold (\<lambda>(p, h). pm_put p h) [(1 - p, [])] (pm_put p [] (participant_map_new ex_plist))) ex_received
      (pl_others ex_plist p) (pm_put p (insert_identity_if_missing 2 (if p = 0 then [5, 2] else [7, 3])) (participant_map_new ex_plist))
    = Inr \<lparr>pm_participants = ex_plist, pm_data = [Some [5, 2], Some [7, 3]], pm_count = 2\<rparr>"
  unfolding less_2_cases_iff'
  by (elim disjE) (simp_all add: pl_others_def ex_plist_def pm_put_def participant_map_new_def ex_received_def pm_index_def
    pl_index_def verify_proof_of_knowledge_def internal_verify_proof_of_knowledge_def rat_frost_scalar dkg_challenge_def
    ds_increment_def checked_add_def verify_commitment_hash_def domain_separate_hash_def hash_value_def
    insert_identity_if_missing_def)

lemma ex_shares:
  "p < 2 \<Longrightarrow> collect_shares rat_frost p \<lparr>pm_participants = ex_plist, pm_data = [Some [5, 2], Some [7, 3]], pm_count = 2\<rparr>
      [(1 - p, if p = 0 then 10 else 9)] (if p = 0 then 7 else 13) = Inr (if p = 0 then 17 else 22)"
  unfolding less_2_cases_iff'
  by (elim disjE) (simp_all add: pm_index_def pl_index_def ex_plist_def validate_received_share_def rat_frost_scalar)

lemma ex_evaluation:
  "p < 2 \<Longrightarrow> q < 2 \<Longrightarrow> poly_eval_at_participant rat_frost \<lparr>poly_coefficients = if p = 0 then [5, 2] else [7, 3]\<rparr> q =
    Inr (if p = 0 then if q = 0 then 7 else 9 else if q = 0 then 10 else 13)"
  unfolding less_2_cases_iff'
  by (elim disjE) (simp_all add: poly_eval_at_participant_def rat_frost_scalar poly_eval_at_point_def)

lemma ex_received_index:
  "p < 2 \<Longrightarrow> pm_index ex_received p = Inr (if p = 0 then [5, 2] else [7, 3],
    Some (if p = 0 then \<lparr>sig_R = 1, sig_z = 36\<rparr> else \<lparr>sig_R = 1, sig_z = 50\<rparr>))"
  unfolding less_2_cases_iff' by (elim disjE) (simp_all add: pm_index_def pl_index_def ex_received_def ex_plist_def)

lemma ex_run:
  assumes "p < 2"
  shows "do_keyshare rat_frost rat_rng 32 ex_plist p 2 (ex_secret p) None (ex_coins p) (ex_inbox p) = Some (Inr (ex_out p))"
    "keyshare_broadcast rat_frost rat_rng 32 p 2 (ex_secret p) None (ex_coins p) (ex_inbox p) = pm_index ex_received p"
proof -
  have a: "assert_keyshare_inputs p (ex_secret p) None = Inr (None, None)"
    by (simp add: assert_keyshare_inputs_def ex_secret_def)
  have sid: "rng_session_id rat_rng (ex_coins p) = ([], ex_coins p)" by (simp add: rat_rng_def)
  show "keyshare_broadcast rat_frost rat_rng 32 p 2 (ex_secret p) None (ex_coins p) (ex_inbox p) = pm_index ex_received p"
    using ex_round2 [OF assms] ex_received_index [OF assms] unfolding keyshare_broadcast_def a sid
    by (simp add: ex_inbox_def)
  have pk: "public_key_from_commitments rat_frost [[5, 2], [7, 3]] = Inr 12"
    by (simp add: public_key_from_commitments_def upt_rec)
  have others: "shares_to_send rat_frost \<lparr>poly_coefficients = if p = 0 then [5, 2] else [7, 3]\<rparr> (pl_others ex_plist p) =
      Inr [(1 - p, if p = 0 then 9 else 10)]"
    using assms ex_evaluation [of p "1 - p"] by (auto simp: pl_others_def ex_plist_def less_2_cases_iff')
  show "do_keyshare rat_frost rat_rng 32 ex_plist p 2 (ex_secret p) None (ex_coins p) (ex_inbox p) = Some (Inr (ex_out p))"
    unfolding do_keyshare_def a sid using assms ex_shares [of 0] ex_shares [of 1]
    by (simp add: await_def ex_inbox_def Let_def pm_vec_or_none_def broadcast_success_def ex_out_def ex_recv [OF assms]
      ex_collect [OF assms, unfolded fold.simps comp_def id_def prod.case] ex_evaluation [OF assms assms] ex_round2 [OF assms] others pk
      del: One_nat_def collect_shares.simps) (auto simp: less_2_cases_iff' simp del: One_nat_def collect_shares.simps)
qed

end
