(* ===== verification/EchoBroadcast.thy ===== *)
theory EchoBroadcast
  imports ParticipantLists
begin

text \<open>
  The reliable broadcast that key generation relies on
  (\<^verbatim>\<open>crates/threshold-signatures/src/protocol/echo_broadcast.rs\<close>). Every participant is the sender of one
  session; all sessions run at once. \<open>handle_vote\<close> is the body of the loop of
  \<^verbatim>\<open>reliable_broadcast_receive_all\<close> for one vote, received or simulated. A system is a family of such
  loops over a network that reorders, repeats and drops messages and in which fewer than a third of the
  participants may send anything to anybody. Agreement and integrity are proved for every reachable state.
\<close>

section \<open>Votes and counters\<close>

datatype 't message_type = Send 't | Echo 't | Ready 't

type_synonym 't counter_list = "('t \<times> nat) list"

fun insert_or_increase_counter :: "'t \<Rightarrow> 't counter_list \<Rightarrow> 't counter_list" where
  "insert_or_increase_counter item [] = [(item, 1)]"
| "insert_or_increase_counter item ((e, count) # rest) =
     (if e = item then (e, count + 1) # rest else (e, count) # insert_or_increase_counter item rest)"

fun counter_get :: "'t counter_list \<Rightarrow> 't \<Rightarrow> nat option" where
  "counter_get [] item = None"
| "counter_get ((e, count) # rest) item = (if e = item then Some count else counter_get rest item)"

definition get_sum_counters :: "'t counter_list \<Rightarrow> nat" where
  "get_sum_counters self = fold (\<lambda>(_, cnt) sum. sum + cnt) self 0"

definition echo_ready_thresholds :: "nat \<Rightarrow> nat \<times> nat" where
  "echo_ready_thresholds n =
     (if n \<le> 3 then (0, 0)
      else let broadcast_threshold = (n - 1) div 3; echo_threshold = (n + broadcast_threshold) div 2
           in (echo_threshold, broadcast_threshold))"

section \<open>The state of a session\<close>

record 't broadcast_protocol_state =
  bs_data_echo :: "'t counter_list"
  bs_data_ready :: "'t counter_list"
  bs_seen_echo :: participant_counter
  bs_seen_ready :: participant_counter
  bs_finish_send :: bool
  bs_finish_echo :: bool
  bs_finish_amplification :: bool
  bs_finish_ready :: bool

definition broadcast_state_new :: "participant_list \<Rightarrow> 't broadcast_protocol_state" where
  "broadcast_state_new participants = \<lparr>bs_data_echo = [], bs_data_ready = [],
     bs_seen_echo = participant_counter_new participants, bs_seen_ready = participant_counter_new participants,
     bs_finish_send = False, bs_finish_echo = False, bs_finish_amplification = False, bs_finish_ready = False\<rparr>"

text \<open>The local variables of the loop: the sessions and the output.\<close>

record 't broadcast_loop =
  bl_state :: "'t broadcast_protocol_state list"
  bl_output :: "'t participant_map"

definition broadcast_loop_new :: "participant_list \<Rightarrow> 't broadcast_loop" where
  "broadcast_loop_new participants = \<lparr>
     bl_state = replicate (pl_len participants) (broadcast_state_new participants),
     bl_output = participant_map_new participants\<rparr>"

text \<open>
  One iteration ends with the new variables, the votes sent to everybody, the vote simulated next (from
  oneself) and, when the function returns, its result.
\<close>

type_synonym 't iteration =
  "'t broadcast_loop \<times> (nat \<times> 't message_type) list \<times> (nat \<times> 't message_type) option \<times> 't participant_map ts_res option"

definition put_session :: "nat \<Rightarrow> 't broadcast_protocol_state \<Rightarrow> 't broadcast_loop \<Rightarrow> 't broadcast_loop" where
  "put_session sid st bl = bl\<lparr>bl_state := (bl_state bl)[sid := st]\<rparr>"

definition handle_send ::
    "participant_list \<Rightarrow> 't broadcast_loop \<Rightarrow> nat \<Rightarrow> nat \<Rightarrow> 't \<Rightarrow> 't iteration" where
  "handle_send participants bl from sid data =
     (let st = bl_state bl ! sid
      in if bs_finish_send st then (bl, [], None, None)
         else case pl_index participants from of
           Inl e \<Rightarrow> (bl, [], None, Some (Inl e))
         | Inr i \<Rightarrow>
             if sid \<noteq> i then (bl, [], None, None)
             else (put_session sid (st\<lparr>bs_finish_send := True\<rparr>) bl, [(sid, Echo data)], Some (sid, Echo data), None))"

definition handle_echo ::
    "participant_list \<Rightarrow> 't broadcast_loop \<Rightarrow> nat \<Rightarrow> nat \<Rightarrow> 't \<Rightarrow> 't iteration" where
  "handle_echo participants bl from sid data =
     (let n = pl_len participants; echo_t = fst (echo_ready_thresholds n); st = bl_state bl ! sid;
          (seen, inserted) = pco_put from (bs_seen_echo st); st = st\<lparr>bs_seen_echo := seen\<rparr>
      in if \<not> inserted \<or> bs_finish_echo st then (put_session sid st bl, [], None, None)
         else
           let st = st\<lparr>bs_data_echo := insert_or_increase_counter data (bs_data_echo st)\<rparr>; bl' = put_session sid st bl
           in case counter_get (bs_data_echo st) data of
                None \<Rightarrow> (bl', [], None, Some (Inl (TsError OtherError)))
              | Some cnt \<Rightarrow>
                  if cnt > echo_t
                  then (put_session sid (st\<lparr>bs_finish_echo := True\<rparr>) bl, [(sid, Ready data)], Some (sid, Ready data), None)
                  else if \<not> bs_finish_amplification st then
                    case checked_sub n (get_sum_counters (bs_data_echo st)) of
                      None \<Rightarrow> (bl', [], None, Some (Inl TsPanic))
                    | Some non_received \<Rightarrow>
                        if list_ex (\<lambda>(_, cnt). cnt + non_received > echo_t) (bs_data_echo st)
                        then (bl', [], None, None)
                        else (bl', [], None, Some (Inl (TsError AssertionFailed)))
                  else (bl', [], None, None))"

text \<open>The second half of the ready branch: what follows once more than \<open>2 * ready_t\<close> votes are in.\<close>

definition deliver ::
    "participant_list \<Rightarrow> nat \<Rightarrow> 't message_type \<Rightarrow> 't broadcast_loop \<Rightarrow> nat \<Rightarrow> 't broadcast_protocol_state \<Rightarrow> 't \<Rightarrow>
     't broadcast_loop \<times> 't participant_map ts_res option" where
  "deliver participants me send_vote bl sid st data =
     (let st = st\<lparr>bs_finish_send := True, bs_finish_echo := True, bs_finish_ready := True\<rparr>
      in case pl_get_participant participants sid of
           None \<Rightarrow> (bl, Some (Inl (TsError OtherError)))
         | Some p \<Rightarrow>
             let bl = (put_session sid st bl)\<lparr>bl_output := pm_put p data (bl_output bl)\<rparr>
             in (bl, case pl_index participants me of
                       Inl e \<Rightarrow> Some (Inl e)
                     | Inr i \<Rightarrow>
                         if sid = i \<and> Send data \<noteq> send_vote then Some (Inl (TsError AssertionFailed))
                         else if list_all bs_finish_ready (bl_state bl) then Some (Inr (bl_output bl)) else None))"

definition handle_ready ::
    "participant_list \<Rightarrow> nat \<Rightarrow> 't message_type \<Rightarrow> 't broadcast_loop \<Rightarrow> nat \<Rightarrow> nat \<Rightarrow> 't \<Rightarrow> 't iteration" where
  "handle_ready participants me send_vote bl from sid data =
     (let ready_t = snd (echo_ready_thresholds (pl_len participants)); st = bl_state bl ! sid;
          (seen, inserted) = pco_put from (bs_seen_ready st); st = st\<lparr>bs_seen_ready := seen\<rparr>
      in if \<not> inserted \<or> bs_finish_ready st then (put_session sid st bl, [], None, None)
         else
           let st = st\<lparr>bs_data_ready := insert_or_increase_counter data (bs_data_ready st)\<rparr>
           in case counter_get (bs_data_ready st) data of
                None \<Rightarrow> (put_session sid st bl, [], None, Some (Inl (TsError OtherError)))
              | Some cnt \<Rightarrow>
                  let amplify = (cnt > ready_t \<and> \<not> bs_finish_amplification st);
                      sent = (if amplify then [(sid, Ready data)] else []);
                      simulated = (if amplify then Some (sid, Ready data) else None);
                      st = (if amplify then st\<lparr>bs_finish_amplification := True\<rparr> else st)
                  in if cnt > 2 * ready_t
                     then let (bl, ret) = deliver participants me send_vote bl sid st data in (bl, sent, simulated, ret)
                     else (put_session sid st bl, sent, simulated, None))"

definition handle_vote ::
    "participant_list \<Rightarrow> nat \<Rightarrow> 't message_type \<Rightarrow> 't broadcast_loop \<Rightarrow> nat \<Rightarrow> nat \<Rightarrow> 't message_type \<Rightarrow> 't iteration" where
  "handle_vote participants me send_vote bl from sid vote =
     (if sid < length (bl_state bl) then
        case vote of
          Send data \<Rightarrow> handle_send participants bl from sid data
        | Echo data \<Rightarrow> handle_echo participants bl from sid data
        | Ready data \<Rightarrow> handle_ready participants me send_vote bl from sid data
      else (bl, [], None, None))"

section \<open>The system\<close>

text \<open>A participant: the variables of its loop, the vote it simulates next, what it has sent, what it has returned.\<close>

record 't broadcast_node =
  bn_loop :: "'t broadcast_loop"
  bn_simulated :: "(nat \<times> 't message_type) option"
  bn_sent :: "(nat \<times> 't message_type) list"
  bn_returned :: "'t participant_map ts_res option"

text \<open>\<^verbatim>\<open>reliable_broadcast_send\<close>, and the loop before its first iteration.\<close>

definition broadcast_node_new :: "participant_list \<Rightarrow> nat \<Rightarrow> 't \<Rightarrow> 't broadcast_node ts_res" where
  "broadcast_node_new participants me data =
     bind_res (pl_index participants me) (\<lambda>sid.
     Inr \<lparr>bn_loop = broadcast_loop_new participants, bn_simulated = Some (sid, Send data),
       bn_sent = [(sid, Send data)], bn_returned = None\<rparr>)"

definition iterate ::
    "participant_list \<Rightarrow> nat \<Rightarrow> 't \<Rightarrow> nat \<Rightarrow> nat \<Rightarrow> 't message_type \<Rightarrow> 't broadcast_node \<Rightarrow> 't broadcast_node" where
  "iterate participants me data from sid vote node =
     (let (bl, sent, simulated, returned) = handle_vote participants me (Send data) (bn_loop node) from sid vote
      in \<lparr>bn_loop = bl, bn_simulated = simulated, bn_sent = bn_sent node @ sent, bn_returned = returned\<rparr>)"

text \<open>
  Steps of the system: a correct participant that has not returned takes its simulated vote if there is
  one, and otherwise any vote from any participant, which a correct one must have sent.
\<close>

inductive broadcast_step ::
    "participant_list \<Rightarrow> nat set \<Rightarrow> (nat \<Rightarrow> 't) \<Rightarrow> (nat \<Rightarrow> 't broadcast_node) \<Rightarrow> (nat \<Rightarrow> 't broadcast_node) \<Rightarrow> bool"
  for pl faulty data where
  bcast_simulated: "p \<in> set (pl_participants pl) - faulty \<Longrightarrow> bn_returned (S p) = None \<Longrightarrow>
     bn_simulated (S p) = Some (sid, vote) \<Longrightarrow>
     broadcast_step pl faulty data S (S(p := iterate pl p (data p) p sid vote (S p)))"
| bcast_received: "p \<in> set (pl_participants pl) - faulty \<Longrightarrow> bn_returned (S p) = None \<Longrightarrow> bn_simulated (S p) = None \<Longrightarrow>
     (q \<in> set (pl_participants pl) - faulty \<Longrightarrow> (sid, vote) \<in> set (bn_sent (S q))) \<Longrightarrow>
     broadcast_step pl faulty data S (S(p := iterate pl p (data p) q sid vote (S p)))"

definition broadcast_initial :: "participant_list \<Rightarrow> (nat \<Rightarrow> 't) \<Rightarrow> (nat \<Rightarrow> 't broadcast_node) \<Rightarrow> bool" where
  "broadcast_initial pl data S \<longleftrightarrow> (\<forall>p \<in> set (pl_participants pl). broadcast_node_new pl p (data p) = Inr (S p))"

section \<open>Counting votes\<close>

type_synonym 't sent = "nat \<Rightarrow> (nat \<times> 't message_type) set"

lemma counter_get_insert:
  "counter_get (insert_or_increase_counter x l) y =
     (if y = x then Some (case counter_get l x of None \<Rightarrow> 1 | Some c \<Rightarrow> c + 1) else counter_get l y)"
  by (induction l) auto

text \<open>
  A counter list agrees with an assignment of votes to participants: no participant is counted twice, and
  what is counted for a correct participant is what it has sent.
\<close>

definition tallies :: "nat set \<Rightarrow> 't sent \<Rightarrow> nat \<Rightarrow> ('t \<Rightarrow> 't message_type) \<Rightarrow> 't counter_list \<Rightarrow> nat set \<Rightarrow> bool" where
  "tallies correct sent sid mk l U \<longleftrightarrow> (\<exists>V. dom V \<subseteq> U \<and>
     (\<forall>q d. V q = Some d \<longrightarrow> q \<in> correct \<longrightarrow> (sid, mk d) \<in> sent q) \<and>
     (\<forall>d. (case counter_get l d of None \<Rightarrow> 0 | Some c \<Rightarrow> c) = card {q. V q = Some d}))"

lemma tallies_empty: "tallies correct sent sid mk [] U"
  unfolding tallies_def by (rule exI [of _ "\<lambda>_. None"]) auto

lemma tallies_mono:
  assumes "tallies correct sent sid mk l U" "U \<subseteq> U'" "\<And>q. q \<in> correct \<Longrightarrow> sent q \<subseteq> sent' q"
  shows "tallies correct sent' sid mk l U'"
proof -
  obtain V where V: "dom V \<subseteq> U" "\<forall>q d. V q = Some d \<longrightarrow> q \<in> correct \<longrightarrow> (sid, mk d) \<in> sent q"
    "\<forall>d. (case counter_get l d of None \<Rightarrow> 0 | Some c \<Rightarrow> c) = card {q. V q = Some d}"
    using assms(1) unfolding tallies_def by blast
  have "\<forall>q d. V q = Some d \<longrightarrow> q \<in> correct \<longrightarrow> (sid, mk d) \<in> sent' q" using V(2) assms(3) by blast
  with V(1,3) assms(2) show ?thesis unfolding tallies_def by (intro exI [of _ V]) auto
qed

lemma tallies_insert:
  assumes "tallies correct sent sid mk l U" "finite U" "q \<notin> U" "q \<in> correct \<Longrightarrow> (sid, mk d) \<in> sent q"
  shows "tallies correct sent sid mk (insert_or_increase_counter d l) (insert q U)"
proof -
  obtain V where V: "dom V \<subseteq> U" "\<forall>q d. V q = Some d \<longrightarrow> q \<in> correct \<longrightarrow> (sid, mk d) \<in> sent q"
    "\<forall>d. (case counter_get l d of None \<Rightarrow> 0 | Some c \<Rightarrow> c) = card {q. V q = Some d}"
    using assms(1) unfolding tallies_def by blast
  have q: "V q = None" using V(1) assms(3) by blast
  have fin: "finite {q. V q = Some d'}" for d'
    by (rule finite_subset [OF _ assms(2)]) (use V(1) in auto)
  have "{q'. (V(q \<mapsto> d)) q' = Some d'} = (if d' = d then insert q {q. V q = Some d} else {q. V q = Some d'})" for d'
    using q by auto
  then have "card {q'. (V(q \<mapsto> d)) q' = Some d'} = (if d' = d then Suc (card {q. V q = Some d}) else card {q. V q = Some d'})" for d'
    using q fin by simp
  then have "(case counter_get (insert_or_increase_counter d l) d' of None \<Rightarrow> 0 | Some c \<Rightarrow> c) =
      card {q'. (V(q \<mapsto> d)) q' = Some d'}" for d'
    using V(3) [rule_format, of d] V(3) [rule_format, of d'] by (auto simp: counter_get_insert split: option.splits)
  with V(1,2) assms(4) show ?thesis
    unfolding tallies_def by (intro exI [of _ "V(q \<mapsto> d)"]) auto
qed

text \<open>The participants behind a count.\<close>

lemma tallies_voters:
  assumes "tallies correct sent sid mk l U" "counter_get l d = Some c"
  shows "\<exists>E. E \<subseteq> U \<and> card E = c \<and> (\<forall>q \<in> E \<inter> correct. (sid, mk d) \<in> sent q)"
proof -
  obtain V where V: "dom V \<subseteq> U" "\<forall>q d. V q = Some d \<longrightarrow> q \<in> correct \<longrightarrow> (sid, mk d) \<in> sent q"
    "\<forall>d. (case counter_get l d of None \<Rightarrow> 0 | Some c \<Rightarrow> c) = card {q. V q = Some d}"
    using assms(1) unfolding tallies_def by blast
  then show ?thesis using assms(2) V(3) [rule_format, of d] by (intro exI [of _ "{q. V q = Some d}"]) auto
qed

section \<open>Quorums\<close>

definition echo_quorum :: "participant_list \<Rightarrow> nat set \<Rightarrow> 't sent \<Rightarrow> nat \<Rightarrow> 't \<Rightarrow> bool" where
  "echo_quorum pl correct sent sid d \<longleftrightarrow> (\<exists>E. E \<subseteq> set (pl_participants pl) \<and>
     fst (echo_ready_thresholds (pl_len pl)) < card E \<and> (\<forall>q \<in> E \<inter> correct. (sid, Echo d) \<in> sent q))"

definition tolerated :: "participant_list \<Rightarrow> nat set \<Rightarrow> bool" where
  "tolerated pl faulty \<longleftrightarrow> card (set (pl_participants pl) \<inter> faulty) \<le> snd (echo_ready_thresholds (pl_len pl))"

lemma echo_quorum_mono:
  "echo_quorum pl correct sent sid d \<Longrightarrow> (\<And>q. q \<in> correct \<Longrightarrow> sent q \<subseteq> sent' q) \<Longrightarrow> echo_quorum pl correct sent' sid d"
  unfolding echo_quorum_def by blast

lemma correct_member:
  assumes "tolerated pl faulty" "E \<subseteq> set (pl_participants pl)" "snd (echo_ready_thresholds (pl_len pl)) < card E"
  shows "\<exists>q \<in> E. q \<in> set (pl_participants pl) - faulty"
proof (rule ccontr)
  assume "\<not> ?thesis"
  then have "E \<subseteq> set (pl_participants pl) \<inter> faulty" using assms(2) by auto
  then have "card E \<le> card (set (pl_participants pl) \<inter> faulty)" by (intro card_mono) auto
  with assms(1,3) show False by (simp add: tolerated_def)
qed

lemma quorums_meet:
  assumes "tolerated pl faulty" "wf_plist pl" "3 < pl_len pl"
    and "E \<subseteq> set (pl_participants pl)" "fst (echo_ready_thresholds (pl_len pl)) < card E"
    and "E' \<subseteq> set (pl_participants pl)" "fst (echo_ready_thresholds (pl_len pl)) < card E'"
  shows "\<exists>q \<in> E \<inter> E'. q \<in> set (pl_participants pl) - faulty"
proof (rule correct_member [OF assms(1)])
  have fin: "finite E" "finite E'" using assms(4,6) finite_subset by blast+
  have "card E + card E' = card (E \<union> E') + card (E \<inter> E')" using fin by (rule card_Un_Int)
  moreover have "card (E \<union> E') \<le> card (set (pl_participants pl))" using assms(4,6) by (intro card_mono) auto
  moreover have "card (set (pl_participants pl)) \<le> pl_len pl" by (simp add: pl_len_def card_length)
  ultimately show "snd (echo_ready_thresholds (pl_len pl)) < card (E \<inter> E')"
    using assms(3,5,7) by (auto simp: echo_ready_thresholds_def Let_def)
qed (use assms(4) in blast)

section \<open>The invariant\<close>

definition session_ok :: "participant_list \<Rightarrow> nat set \<Rightarrow> 't sent \<Rightarrow> nat \<Rightarrow> nat \<Rightarrow> 't broadcast_protocol_state \<Rightarrow> bool" where
  "session_ok pl correct sent p sid st \<longleftrightarrow>
     wf_counter (bs_seen_echo st) \<and> pco_participants (bs_seen_echo st) = pl \<and>
     wf_counter (bs_seen_ready st) \<and> pco_participants (bs_seen_ready st) = pl \<and>
     tallies correct sent sid Echo (bs_data_echo st) (counted (bs_seen_echo st)) \<and>
     tallies correct sent sid Ready (bs_data_ready st) (counted (bs_seen_ready st)) \<and>
     (\<forall>d. (sid, Echo d) \<in> sent p \<longrightarrow> bs_finish_send st)"

definition loop_ok :: "participant_list \<Rightarrow> nat set \<Rightarrow> 't sent \<Rightarrow> nat \<Rightarrow> 't broadcast_loop \<Rightarrow> bool" where
  "loop_ok pl correct sent p bl \<longleftrightarrow> length (bl_state bl) = pl_len pl \<and>
     (\<forall>sid < pl_len pl. session_ok pl correct sent p sid (bl_state bl ! sid)) \<and>
     wf_pmap (bl_output bl) \<and> pm_participants (bl_output bl) = pl \<and>
     (\<forall>sid < pl_len pl. bs_finish_ready (bl_state bl ! sid) \<longrightarrow> pl_participants pl ! sid \<in> mapped (bl_output bl)) \<and>
     (\<forall>w d sid. pm_index (bl_output bl) w = Inr d \<longrightarrow> pl_index pl w = Inr sid \<longrightarrow> echo_quorum pl correct sent sid d)"

definition sent_ok :: "participant_list \<Rightarrow> nat set \<Rightarrow> (nat \<Rightarrow> 't) \<Rightarrow> 't sent \<Rightarrow> nat \<Rightarrow> bool" where
  "sent_ok pl correct data sent p \<longleftrightarrow>
     (\<forall>sid d. (sid, Send d) \<in> sent p \<longrightarrow> pl_index pl p = Inr sid \<and> d = data p) \<and>
     (\<forall>sid d d'. (sid, Echo d) \<in> sent p \<longrightarrow> (sid, Echo d') \<in> sent p \<longrightarrow> d = d') \<and>
     (\<forall>sid d w. (sid, Echo d) \<in> sent p \<longrightarrow> pl_index pl w = Inr sid \<longrightarrow> w \<in> correct \<longrightarrow> (sid, Send d) \<in> sent w) \<and>
     (\<forall>sid d. (sid, Ready d) \<in> sent p \<longrightarrow> echo_quorum pl correct sent sid d)"

lemma session_ok_mono:
  assumes "session_ok pl correct sent p sid st" "\<And>q. q \<in> correct \<Longrightarrow> sent q \<subseteq> sent' q"
    and "\<And>d. (sid, Echo d) \<in> sent' p \<Longrightarrow> (sid, Echo d) \<in> sent p"
  shows "session_ok pl correct sent' p sid st"
  using assms tallies_mono [OF _ order_refl, of correct sent _ _ _ _ sent'] unfolding session_ok_def by blast

lemma loop_ok_mono:
  assumes "loop_ok pl correct sent p bl" "\<And>q. q \<in> correct \<Longrightarrow> sent q \<subseteq> sent' q"
    and "\<And>sid d. (sid, Echo d) \<in> sent' p \<Longrightarrow> (sid, Echo d) \<in> sent p"
  shows "loop_ok pl correct sent' p bl"
  unfolding loop_ok_def
proof (intro conjI allI impI)
  fix sid assume "sid < pl_len pl"
  then show "session_ok pl correct sent' p sid (bl_state bl ! sid)"
    using assms(1) by (intro session_ok_mono [of pl correct sent p sid _ sent'] assms(2,3)) (auto simp: loop_ok_def)
next
  fix w d sid assume "pm_index (bl_output bl) w = Inr d" "pl_index pl w = Inr sid"
  then have "echo_quorum pl correct sent sid d" using assms(1) unfolding loop_ok_def by blast
  then show "echo_quorum pl correct sent' sid d" using assms(2) by (rule echo_quorum_mono)
qed (use assms(1) in \<open>auto simp: loop_ok_def\<close>)

lemma sent_ok_mono:
  assumes "sent_ok pl correct data sent p" "\<And>q. q \<in> correct \<Longrightarrow> sent q \<subseteq> sent' q" "sent' p = sent p"
  shows "sent_ok pl correct data sent' p"
proof -
  have "(sid, m) \<in> sent w \<Longrightarrow> w \<in> correct \<Longrightarrow> (sid, m) \<in> sent' w" for sid m w using assms(2) by blast
  moreover have "echo_quorum pl correct sent sid d \<Longrightarrow> echo_quorum pl correct sent' sid d" for sid d
    using echo_quorum_mono [of pl correct sent sid d sent'] assms(2) by blast
  ultimately show ?thesis using assms(1) unfolding sent_ok_def assms(3) by simp
qed

lemma loop_ok_put:
  assumes "loop_ok pl correct sent p bl" "session_ok pl correct sent p sid st"
    and "bs_finish_ready st \<Longrightarrow> bs_finish_ready (bl_state bl ! sid)" "sid < pl_len pl"
  shows "loop_ok pl correct sent p (put_session sid st bl)"
  using assms by (auto simp: loop_ok_def put_session_def nth_list_update)

text \<open>The votes of participant \<open>p\<close> grow by \<open>out\<close>.\<close>

abbreviation also_sent :: "'t sent \<Rightarrow> nat \<Rightarrow> (nat \<times> 't message_type) list \<Rightarrow> 't sent" where
  "also_sent sent p out \<equiv> sent(p := sent p \<union> set out)"

lemma sent_ok_grow:
  assumes "sent_ok pl correct data sent p" "\<And>q. sent q \<subseteq> sent' q"
    and "\<And>s e. (s, Send e) \<in> sent' p \<Longrightarrow> (s, Send e) \<in> sent p"
    and "\<And>s e e'. (s, Echo e) \<in> sent' p \<Longrightarrow> (s, Echo e) \<notin> sent p \<Longrightarrow> (s, Echo e') \<in> sent' p \<Longrightarrow> e = e'"
    and "\<And>s e w. (s, Echo e) \<in> sent' p \<Longrightarrow> (s, Echo e) \<notin> sent p \<Longrightarrow> pl_index pl w = Inr s \<Longrightarrow> w \<in> correct \<Longrightarrow> (s, Send e) \<in> sent w"
    and "\<And>s e. (s, Ready e) \<in> sent' p \<Longrightarrow> (s, Ready e) \<notin> sent p \<Longrightarrow> echo_quorum pl correct sent s e"
  shows "sent_ok pl correct data sent' p"
  unfolding sent_ok_def
proof (intro conjI allI impI)
  fix s e assume "(s, Send e) \<in> sent' p"
  then show "pl_index pl p = Inr s" "e = data p" using assms(1,3) unfolding sent_ok_def by blast+
next
  fix s e e' assume "(s, Echo e) \<in> sent' p" "(s, Echo e') \<in> sent' p"
  then show "e = e'" using assms(1) assms(4) [of s e e'] assms(4) [of s e' e] unfolding sent_ok_def by blast
next
  fix s e w assume "(s, Echo e) \<in> sent' p" "pl_index pl w = Inr s" "w \<in> correct"
  then have "(s, Send e) \<in> sent w" using assms(1) assms(5) [of s e w] unfolding sent_ok_def by blast
  then show "(s, Send e) \<in> sent' w" using assms(2) by blast
next
  fix s e assume "(s, Ready e) \<in> sent' p"
  then have "echo_quorum pl correct sent s e" using assms(1) assms(6) [of s e] unfolding sent_ok_def by blast
  then show "echo_quorum pl correct sent' s e" by (rule echo_quorum_mono) (rule assms(2))
qed

lemma sent_ok_ready:
  assumes "sent_ok pl correct data sent p" "echo_quorum pl correct sent sid d"
  shows "sent_ok pl correct data (also_sent sent p [(sid, Ready d)]) p"
  by (rule sent_ok_grow [OF assms(1)]) (use assms(2) in auto)

lemma loop_ok_ready:
  "loop_ok pl correct sent p bl \<Longrightarrow> loop_ok pl correct (also_sent sent p [(sid, Ready d)]) p bl"
  by (erule loop_ok_mono) auto

section \<open>Every iteration keeps it\<close>

text \<open>What an iteration has to keep: the loop, the votes, and that a simulated vote has been sent.\<close>

definition keeps :: "participant_list \<Rightarrow> nat set \<Rightarrow> (nat \<Rightarrow> 't) \<Rightarrow> 't sent \<Rightarrow> nat \<Rightarrow> 't iteration \<Rightarrow> bool" where
  "keeps pl correct data sent p it \<longleftrightarrow> (case it of (bl, out, sim, ret) \<Rightarrow>
     loop_ok pl correct (also_sent sent p out) p bl \<and> sent_ok pl correct data (also_sent sent p out) p \<and>
     (\<forall>m. sim = Some m \<longrightarrow> m \<in> set out) \<and>
     (\<forall>m. ret = Some (Inr m) \<longrightarrow> m = bl_output bl \<and> mapped m = set (pl_participants pl)))"

lemma keeps_silent:
  "loop_ok pl correct sent p bl \<Longrightarrow> sent_ok pl correct data sent p \<Longrightarrow>
     (\<And>m. ret = Some (Inr m) \<Longrightarrow> m = bl_output bl \<and> mapped m = set (pl_participants pl)) \<Longrightarrow>
     keeps pl correct data sent p (bl, [], None, ret)"
  by (simp add: keeps_def)

lemma keeps_ready:
  "loop_ok pl correct sent p bl \<Longrightarrow> sent_ok pl correct data sent p \<Longrightarrow> echo_quorum pl correct sent sid d \<Longrightarrow>
     (\<And>m. ret = Some (Inr m) \<Longrightarrow> m = bl_output bl \<and> mapped m = set (pl_participants pl)) \<Longrightarrow>
     keeps pl correct data sent p (bl, [(sid, Ready d)], Some (sid, Ready d), ret)"
  unfolding keeps_def using sent_ok_ready loop_ok_ready by fastforce

lemma handle_send_keeps:
  assumes ok: "loop_ok pl correct sent p bl" "sent_ok pl correct data sent p" and pl: "wf_plist pl"
    and sid: "sid < pl_len pl" and legit: "q \<in> correct \<Longrightarrow> (sid, Send d) \<in> sent q"
  shows "keeps pl correct data sent p (handle_send pl bl q sid d)"
proof (cases "bs_finish_send (bl_state bl ! sid) \<or> pl_index pl q \<noteq> Inr sid")
  case True
  then show ?thesis
    by (cases "pl_index pl q") (auto simp: handle_send_def Let_def intro: keeps_silent [OF ok])
next
  case False
  let ?st = "bl_state bl ! sid" and ?out = "[(sid, Echo d)]"
  let ?sent = "also_sent sent p ?out"
  have it: "handle_send pl bl q sid d = (put_session sid (?st\<lparr>bs_finish_send := True\<rparr>) bl, ?out, Some (sid, Echo d), None)"
    using False by (simp add: handle_send_def)
  have grow: "sent r \<subseteq> ?sent r" for r by auto
  have old: "\<forall>e. (sid, Echo e) \<notin> sent p"
    using False ok(1) sid by (auto simp: loop_ok_def session_ok_def)
  have owner: "w = q" if "pl_index pl w = Inr sid" for w
    using that False wf_plist_lookup(2) [OF pl] by auto
  have "sent_ok pl correct data ?sent p"
    by (rule sent_ok_grow [OF ok(2) grow]) (use old owner legit in auto)
  moreover have "session_ok pl correct ?sent p s (bl_state bl ! s)" if "s < pl_len pl" "s \<noteq> sid" for s
    using that ok(1) by (intro session_ok_mono [of pl correct sent p s _ ?sent] grow) (auto simp: loop_ok_def)
  moreover have "session_ok pl correct ?sent p sid (?st\<lparr>bs_finish_send := True\<rparr>)"
    using ok(1) sid tallies_mono [of correct sent _ _ _ _ _ ?sent, OF _ order_refl grow]
    unfolding loop_ok_def session_ok_def by simp
  ultimately have "loop_ok pl correct ?sent p (put_session sid (?st\<lparr>bs_finish_send := True\<rparr>) bl)"
    using ok(1) sid echo_quorum_mono [of pl correct sent _ _ ?sent, OF _ grow]
    by (auto simp: loop_ok_def put_session_def nth_list_update)
  with \<open>sent_ok pl correct data ?sent p\<close> show ?thesis by (simp add: it keeps_def)
qed

text \<open>Entering a vote from a participant not seen before.\<close>

lemma session_ok_seen_echo:
  assumes "session_ok pl correct sent p sid st"
  shows "session_ok pl correct sent p sid (st\<lparr>bs_seen_echo := fst (pco_put q (bs_seen_echo st))\<rparr>)"
  using assms pco_put_cases [of "bs_seen_echo st" q]
    tallies_mono [of correct sent sid Echo "bs_data_echo st" "counted (bs_seen_echo st)"
      "counted (fst (pco_put q (bs_seen_echo st)))" sent]
  by (auto simp: session_ok_def)

lemma session_ok_seen_ready:
  assumes "session_ok pl correct sent p sid st"
  shows "session_ok pl correct sent p sid (st\<lparr>bs_seen_ready := fst (pco_put q (bs_seen_ready st))\<rparr>)"
  using assms pco_put_cases [of "bs_seen_ready st" q]
    tallies_mono [of correct sent sid Ready "bs_data_ready st" "counted (bs_seen_ready st)"
      "counted (fst (pco_put q (bs_seen_ready st)))" sent]
  by (auto simp: session_ok_def)

lemma counted_finite: "wf_counter c \<Longrightarrow> finite (counted c)"
  by (rule finite_subset [OF counters.members_sub]) auto

lemma session_ok_count_echo:
  assumes ok: "session_ok pl correct sent p sid st" and new: "snd (pco_put q (bs_seen_echo st))"
    and legit: "q \<in> correct \<Longrightarrow> (sid, Echo d) \<in> sent q"
  shows "session_ok pl correct sent p sid (st\<lparr>bs_seen_echo := fst (pco_put q (bs_seen_echo st)),
    bs_data_echo := insert_or_increase_counter d (bs_data_echo st)\<rparr>)"
proof -
  have wf: "wf_counter (bs_seen_echo st)" using ok by (simp add: session_ok_def)
  have "tallies correct sent sid Echo (insert_or_increase_counter d (bs_data_echo st)) (insert q (counted (bs_seen_echo st)))"
    using ok new legit pco_put_cases [OF wf, of q] counted_finite [OF wf] by (intro tallies_insert) (auto simp: session_ok_def)
  then show ?thesis using ok new pco_put_cases [OF wf, of q] by (auto simp: session_ok_def)
qed

lemma session_ok_count_ready:
  assumes ok: "session_ok pl correct sent p sid st" and new: "snd (pco_put q (bs_seen_ready st))"
    and legit: "q \<in> correct \<Longrightarrow> (sid, Ready d) \<in> sent q"
  shows "session_ok pl correct sent p sid (st\<lparr>bs_seen_ready := fst (pco_put q (bs_seen_ready st)),
    bs_data_ready := insert_or_increase_counter d (bs_data_ready st)\<rparr>)"
proof -
  have wf: "wf_counter (bs_seen_ready st)" using ok by (simp add: session_ok_def)
  have "tallies correct sent sid Ready (insert_or_increase_counter d (bs_data_ready st)) (insert q (counted (bs_seen_ready st)))"
    using ok new legit pco_put_cases [OF wf, of q] counted_finite [OF wf] by (intro tallies_insert) (auto simp: session_ok_def)
  then show ?thesis using ok new pco_put_cases [OF wf, of q] by (auto simp: session_ok_def)
qed

text \<open>The flags other than \<open>finish_send\<close> play no part.\<close>

lemma session_ok_flags:
  assumes "session_ok pl correct sent p sid st" "bs_finish_send st \<Longrightarrow> bs_finish_send st'"
    and "bs_data_echo st' = bs_data_echo st" "bs_data_ready st' = bs_data_ready st"
    and "bs_seen_echo st' = bs_seen_echo st" "bs_seen_ready st' = bs_seen_ready st"
  shows "session_ok pl correct sent p sid st'"
  using assms by (simp add: session_ok_def)

text \<open>A count above the threshold is a quorum.\<close>

lemma counted_echo_quorum:
  assumes "session_ok pl correct sent p sid st" "counter_get (bs_data_echo st) d = Some cnt"
    "fst (echo_ready_thresholds (pl_len pl)) < cnt"
  shows "echo_quorum pl correct sent sid d"
proof -
  obtain E where "E \<subseteq> counted (bs_seen_echo st)" "card E = cnt" "\<forall>q \<in> E \<inter> correct. (sid, Echo d) \<in> sent q"
    using assms(1,2) tallies_voters [of correct sent sid Echo] unfolding session_ok_def by blast
  then show ?thesis
    using assms counters.members_sub [of "bs_seen_echo st"] unfolding echo_quorum_def
    by (intro exI [of _ E]) (auto simp: session_ok_def)
qed

lemma counted_ready_quorum:
  assumes "session_ok pl (set (pl_participants pl) - faulty) sent p sid st" "counter_get (bs_data_ready st) d = Some cnt"
    "snd (echo_ready_thresholds (pl_len pl)) < cnt" "tolerated pl faulty"
    "\<And>q. q \<in> set (pl_participants pl) - faulty \<Longrightarrow> sent_ok pl (set (pl_participants pl) - faulty) data sent q"
  shows "echo_quorum pl (set (pl_participants pl) - faulty) sent sid d"
proof -
  let ?correct = "set (pl_participants pl) - faulty"
  obtain E where E: "E \<subseteq> counted (bs_seen_ready st)" "card E = cnt" "\<forall>q \<in> E \<inter> ?correct. (sid, Ready d) \<in> sent q"
    using assms(1,2) tallies_voters [of ?correct sent sid Ready] unfolding session_ok_def by blast
  have "E \<subseteq> set (pl_participants pl)"
    using E(1) assms(1) counters.members_sub [of "bs_seen_ready st"] by (auto simp: session_ok_def)
  then obtain q where "q \<in> E" "q \<in> ?correct" using correct_member [OF assms(4), of E] E(2) assms(3) by auto
  then show ?thesis using E(3) assms(5) [of q] unfolding sent_ok_def by blast
qed

lemma handle_echo_keeps:
  assumes ok: "loop_ok pl correct sent p bl" "sent_ok pl correct data sent p"
    and sid: "sid < pl_len pl" and legit: "q \<in> correct \<Longrightarrow> (sid, Echo d) \<in> sent q"
  shows "keeps pl correct data sent p (handle_echo pl bl q sid d)"
proof -
  define st where "st = bl_state bl ! sid"
  define seen where "seen = st\<lparr>bs_seen_echo := fst (pco_put q (bs_seen_echo st))\<rparr>"
  define new where "new = seen\<lparr>bs_data_echo := insert_or_increase_counter d (bs_data_echo st)\<rparr>"
  have st: "session_ok pl correct sent p sid st" using ok(1) sid by (simp add: loop_ok_def st_def)
  have silent: "keeps pl correct data sent p (put_session sid st' bl, [], None, ret)"
    if "session_ok pl correct sent p sid st'" "bs_finish_ready st' = bs_finish_ready st" "\<And>m. ret \<noteq> Some (Inr m)" for st' ret
    using that by (intro keeps_silent loop_ok_put ok sid) (auto simp: st_def)
  have seen_ok: "session_ok pl correct sent p sid seen" unfolding seen_def by (rule session_ok_seen_echo [OF st])
  show ?thesis
  proof (cases "snd (pco_put q (bs_seen_echo st)) \<and> \<not> bs_finish_echo st")
    case False
    then have "handle_echo pl bl q sid d = (put_session sid seen bl, [], None, None)"
      by (auto simp: handle_echo_def Let_def seen_def st_def split: prod.split)
    then show ?thesis using silent [OF seen_ok] by (simp add: seen_def)
  next
    case True
    have new_ok: "session_ok pl correct sent p sid new"
      unfolding new_def seen_def using session_ok_count_echo [OF st _ legit] True by simp
    obtain cnt where cnt: "counter_get (bs_data_echo new) d = Some cnt"
      by (auto simp: new_def counter_get_insert)
    let ?t = "fst (echo_ready_thresholds (pl_len pl))"
    have it: "handle_echo pl bl q sid d =
      (if cnt > ?t
       then (put_session sid (new\<lparr>bs_finish_echo := True\<rparr>) bl, [(sid, Ready d)], Some (sid, Ready d), None)
       else if \<not> bs_finish_amplification new then
         case checked_sub (pl_len pl) (get_sum_counters (bs_data_echo new)) of
           None \<Rightarrow> (put_session sid new bl, [], None, Some (Inl TsPanic))
         | Some non_received \<Rightarrow>
             if list_ex (\<lambda>(_, cnt). cnt + non_received > ?t) (bs_data_echo new)
             then (put_session sid new bl, [], None, None)
             else (put_session sid new bl, [], None, Some (Inl (TsError AssertionFailed)))
       else (put_session sid new bl, [], None, None))"
      using True cnt by (auto simp: handle_echo_def Let_def new_def seen_def st_def checked_sub_def split: prod.splits)
    have "keeps pl correct data sent p (put_session sid (new\<lparr>bs_finish_echo := True\<rparr>) bl, [(sid, Ready d)], Some (sid, Ready d), None)"
      if "cnt > ?t"
      using counted_echo_quorum [OF new_ok cnt that] session_ok_flags [OF new_ok, of "new\<lparr>bs_finish_echo := True\<rparr>"]
      by (intro keeps_ready loop_ok_put ok sid) (auto simp: new_def seen_def st_def)
    then show ?thesis unfolding it
      using silent [OF new_ok] by (auto simp: new_def seen_def split: option.split)
  qed
qed

lemma deliver_ok:
  assumes ok: "loop_ok pl correct sent p bl" and pl: "wf_plist pl" and sid: "sid < pl_len pl"
    and st: "session_ok pl correct sent p sid st" and quorum: "echo_quorum pl correct sent sid d"
    and res: "deliver pl me sv bl sid st d = (bl', ret)"
  shows "loop_ok pl correct sent p bl' \<and>
    (\<forall>m. ret = Some (Inr m) \<longrightarrow> m = bl_output bl' \<and> mapped m = set (pl_participants pl))"
proof -
  define w where "w = pl_participants pl ! sid"
  define st' where "st' = st\<lparr>bs_finish_send := True, bs_finish_echo := True, bs_finish_ready := True\<rparr>"
  have w: "pl_get_participant pl sid = Some w" "w \<in> set (pl_participants pl)"
    using sid by (auto simp: pl_get_participant_def pl_len_def w_def)
  have bl': "bl' = (put_session sid st' bl)\<lparr>bl_output := pm_put w d (bl_output bl)\<rparr>"
    and ret: "ret = Some (Inr m) \<Longrightarrow> m = bl_output bl' \<and> list_all bs_finish_ready (bl_state bl')" for m
    using res w by (auto simp: deliver_def Let_def st'_def split: sum.splits if_splits)
  have st': "session_ok pl correct sent p sid st'" unfolding st'_def by (rule session_ok_flags [OF st]) auto
  have out: "wf_pmap (bl_output bl)" "pm_participants (bl_output bl) = pl" using ok by (auto simp: loop_ok_def)
  note put = pm_put_cases [OF out(1), of w d, unfolded out(2)]
  have mapped: "s < pl_len pl \<Longrightarrow> bs_finish_ready (bl_state bl' ! s) \<Longrightarrow> pl_participants pl ! s \<in> mapped (bl_output bl')" for s
    using ok w put by (cases "s = sid") (auto simp: loop_ok_def bl' put_session_def w_def)
  have deliveries: "echo_quorum pl correct sent s e" if "pm_index (bl_output bl') v = Inr e" "pl_index pl v = Inr s" for v e s
  proof (cases "v = w \<and> w \<in> set (pl_participants pl) - mapped (bl_output bl)")
    case True
    then have "s = sid" "e = d" using that put sid wf_plist_lookup(2) [OF pl] pl
      by (auto simp: bl' w_def wf_plist_def pl_len_def nth_eq_iff_index_eq)
    with quorum show ?thesis by simp
  next
    case False
    then have "pm_index (bl_output bl) v = Inr e" using that(1) put [of v] by (auto simp: bl')
    with that(2) ok show ?thesis unfolding loop_ok_def by blast
  qed
  have loop: "loop_ok pl correct sent p bl'"
    unfolding loop_ok_def
    using ok st' sid mapped deliveries put [of w] by (auto simp: loop_ok_def bl' put_session_def nth_list_update)
  moreover have "mapped m = set (pl_participants pl)" if "ret = Some (Inr m)" for m
  proof
    show "mapped m \<subseteq> set (pl_participants pl)"
      using ret [OF that] loop maps.members_sub [of m] by (auto simp: loop_ok_def)
    show "set (pl_participants pl) \<subseteq> mapped m"
      using ret [OF that] loop mapped by (auto simp: loop_ok_def list_all_length in_set_conv_nth pl_len_def)
  qed
  ultimately show ?thesis using ret by blast
qed

lemma handle_ready_keeps:
  assumes ok: "loop_ok pl (set (pl_participants pl) - faulty) sent p bl"
    and pl: "wf_plist pl" "tolerated pl faulty" and sid: "sid < pl_len pl" and p: "p \<in> set (pl_participants pl) - faulty"
    and all: "\<And>q. q \<in> set (pl_participants pl) - faulty \<Longrightarrow> sent_ok pl (set (pl_participants pl) - faulty) data sent q"
    and legit: "q \<in> set (pl_participants pl) - faulty \<Longrightarrow> (sid, Ready d) \<in> sent q"
  shows "keeps pl (set (pl_participants pl) - faulty) data sent p (handle_ready pl me sv bl q sid d)"
proof -
  define correct where "correct = set (pl_participants pl) - faulty"
  define st where "st = bl_state bl ! sid"
  define seen where "seen = st\<lparr>bs_seen_ready := fst (pco_put q (bs_seen_ready st))\<rparr>"
  define new where "new = seen\<lparr>bs_data_ready := insert_or_increase_counter d (bs_data_ready st)\<rparr>"
  note ok = ok [folded correct_def] and so = all [OF p, folded correct_def]
  have st: "session_ok pl correct sent p sid st" using ok sid by (simp add: loop_ok_def st_def)
  have seen_ok: "session_ok pl correct sent p sid seen" unfolding seen_def by (rule session_ok_seen_ready [OF st])
  show ?thesis
  proof (cases "snd (pco_put q (bs_seen_ready st)) \<and> \<not> bs_finish_ready st")
    case False
    then have "handle_ready pl me sv bl q sid d = (put_session sid seen bl, [], None, None)"
      by (auto simp: handle_ready_def Let_def seen_def st_def split: prod.split)
    then show ?thesis using seen_ok
      by (auto intro!: keeps_silent loop_ok_put ok sid so simp: seen_def st_def simp flip: correct_def)
  next
    case True
    have new_ok: "session_ok pl correct sent p sid new"
      unfolding new_def seen_def using session_ok_count_ready [OF st _ legit [folded correct_def]] True by simp
    obtain cnt where cnt: "counter_get (bs_data_ready new) d = Some cnt"
      by (auto simp: new_def counter_get_insert)
    let ?t = "snd (echo_ready_thresholds (pl_len pl))"
    define amplify where "amplify \<longleftrightarrow> cnt > ?t \<and> \<not> bs_finish_amplification new"
    define amp where "amp = (if amplify then new\<lparr>bs_finish_amplification := True\<rparr> else new)"
    define res where "res = (if cnt > 2 * ?t then deliver pl me sv bl sid amp d else (put_session sid amp bl, None))"
    have it: "handle_ready pl me sv bl q sid d = (fst res, if amplify then [(sid, Ready d)] else [],
        if amplify then Some (sid, Ready d) else None, snd res)"
      using True cnt unfolding handle_ready_def Let_def res_def amp_def amplify_def new_def seen_def st_def
      by (auto split: prod.splits)
    have quorum: "echo_quorum pl correct sent sid d" if "cnt > ?t"
      unfolding correct_def by (rule counted_ready_quorum [OF _ cnt that pl(2) all]) (use new_ok in \<open>auto simp: correct_def\<close>)
    have amp_ok: "session_ok pl correct sent p sid amp"
      unfolding amp_def by (rule session_ok_flags [OF new_ok]) auto
    have res: "loop_ok pl correct sent p (fst res) \<and>
        (\<forall>m. snd res = Some (Inr m) \<longrightarrow> m = bl_output (fst res) \<and> mapped m = set (pl_participants pl))"
    proof (cases "cnt > 2 * ?t")
      case True
      then show ?thesis using deliver_ok [OF ok pl(1) sid amp_ok quorum] by (auto simp: res_def prod_eq_iff)
    next
      case False
      then show ?thesis using loop_ok_put [OF ok amp_ok _ sid]
        by (auto simp: res_def amp_def new_def seen_def st_def)
    qed
    then show ?thesis
      unfolding it correct_def [symmetric] using quorum so
      by (cases amplify) (auto simp: amplify_def intro!: keeps_silent keeps_ready)
  qed
qed

lemma handle_vote_keeps:
  assumes ok: "loop_ok pl (set (pl_participants pl) - faulty) sent p bl"
    and pl: "wf_plist pl" "tolerated pl faulty" and p: "p \<in> set (pl_participants pl) - faulty"
    and all: "\<And>q. q \<in> set (pl_participants pl) - faulty \<Longrightarrow> sent_ok pl (set (pl_participants pl) - faulty) data sent q"
    and legit: "q \<in> set (pl_participants pl) - faulty \<Longrightarrow> (sid, vote) \<in> sent q"
  shows "keeps pl (set (pl_participants pl) - faulty) data sent p (handle_vote pl me sv bl q sid vote)"
proof (cases "sid < pl_len pl")
  case True
  moreover have "length (bl_state bl) = pl_len pl" using ok by (simp add: loop_ok_def)
  ultimately show ?thesis
    using handle_send_keeps [OF ok all [OF p] pl(1) True] handle_echo_keeps [OF ok all [OF p] True]
      handle_ready_keeps [OF ok pl True p all] legit
    by (cases vote) (simp_all add: handle_vote_def)
next
  case False
  then have "handle_vote pl me sv bl q sid vote = (bl, [], None, None)" using ok by (simp add: handle_vote_def loop_ok_def)
  then show ?thesis by (auto intro: keeps_silent [OF ok all [OF p]])
qed

section \<open>Reachable states\<close>

definition bcast_sent :: "(nat \<Rightarrow> 't broadcast_node) \<Rightarrow> 't sent" where
  "bcast_sent S q = set (bn_sent (S q))"

definition bcast_inv :: "participant_list \<Rightarrow> nat set \<Rightarrow> (nat \<Rightarrow> 't) \<Rightarrow> (nat \<Rightarrow> 't broadcast_node) \<Rightarrow> bool" where
  "bcast_inv pl faulty data S \<longleftrightarrow> (\<forall>p \<in> set (pl_participants pl) - faulty.
     loop_ok pl (set (pl_participants pl) - faulty) (bcast_sent S) p (bn_loop (S p)) \<and>
     sent_ok pl (set (pl_participants pl) - faulty) data (bcast_sent S) p \<and>
     (\<forall>m. bn_simulated (S p) = Some m \<longrightarrow> m \<in> bcast_sent S p) \<and>
     (\<forall>m. bn_returned (S p) = Some (Inr m) \<longrightarrow> m = bl_output (bn_loop (S p)) \<and> mapped m = set (pl_participants pl)))"

lemma bcast_inv_iterate:
  assumes inv: "bcast_inv pl faulty data S" and pl: "wf_plist pl" "tolerated pl faulty"
    and p: "p \<in> set (pl_participants pl) - faulty"
    and legit: "q \<in> set (pl_participants pl) - faulty \<Longrightarrow> (sid, vote) \<in> bcast_sent S q"
  shows "bcast_inv pl faulty data (S(p := iterate pl p (data p) q sid vote (S p)))"
proof -
  let ?C = "set (pl_participants pl) - faulty"
  obtain bl out sim ret where res: "handle_vote pl p (Send (data p)) (bn_loop (S p)) q sid vote = (bl, out, sim, ret)"
    by (cases "handle_vote pl p (Send (data p)) (bn_loop (S p)) q sid vote")
  let ?S = "S(p := iterate pl p (data p) q sid vote (S p))"
  have sent: "bcast_sent ?S = also_sent (bcast_sent S) p out"
    by (rule ext) (simp add: bcast_sent_def iterate_def res)
  have keeps: "keeps pl ?C data (bcast_sent S) p (bl, out, sim, ret)"
    unfolding res [symmetric]
    by (rule handle_vote_keeps [OF _ pl p]) (use inv p legit in \<open>auto simp: bcast_inv_def\<close>)
  show ?thesis unfolding bcast_inv_def
  proof
    fix r assume r: "r \<in> ?C"
    show "loop_ok pl ?C (bcast_sent ?S) r (bn_loop (?S r)) \<and> sent_ok pl ?C data (bcast_sent ?S) r \<and>
      (\<forall>m. bn_simulated (?S r) = Some m \<longrightarrow> m \<in> bcast_sent ?S r) \<and>
      (\<forall>m. bn_returned (?S r) = Some (Inr m) \<longrightarrow> m = bl_output (bn_loop (?S r)) \<and> mapped m = set (pl_participants pl))"
    proof (cases "r = p")
      case True
      then show ?thesis using keeps unfolding sent by (auto simp: keeps_def iterate_def res)
    next
      case False
      have same: "bcast_sent ?S r = bcast_sent S r" using False unfolding sent by simp
      have grow: "bcast_sent S q \<subseteq> bcast_sent ?S q" for q unfolding sent by auto
      have old: "loop_ok pl ?C (bcast_sent S) r (bn_loop (S r))" "sent_ok pl ?C data (bcast_sent S) r"
        using inv r by (auto simp: bcast_inv_def)
      have "loop_ok pl ?C (bcast_sent ?S) r (bn_loop (S r))" by (rule loop_ok_mono [OF old(1) grow]) (simp add: same)
      moreover have "sent_ok pl ?C data (bcast_sent ?S) r" by (rule sent_ok_mono [OF old(2) grow same])
      ultimately show ?thesis using inv r False unfolding same by (simp add: bcast_inv_def)
    qed
  qed
qed

lemma bcast_inv_initial:
  fixes data :: "nat \<Rightarrow> 't"
  assumes "broadcast_initial pl data S" "wf_plist pl"
  shows "bcast_inv pl faulty data S"
proof -
  have S: "\<exists>sid. pl_index pl p = Inr sid \<and> S p = \<lparr>bn_loop = broadcast_loop_new pl, bn_simulated = Some (sid, Send (data p)),
      bn_sent = [(sid, Send (data p))], bn_returned = None\<rparr>" if "p \<in> set (pl_participants pl)" for p
    using assms(1) that by (auto simp: broadcast_initial_def broadcast_node_new_def res_simps)
  have idx: "pm_index (participant_map_new pl) w \<noteq> Inr d" for w and d :: 't
    using wf_plist_lookup(2) [OF assms(2), of w]
    by (auto simp: pm_index_def participant_map_new_def pl_len_def res_simps split: sum.splits option.splits)
  have "loop_ok pl C (bcast_sent S) p (bn_loop (S p)) \<and> sent_ok pl C data (bcast_sent S) p"
    if "p \<in> set (pl_participants pl)" for p C
    using S [OF that] idx
    by (auto simp: loop_ok_def session_ok_def sent_ok_def bcast_sent_def broadcast_loop_new_def broadcast_state_new_def
      tallies_empty new_wf [OF assms(2)])
  then show ?thesis using S unfolding bcast_inv_def by (fastforce simp: bcast_sent_def)
qed

lemma bcast_inv_reachable:
  assumes "(broadcast_step pl faulty data)\<^sup>*\<^sup>* S0 S" "broadcast_initial pl data S0" "wf_plist pl" "tolerated pl faulty"
  shows "bcast_inv pl faulty data S"
  using assms(1)
proof (induction rule: rtranclp_induct)
  case base
  then show ?case using bcast_inv_initial assms(2,3) by blast
next
  case (step S S')
  from step(2) show ?case
  proof cases
    case (bcast_simulated p sid vote)
    then have "(sid, vote) \<in> bcast_sent S p" using step(3) by (auto simp: bcast_inv_def)
    then show ?thesis unfolding bcast_simulated(1)
      using bcast_simulated(2) by (intro bcast_inv_iterate [OF step(3) assms(3,4)])
  next
    case (bcast_received p q sid vote)
    then show ?thesis unfolding bcast_received(1)
      by (intro bcast_inv_iterate [OF step(3) assms(3,4)]) (auto simp: bcast_sent_def)
  qed
qed

section \<open>Agreement\<close>

lemma echo_quorum_unique:
  assumes pl: "wf_plist pl" "tolerated pl faulty"
    and all: "\<And>q. q \<in> set (pl_participants pl) - faulty \<Longrightarrow> sent_ok pl (set (pl_participants pl) - faulty) data sent q"
    and q: "echo_quorum pl (set (pl_participants pl) - faulty) sent sid d" "echo_quorum pl (set (pl_participants pl) - faulty) sent sid d'"
    and w: "pl_index pl w = Inr sid"
  shows "d = d'"
proof -
  let ?C = "set (pl_participants pl) - faulty"
  obtain E E' where E: "E \<subseteq> set (pl_participants pl)" "fst (echo_ready_thresholds (pl_len pl)) < card E"
      "\<forall>q \<in> E \<inter> ?C. (sid, Echo d) \<in> sent q"
    and E': "E' \<subseteq> set (pl_participants pl)" "fst (echo_ready_thresholds (pl_len pl)) < card E'"
      "\<forall>q \<in> E' \<inter> ?C. (sid, Echo d') \<in> sent q"
    using q unfolding echo_quorum_def by blast
  show ?thesis
  proof (cases "3 < pl_len pl")
    case True
    then obtain r where "r \<in> E" "r \<in> E'" "r \<in> ?C" using quorums_meet [OF pl(2,1) True E(1,2) E'(1,2)] by blast
    then show ?thesis using E(3) E'(3) all [of r] unfolding sent_ok_def by blast
  next
    case False
    then have t: "echo_ready_thresholds (pl_len pl) = (0, 0)" by (simp add: echo_ready_thresholds_def)
    then have C: "?C = set (pl_participants pl)" using pl(2) by (auto simp: tolerated_def)
    have wC: "w \<in> ?C" using w wf_plist_lookup(2) [OF pl(1), of w sid] unfolding C by auto
    obtain r r' where "r \<in> E" "r' \<in> E'" using E(2) E'(2) t by (metis card_gt_0_iff all_not_in_conv fst_conv)
    then have "(sid, Echo d) \<in> sent r" "r \<in> ?C" "(sid, Echo d') \<in> sent r'" "r' \<in> ?C" using E(1,3) E'(1,3) C by blast+
    then have "(sid, Send d) \<in> sent w" "(sid, Send d') \<in> sent w"
      using all [of r] all [of r'] w wC unfolding sent_ok_def by blast+
    then show ?thesis using all [OF wC] unfolding sent_ok_def by blast
  qed
qed

lemma echo_quorum_integrity:
  assumes pl: "wf_plist pl" "tolerated pl faulty"
    and all: "\<And>q. q \<in> set (pl_participants pl) - faulty \<Longrightarrow> sent_ok pl (set (pl_participants pl) - faulty) data sent q"
    and q: "echo_quorum pl (set (pl_participants pl) - faulty) sent sid d"
    and w: "pl_index pl w = Inr sid" "w \<in> set (pl_participants pl) - faulty"
  shows "d = data w"
proof -
  let ?C = "set (pl_participants pl) - faulty"
  obtain E where E: "E \<subseteq> set (pl_participants pl)" "fst (echo_ready_thresholds (pl_len pl)) < card E"
      "\<forall>q \<in> E \<inter> ?C. (sid, Echo d) \<in> sent q"
    using q unfolding echo_quorum_def by blast
  have "snd (echo_ready_thresholds (pl_len pl)) < card E"
    using E(2) by (auto simp: echo_ready_thresholds_def Let_def split: if_splits)
  then obtain r where "r \<in> E" "r \<in> ?C" using correct_member [OF pl(2) E(1)] by blast
  then have "(sid, Send d) \<in> sent w" using E(3) all [of r] w unfolding sent_ok_def by blast
  then show ?thesis using all [OF w(2)] unfolding sent_ok_def by blast
qed

lemma pm_index_mapped:
  assumes "wf_pmap m" "w \<in> mapped m"
  shows "\<exists>d. pm_index m w = Inr d"
proof -
  obtain i where i: "i < length (pm_data m)" "pm_data m ! i \<noteq> None" "pl_participants (pm_participants m) ! i = w"
    using assms(2) by (auto simp: mapped_def)
  then have "pl_index (pm_participants m) w = Inr i"
    using assms(1) wf_plist_lookup(2) [of "pm_participants m" w i] by (auto simp: wf_pmap_def)
  then show ?thesis using i by (auto simp: pm_index_def res_simps)
qed

lemma bcast_returned:
  assumes "bcast_inv pl faulty data S" "r \<in> set (pl_participants pl) - faulty" "bn_returned (S r) = Some (Inr x)"
  shows "wf_pmap x" "pm_participants x = pl" "mapped x = set (pl_participants pl)"
    "pm_index x w = Inr d \<Longrightarrow>
       \<exists>sid. pl_index pl w = Inr sid \<and> echo_quorum pl (set (pl_participants pl) - faulty) (bcast_sent S) sid d"
proof -
  have x: "loop_ok pl (set (pl_participants pl) - faulty) (bcast_sent S) r (bn_loop (S r))"
      "x = bl_output (bn_loop (S r))" "mapped x = set (pl_participants pl)"
    using assms by (auto simp: bcast_inv_def)
  then show *: "wf_pmap x" "pm_participants x = pl" "mapped x = set (pl_participants pl)" by (auto simp: loop_ok_def)
  assume "pm_index x w = Inr d"
  moreover from this obtain sid where "pl_index pl w = Inr sid" using *(2) by (auto simp: pm_index_def res_simps)
  ultimately show "\<exists>sid. pl_index pl w = Inr sid \<and> echo_quorum pl (set (pl_participants pl) - faulty) (bcast_sent S) sid d"
    using x(1,2) unfolding loop_ok_def by blast
qed

lemma pmap_eqI:
  assumes m: "wf_pmap m" "wf_pmap m'" "pm_participants m = pm_participants m'"
    and mapped: "mapped m = set (pl_participants (pm_participants m))" "mapped m' = mapped m"
    and index: "\<And>w d d'. pm_index m w = Inr d \<Longrightarrow> pm_index m' w = Inr d' \<Longrightarrow> d = d'"
  shows "m = m'"
proof -
  let ?pl = "pm_participants m"
  have len: "length (pm_data m) = length (pl_participants ?pl)" "length (pm_data m') = length (pl_participants ?pl)"
    using m by (auto simp: wf_pmap_def)
  have "pm_data m ! i = pm_data m' ! i" if i: "i < length (pl_participants ?pl)" for i
  proof -
    let ?w = "pl_participants ?pl ! i"
    have ix: "pl_index ?pl ?w = Inr i" using m(1) i wf_plist_lookup(2) [of ?pl ?w i] by (auto simp: wf_pmap_def)
    have "?w \<in> mapped m" "?w \<in> mapped m'" using i mapped by auto
    then obtain d d' where d: "pm_index m ?w = Inr d" "pm_index m' ?w = Inr d'"
      using pm_index_mapped m(1,2) by metis
    then have "pm_data m ! i = Some d" "pm_data m' ! i = Some d'"
      using ix len i m(3) by (auto simp: pm_index_def res_simps)
    with index [OF d] show ?thesis by simp
  qed
  then have "pm_data m = pm_data m'" using len by (simp add: list_eq_iff_nth_eq)
  with m show ?thesis by (auto simp: wf_pmap_def intro: participant_map.equality)
qed

lemma broadcast_maps_agree:
  assumes inv: "bcast_inv pl faulty data S" and pl: "wf_plist pl" "tolerated pl faulty"
    and p: "p \<in> set (pl_participants pl) - faulty" "bn_returned (S p) = Some (Inr m)"
    and q: "q \<in> set (pl_participants pl) - faulty" "bn_returned (S q) = Some (Inr m')"
  shows "m = m'"
proof -
  have all: "\<And>r. r \<in> set (pl_participants pl) - faulty \<Longrightarrow>
      sent_ok pl (set (pl_participants pl) - faulty) data (bcast_sent S) r" using inv by (simp add: bcast_inv_def)
  note m = bcast_returned [OF inv p] and m' = bcast_returned [OF inv q]
  have "d = d'" if "pm_index m w = Inr d" "pm_index m' w = Inr d'" for w d d'
    using m(4) [OF that(1)] m'(4) [OF that(2)] echo_quorum_unique [OF pl all] by auto
  then show ?thesis using m(1-3) m'(1-3) by (intro pmap_eqI) auto
qed

lemma broadcast_maps_own:
  assumes inv: "bcast_inv pl faulty data S" and pl: "wf_plist pl" "tolerated pl faulty"
    and p: "p \<in> set (pl_participants pl) - faulty" "bn_returned (S p) = Some (Inr m)"
    and w: "w \<in> set (pl_participants pl) - faulty"
  shows "pm_index m w = Inr (data w)"
proof -
  have all: "\<And>r. r \<in> set (pl_participants pl) - faulty \<Longrightarrow>
      sent_ok pl (set (pl_participants pl) - faulty) data (bcast_sent S) r" using inv by (simp add: bcast_inv_def)
  note m = bcast_returned [OF inv p]
  obtain d where d: "pm_index m w = Inr d" using pm_index_mapped [OF m(1)] m(3) w by blast
  then show ?thesis using m(4) [OF d] echo_quorum_integrity [OF pl all] w by blast
qed

text \<open>
  C31. While fewer than a third of the participants are faulty (at most \<open>(n - 1) div 3\<close> of \<open>n\<close>, none when
  there are at most three), in every state the broadcast can reach, whatever the faulty ones send and however the network delays, reorders,
  repeats or loses messages, any two correct participants whose broadcast has returned hold the same map:
  a value for every participant, and for every correct participant the value it broadcast.
\<close>

theorem broadcast_agreement:
  assumes "participant_list_new ps = Some pl" "tolerated pl faulty" "broadcast_initial pl data S0"
    and "(broadcast_step pl faulty data)\<^sup>*\<^sup>* S0 S"
    and "p \<in> set (pl_participants pl) - faulty" "bn_returned (S p) = Some (Inr m)"
    and "q \<in> set (pl_participants pl) - faulty" "bn_returned (S q) = Some (Inr m')"
  shows "m = m' \<and> (\<forall>w. w \<in> set (pl_participants pl) \<longrightarrow> (\<exists>d. pm_index m w = Inr d)) \<and>
    (\<forall>w. w \<in> set (pl_participants pl) - faulty \<longrightarrow> pm_index m w = Inr (data w))"
proof -
  have pl: "wf_plist pl" using assms(1) by (rule participant_list_new_wf)
  note inv = bcast_inv_reachable [OF assms(4,3) pl assms(2)]
  have "\<exists>d. pm_index m w = Inr d" if "w \<in> set (pl_participants pl)" for w
    using that bcast_returned(1,3) [OF inv assms(5,6)] by (intro pm_index_mapped) auto
  then show ?thesis
    using broadcast_maps_agree [OF inv pl assms(2) assms(5-8)] broadcast_maps_own [OF inv pl assms(2) assms(5,6)] by blast
qed

text \<open>A schedule: who takes the next step, on its simulated vote or on a vote received.\<close>

type_synonym 't bcast_action = "nat \<times> (nat \<times> nat \<times> 't message_type) option"

definition bcast_act :: "participant_list \<Rightarrow> nat list \<Rightarrow> (nat \<Rightarrow> 't) \<Rightarrow> 't bcast_action \<Rightarrow> 't broadcast_node list \<Rightarrow> 't broadcast_node list option" where
  "bcast_act pl faulty data a ns =
     (let (p, received) = a; node = ns ! p
      in if p < length ns \<and> p \<in> set (pl_participants pl) \<and> p \<notin> set faulty \<and> bn_returned node = None then
           case (bn_simulated node, received) of
             (Some (sid, vote), None) \<Rightarrow> Some (ns[p := iterate pl p (data p) p sid vote node])
           | (None, Some (q, sid, vote)) \<Rightarrow>
               if q \<in> set faulty \<or> (sid, vote) \<in> set (bn_sent (ns ! q))
               then Some (ns[p := iterate pl p (data p) q sid vote node]) else None
           | _ \<Rightarrow> None
         else None)"

fun bcast_run :: "participant_list \<Rightarrow> nat list \<Rightarrow> (nat \<Rightarrow> 't) \<Rightarrow> 't bcast_action list \<Rightarrow> 't broadcast_node list \<Rightarrow> 't broadcast_node list option" where
  "bcast_run pl faulty data [] ns = Some ns"
| "bcast_run pl faulty data (a # as) ns =
     (case bcast_act pl faulty data a ns of None \<Rightarrow> None | Some ns' \<Rightarrow> bcast_run pl faulty data as ns')"

lemma bcast_act_step:
  assumes "bcast_act pl faulty data a ns = Some ns'"
  shows "broadcast_step pl (set faulty) data ((!) ns) ((!) ns')"
proof -
  obtain p received where a: "a = (p, received)" by (cases a)
  have p: "p < length ns" "p \<in> set (pl_participants pl) - set faulty" "bn_returned (ns ! p) = None"
    using assms by (auto simp: bcast_act_def a Let_def split: if_splits)
  have upd: "(!) (ns[p := node]) = ((!) ns)(p := node)" for node using p(1) by (auto simp: fun_eq_iff nth_list_update)
  show ?thesis
  proof (cases received)
    case None
    then obtain sid vote where sim: "bn_simulated (ns ! p) = Some (sid, vote)" and ns': "ns' = ns[p := iterate pl p (data p) p sid vote (ns ! p)]"
      using assms p by (auto simp: bcast_act_def a Let_def split: option.splits)
    show ?thesis unfolding ns' upd by (rule bcast_simulated) (use p sim in auto)
  next
    case (Some r)
    then obtain q sid vote where sim: "bn_simulated (ns ! p) = None"
      and q: "q \<in> set faulty \<or> (sid, vote) \<in> set (bn_sent (ns ! q))" and ns': "ns' = ns[p := iterate pl p (data p) q sid vote (ns ! p)]"
      using assms p by (cases r) (auto simp: bcast_act_def a Let_def split: option.splits if_splits)
    show ?thesis unfolding ns' upd by (rule bcast_received) (use p sim q in auto)
  qed
qed

lemma bcast_run_steps:
  "bcast_run pl faulty data as ns = Some ns' \<Longrightarrow> (broadcast_step pl (set faulty) data)\<^sup>*\<^sup>* ((!) ns) ((!) ns')"
proof (induction as arbitrary: ns)
  case (Cons a as)
  then obtain ns1 where "bcast_act pl faulty data a ns = Some ns1" "bcast_run pl faulty data as ns1 = Some ns'"
    by (auto split: option.splits)
  then show ?case using Cons.IH bcast_act_step converse_rtranclp_into_rtranclp by metis
qed simp

text \<open>Four participants, the last one faulty: it takes part as it likes, and participant 2 only starts.\<close>

definition bcast_pl :: participant_list where
  "bcast_pl = the (participant_list_new [0, 1, 2, 3])"

definition bcast_data :: "nat \<Rightarrow> nat" where
  "bcast_data p = p + 10"

definition bcast_nodes :: "nat broadcast_node list" where
  "bcast_nodes = map (\<lambda>p. case broadcast_node_new bcast_pl p (bcast_data p) of Inr node \<Rightarrow> node) [0, 1, 2, 3]"

definition bcast_schedule :: "nat bcast_action list" where
  "bcast_schedule = [
    (0, None), (0, None), (0, Some (1, 1, Send 11)), (0, None), (0, Some (2, 2, Send 12)), (0, None),
    (0, Some (3, 3, Send 13)), (0, None), (1, None), (1, None), (1, Some (0, 0, Send 10)), (1, None),
    (1, Some (2, 2, Send 12)), (1, None), (1, Some (3, 3, Send 13)), (1, None), (0, Some (1, 0, Echo 10)),
    (0, Some (3, 0, Echo 10)), (0, None), (0, Some (1, 1, Echo 11)), (0, Some (3, 1, Echo 11)), (0, None),
    (0, Some (1, 2, Echo 12)), (0, Some (3, 2, Echo 12)), (0, None), (0, Some (1, 3, Echo 13)),
    (0, Some (3, 3, Echo 13)), (0, None), (1, Some (0, 0, Echo 10)), (1, Some (3, 0, Echo 10)), (1, None),
    (1, Some (0, 1, Echo 11)), (1, Some (3, 1, Echo 11)), (1, None), (1, Some (0, 2, Echo 12)),
    (1, Some (3, 2, Echo 12)), (1, None), (1, Some (0, 3, Echo 13)), (1, Some (3, 3, Echo 13)), (1, None),
    (0, Some (1, 0, Ready 10)), (0, None), (0, Some (3, 0, Ready 10)), (0, Some (1, 1, Ready 11)), (0, None),
    (0, Some (3, 1, Ready 11)), (0, Some (1, 2, Ready 12)), (0, None), (0, Some (3, 2, Ready 12)),
    (0, Some (1, 3, Ready 13)), (0, None), (0, Some (3, 3, Ready 13)), (1, Some (0, 0, Ready 10)), (1, None),
    (1, Some (3, 0, Ready 10)), (1, Some (0, 1, Ready 11)), (1, None), (1, Some (3, 1, Ready 11)),
    (1, Some (0, 2, Ready 12)), (1, None), (1, Some (3, 2, Ready 12)), (1, Some (0, 3, Ready 13)), (1, None),
    (1, Some (3, 3, Ready 13))]"

definition bcast_final :: "nat broadcast_node list" where
  "bcast_final = the (bcast_run bcast_pl [3] bcast_data bcast_schedule bcast_nodes)"

definition bcast_out :: "nat participant_map" where
  "bcast_out = \<lparr>pm_participants = bcast_pl, pm_data = [Some 10, Some 11, Some 12, Some 13], pm_count = 4\<rparr>"

lemma bcast_example:
  "participant_list_new [0, 1, 2, 3] = Some bcast_pl" "tolerated bcast_pl (set [3])"
  "list_all (\<lambda>p. broadcast_node_new bcast_pl p (bcast_data p) = Inr (bcast_nodes ! p)) (pl_participants bcast_pl)"
  by code_simp+

lemma bcast_example_run:
  "bcast_run bcast_pl [3] bcast_data bcast_schedule bcast_nodes = Some bcast_final"
  "bn_returned (bcast_final ! 0) = Some (Inr bcast_out)" "bn_returned (bcast_final ! 1) = Some (Inr bcast_out)"
  by code_simp+

lemma bcast_example_initial: "broadcast_initial bcast_pl bcast_data ((!) bcast_nodes)"
  using bcast_example(3) by (simp add: broadcast_initial_def list_all_iff)

theorem broadcast_agreement_witness:
  "bn_returned (bcast_final ! 0) = Some (Inr bcast_out) \<and> bn_returned (bcast_final ! 1) = Some (Inr bcast_out) \<and>
   pm_index bcast_out 2 = Inr (bcast_data 2)"
proof -
  have members: "0 \<in> set (pl_participants bcast_pl) - set [3]" "1 \<in> set (pl_participants bcast_pl) - set [3]"
    "2 \<in> set (pl_participants bcast_pl) - set [3]" by code_simp+
  have "(broadcast_step bcast_pl (set [3]) bcast_data)\<^sup>*\<^sup>* ((!) bcast_nodes) ((!) bcast_final)"
    by (rule bcast_run_steps [OF bcast_example_run(1)])
  from broadcast_agreement [OF bcast_example(1,2) bcast_example_initial this members(1) bcast_example_run(2) members(2) bcast_example_run(3)]
  show ?thesis using members(3) bcast_example_run(2,3) by blast
qed

end
