(* ===== verification/KeyGeneration.thy ===== *)
theory KeyGeneration
  imports Dkg EchoBroadcast
begin

text \<open>
  The entry points of the threshold signature library (\<^verbatim>\<open>crates/threshold-signatures/src/lib.rs\<close>): key
  generation, resharing and refresh start with checks of their arguments and then run the protocol of
  \<^verbatim>\<open>dkg.rs\<close>; a tweak derives shares and keys from those a run ends with. Here the protocol and the reliable
  broadcast it runs on are put together: what key generation needs of the broadcast is what is proved of
  it, so the guarantee holds with no assumption on what is delivered.
\<close>

section \<open>Entry points\<close>

text \<open>A protocol that was started takes its randomness and its messages and returns when it has all of them.\<close>

definition keygen ::
    "('s :: field, 'g :: ab_group_add, 'm) frost_suite_scheme \<Rightarrow> ('r, 's, 'g) rng_ops \<Rightarrow> nat \<Rightarrow> nat list \<Rightarrow> nat \<Rightarrow> nat \<Rightarrow>
       init_abort + ('r \<Rightarrow> ('s, 'g) keyshare_inbox \<Rightarrow> ('s, 'g) keygen_output ts_res option)" where
  "keygen fr rng scalar_size participants me threshold =
     bind_res (assert_key_invariants participants me threshold) (\<lambda>participants.
     Inr (do_keygen fr rng scalar_size participants me threshold))"

definition reshare ::
    "('s :: field, 'g :: ab_group_add, 'm) frost_suite_scheme \<Rightarrow> ('r, 's, 'g) rng_ops \<Rightarrow> nat \<Rightarrow> nat list \<Rightarrow> nat \<Rightarrow>
       's option \<Rightarrow> 'g \<Rightarrow> nat list \<Rightarrow> nat \<Rightarrow> nat \<Rightarrow>
       init_abort + ('r \<Rightarrow> ('s, 'g) keyshare_inbox \<Rightarrow> ('s, 'g) keygen_output ts_res option)" where
  "reshare fr rng scalar_size old_participants old_threshold old_signing_key old_public_key new_participants new_threshold me =
     (let threshold = new_threshold
      in bind_res (assert_reshare_keys_invariants new_participants me threshold old_signing_key old_threshold old_participants)
         (\<lambda>(participants, old_participants).
         Inr (do_reshare fr rng scalar_size participants me threshold old_signing_key old_public_key old_participants)))"

definition refresh ::
    "('s :: field, 'g :: ab_group_add, 'm) frost_suite_scheme \<Rightarrow> ('r, 's, 'g) rng_ops \<Rightarrow> nat \<Rightarrow> 's option \<Rightarrow> 'g \<Rightarrow>
       nat list \<Rightarrow> nat \<Rightarrow> nat \<Rightarrow>
       init_abort + ('r \<Rightarrow> ('s, 'g) keyshare_inbox \<Rightarrow> ('s, 'g) keygen_output ts_res option)" where
  "refresh fr rng scalar_size old_signing_key old_public_key old_participants old_threshold me =
     (if old_signing_key = None then Inl (InitError BadParameters)
      else let threshold = old_threshold
        in bind_res (assert_reshare_keys_invariants old_participants me threshold old_signing_key threshold old_participants)
           (\<lambda>(participants, old_participants).
           Inr (do_reshare fr rng scalar_size participants me threshold old_signing_key old_public_key old_participants)))"

section \<open>Tweaks\<close>

definition derive_signing_share :: "'s :: field \<Rightarrow> 's \<Rightarrow> 's" where
  "derive_signing_share tweak private_share = private_share + tweak"

definition derive_verifying_key :: "('s, 'g :: ab_group_add, 'm) ciphersuite_scheme \<Rightarrow> 's \<Rightarrow> 'g \<Rightarrow> 'g" where
  "derive_verifying_key cs tweak public_key = public_key + cs_mul cs (cs_generator cs) tweak"

text \<open>The derived shares interpolate to the derived key.\<close>

lemma derived_interpolation:
  fixes g :: "'q \<Rightarrow> 's :: field"
  assumes d: "distinct (map g qs)" "2 \<le> length qs" "length qs \<le> 2 ^ 32"
    and x: "eval_interpolation (map g qs) (map f qs) None = Inr x"
  shows "eval_interpolation (map g qs) (map (\<lambda>q. derive_signing_share tweak (f q)) qs) None =
    Inr (derive_signing_share tweak x)"
proof -
  let ?l = "\<lambda>q. lagrange_basis (g ` set qs) (g q) (point_or_zero None)"
  have card: "card (g ` set qs) = length qs"
    using d(1) by (metis distinct_card length_map set_map)
  have inj: "inj_on g (set qs)" using d(1) by (simp add: distinct_map)
  have "poly_fun (card (g ` set qs)) (\<lambda>_. tweak)"
    unfolding poly_fun_def using d(2) card by (intro exI [of _ "[tweak]"]) (auto simp: horner_def)
  from lagrange_interpolation [OF this, of "point_or_zero None"]
  have "(\<Sum>q \<in> set qs. ?l q * tweak) = tweak" using inj by (simp add: sum.reindex)
  moreover have "(\<Sum>q \<in> set qs. ?l q * f q) = x"
    using x eval_interpolation_sum [OF d, of f None] by simp
  ultimately show ?thesis
    using eval_interpolation_sum [OF d, of "\<lambda>q. derive_signing_share tweak (f q)" None]
    by (simp add: derive_signing_share_def distrib_left sum.distrib)
qed

lemma derived_key:
  assumes "suite_laws cs" "X = cs_mul cs (cs_generator cs) x"
  shows "derive_verifying_key cs tweak X = cs_mul cs (cs_generator cs) (derive_signing_share tweak x)"
  using suite_mul(2) [OF assms(1)] assms(2) by (simp add: derive_verifying_key_def derive_signing_share_def)

section \<open>Key generation over the broadcast\<close>

lemma u32_plist_new:
  "participant_list_new ps = Some pl \<Longrightarrow> list_all (\<lambda>p. p < 2 ^ 32) ps \<Longrightarrow> u32_plist pl"
  by (auto simp: u32_plist_def participant_list_new_Some list_all_iff)

text \<open>
  C32. Key generation and resharing give a threshold of honest participants the secret key, over any
  network and against any faulty participants the broadcast tolerates. Take a state the broadcast of the
  commitments can reach, and honest participants, at least \<open>t\<close> of them, that complete the protocol on what
  that broadcast returned to them. Then their private shares interpolate to a scalar \<open>x\<close>, each of them
  holds \<open>x\<close> times the generator as the public key, and for a resharing that is the old public key.
  Moreover for every tweak the derived shares interpolate to the derived secret, whose public key is the
  derived public key. Hashes, proofs, shares and votes received from others are arbitrary.
\<close>

theorem keygen_threshold_key:
  fixes fr :: "('s :: field, 'g :: ab_group_add, 'm) frost_suite_scheme"
  assumes laws: "frost_laws fr" and ps: "participant_list_new ps = Some pl" "list_all (\<lambda>p. p < 2 ^ 32) ps" and t: "2 \<le> t"
    and faulty: "tolerated pl faulty"
    and bcast: "broadcast_initial pl message S0" "(broadcast_step pl faulty message)\<^sup>*\<^sup>* S0 S"
    and Q: "distinct Q" "set Q \<subseteq> set (pl_participants pl) - faulty" "t \<le> length Q"
    and sent: "\<forall>p \<in> set Q. keyshare_broadcast fr rng sz p t (secret p) pkg (r p) (inbox p) = Inr (message p)"
    and returned: "\<forall>p \<in> set Q. bn_returned (S p) = Some (ki_commitments (inbox p))"
    and run: "\<forall>p \<in> set Q. do_keyshare fr rng sz pl p t (secret p) pkg (r p) (inbox p) = Some (Inr (out p))"
  shows "\<exists>x. eval_interpolation (map pscalar Q) (map (\<lambda>p. ko_private_share (out p)) Q) None = Inr x \<and>
    (\<forall>p \<in> set Q. ko_public_key (out p) = cs_mul fr (cs_generator fr) x) \<and>
    (case pkg of None \<Rightarrow> True | Some (old_key, _) \<Rightarrow> cs_mul fr (cs_generator fr) x = old_key) \<and>
    (\<forall>tweak. eval_interpolation (map pscalar Q) (map (\<lambda>p. derive_signing_share tweak (ko_private_share (out p))) Q) None =
        Inr (derive_signing_share tweak x) \<and>
      (\<forall>p \<in> set Q. derive_verifying_key fr tweak (ko_public_key (out p)) =
        cs_mul fr (cs_generator fr) (derive_signing_share tweak x)))"
proof -
  have pl: "wf_plist pl" "u32_plist pl" using participant_list_new_wf u32_plist_new ps by auto
  note inv = bcast_inv_reachable [OF bcast(2,1) pl(1) faulty]
  have "Q \<noteq> []" using Q(3) t by auto
  then have h: "hd Q \<in> set Q" by simp
  have got: "\<exists>m. ki_commitments (inbox p) = Inr m" if "p \<in> set Q" for p
    using run that by (auto simp: do_keyshare_def res_simps Let_def case_prod_unfold)
  then obtain received where rec: "ki_commitments (inbox (hd Q)) = Inr received" using h by blast
  have agreed: "m = received \<and> pm_index received p = Inr (message p)" if p: "p \<in> set Q" "ki_commitments (inbox p) = Inr m" for p m
    using broadcast_maps_agree [OF inv pl(1) faulty, of p m "hd Q" received] returned p h rec Q(2)
      broadcast_maps_own [OF inv pl(1) faulty, of "hd Q" received p] by auto
  have all: "ki_commitments (inbox p) = Inr received" "pm_index received p = Inr (message p)" if "p \<in> set Q" for p
    using got [OF that] agreed [OF that] by auto
  have "\<exists>x. eval_interpolation (map pscalar Q) (map (\<lambda>p. ko_private_share (out p)) Q) None = Inr x \<and>
    (\<forall>p \<in> set Q. ko_public_key (out p) = cs_mul fr (cs_generator fr) x) \<and>
    (case pkg of None \<Rightarrow> True | Some (old_key, _) \<Rightarrow> cs_mul fr (cs_generator fr) x = old_key)"
    by (rule shares_hold_key [OF laws pl(2) t Q(1) _ Q(3) run, of received])
      (use Q(2) all sent in \<open>auto simp: is_ok_iff\<close>)
  then obtain x where x: "eval_interpolation (map pscalar Q) (map (\<lambda>p. ko_private_share (out p)) Q) None = Inr x"
    "\<forall>p \<in> set Q. ko_public_key (out p) = cs_mul fr (cs_generator fr) x"
    "case pkg of None \<Rightarrow> True | Some (old_key, _) \<Rightarrow> cs_mul fr (cs_generator fr) x = old_key" by blast
  note sl = frost_suite_laws [OF laws]
  have lt: "\<forall>p \<in> set Q. p < 2 ^ 32" using Q(2) pl(2) by (auto simp: u32_plist_def)
  have d: "distinct (map pscalar Q :: 's list)" using distinct_pscalars [OF sl Q(1) lt] .
  have n: "2 \<le> length Q" "length Q \<le> 2 ^ 32" using t Q(3) distinct_u32_length [OF Q(1) lt] by auto
  show ?thesis using x derived_interpolation [OF d n x(1)] derived_key [OF sl]
    by (intro exI [of _ x] conjI allI ballI) auto
qed

text \<open>
  The run of two participants over the rationals, with the broadcast of their commitments: each first
  handles its own vote and then the one of the other.
\<close>

definition kg_message :: "nat \<Rightarrow> rat list \<times> (rat, rat) signature_rz option" where
  "kg_message p = (if p = 0 then ([5, 2], Some \<lparr>sig_R = 1, sig_z = 36\<rparr>) else ([7, 3], Some \<lparr>sig_R = 1, sig_z = 50\<rparr>))"

definition kg_nodes :: "(rat list \<times> (rat, rat) signature_rz option) broadcast_node list" where
  "kg_nodes = map (\<lambda>p. case broadcast_node_new ex_plist p (kg_message p) of Inr node \<Rightarrow> node) [0, 1]"

definition kg_schedule :: "(rat list \<times> (rat, rat) signature_rz option) bcast_action list" where
  "kg_schedule = concat (map (\<lambda>p. [(p, None), (p, None), (p, None), (p, None),
     (p, Some (1 - p, 1 - p, Send (kg_message (1 - p)))), (p, None), (p, None)]) [0, 1])"

definition kg_final :: "(rat list \<times> (rat, rat) signature_rz option) broadcast_node list" where
  "kg_final = the (bcast_run ex_plist [] kg_message kg_schedule kg_nodes)"

lemma kg_example:
  "list_all (\<lambda>p. broadcast_node_new ex_plist p (kg_message p) = Inr (kg_nodes ! p)) (pl_participants ex_plist)"
  "bcast_run ex_plist [] kg_message kg_schedule kg_nodes = Some kg_final"
  "bn_returned (kg_final ! 0) = Some (Inr ex_received)" "bn_returned (kg_final ! 1) = Some (Inr ex_received)"
  "tolerated ex_plist (set [])"
  by code_simp+

lemma kg_initial: "broadcast_initial ex_plist kg_message ((!) kg_nodes)"
  using kg_example(1) by (simp add: broadcast_initial_def list_all_iff)

lemma kg_messages: "p < 2 \<Longrightarrow> pm_index ex_received p = Inr (kg_message p)"
  by (auto simp: less_2_cases_iff' kg_message_def pm_index_def pl_index_def ex_received_def ex_plist_def)

theorem keygen_threshold_key_witness:
  "do_keyshare rat_frost rat_rng 32 ex_plist 0 2 5 None [2] (ex_inbox 0) =
     Some (Inr \<lparr>ko_private_share = 17, ko_public_key = 12\<rparr>) \<and>
   do_keyshare rat_frost rat_rng 32 ex_plist 1 2 7 None [3] (ex_inbox 1) =
     Some (Inr \<lparr>ko_private_share = 22, ko_public_key = 12\<rparr>) \<and>
   (\<exists>x. eval_interpolation [1, 2] [17, 22] None = Inr x \<and> 12 = cs_mul rat_frost (cs_generator rat_frost) x \<and>
      eval_interpolation [1, 2] [derive_signing_share 1 17, derive_signing_share 1 22] None = Inr (derive_signing_share 1 x))"
proof -
  have two: "\<And>p. p \<in> set [0, 1] \<Longrightarrow> p < (2 :: nat)" by auto
  have new: "participant_list_new [0, 1] = Some ex_plist" by (simp add: participant_list_new_def ex_plist_def)
  have steps: "(broadcast_step ex_plist (set []) kg_message)\<^sup>*\<^sup>* ((!) kg_nodes) ((!) kg_final)"
    by (rule bcast_run_steps [OF kg_example(2)])
  have sent: "\<forall>p \<in> set [0, 1]. keyshare_broadcast rat_frost rat_rng 32 p 2 (ex_secret p) None (ex_coins p) (ex_inbox p) = Inr (kg_message p)"
    using ex_run kg_messages two by fastforce
  have ret: "\<forall>p \<in> set [0, 1]. bn_returned (kg_final ! p) = Some (ki_commitments (ex_inbox p))"
    using kg_example(3,4) by (simp add: ex_inbox_def)
  have run: "\<forall>p \<in> set [0, 1]. do_keyshare rat_frost rat_rng 32 ex_plist p 2 (ex_secret p) None (ex_coins p) (ex_inbox p) = Some (Inr (ex_out p))"
    using ex_run two by blast
  have "list_all (\<lambda>p. p < 2 ^ 32) [0, 1 :: nat]" "distinct [0, 1 :: nat]" "2 \<le> length [0, 1 :: nat]"
    "set [0, 1] \<subseteq> set (pl_participants ex_plist) - set []" by (auto simp: ex_plist_def)
  from keygen_threshold_key [OF rat_frost_laws new this(1) _ kg_example(5) kg_initial steps this(2,4,3) sent ret run]
  show ?thesis using ex_run(1) [of 0] ex_run(1) [of 1]
    by (auto simp: ex_secret_def ex_coins_def ex_out_def pscalar_def)
qed

end
