(* ===== verification/UniqueIds.thy ===== *)
theory UniqueIds
  imports Bytes "HOL-Library.Word"
begin

unbundle bit_operations_syntax

text \<open>
  Identifiers of assets (\<^verbatim>\<open>UniqueId\<close> of \<^verbatim>\<open>crates/node/src/primitives.rs\<close>): 128 bits holding the participant
  that owns the asset, the second it was made in and a counter. The wall clock is an argument. A
  computation that panics, or fails and is unwrapped, has the value \<open>None\<close>.
\<close>

section \<open>Fields\<close>

type_synonym unique_id = "128 word"

definition unique_id_new :: "32 word \<Rightarrow> 64 word \<Rightarrow> 32 word \<Rightarrow> unique_id" where
  "unique_id_new participant_id timestamp counter =
     (push_bit 96 (ucast participant_id) OR push_bit 32 (ucast timestamp)) OR ucast counter"

definition uid_participant_id :: "unique_id \<Rightarrow> 32 word" where
  "uid_participant_id self = ucast (drop_bit 96 self)"

definition uid_timestamp :: "unique_id \<Rightarrow> 64 word" where
  "uid_timestamp self = ucast (drop_bit 32 self AND (push_bit 64 1 - 1))"

definition uid_counter :: "unique_id \<Rightarrow> 32 word" where
  "uid_counter self = ucast (self AND (push_bit 32 1 - 1))"

definition prefix_for_participant_id :: "32 word \<Rightarrow> nat list" where
  "prefix_for_participant_id participant_id = be_bytes 4 (unat participant_id)"

section \<open>New identifiers\<close>

definition pick_new_after :: "64 word \<Rightarrow> unique_id \<Rightarrow> unique_id option" where
  "pick_new_after now self =
     (if now > uid_timestamp self then Some (unique_id_new (uid_participant_id self) now 0)
      else if unat (uid_counter self) + 1 < 2 ^ 32
        then Some (unique_id_new (uid_participant_id self) (uid_timestamp self) (uid_counter self + 1))
        else None)"

definition add_to_counter :: "unique_id \<Rightarrow> 32 word \<Rightarrow> unique_id option" where
  "add_to_counter self delta =
     (if unat (uid_counter self) + unat delta < 2 ^ 32
      then Some (unique_id_new (uid_participant_id self) (uid_timestamp self) (uid_counter self + delta))
      else None)"

section \<open>Encoding\<close>

definition uid_serialize :: "unique_id \<Rightarrow> nat list" where
  "uid_serialize self = be_bytes 16 (unat self)"

definition uid_deserialize :: "nat list \<Rightarrow> unique_id option" where
  "uid_deserialize bytes = (if length bytes = 16 then Some (word_of_nat (be_value bytes)) else None)"

section \<open>The fields are separate\<close>

lemma unat_bound: "unat (w :: 'a :: len word) < 2 ^ LENGTH('a)"
  by (rule unsigned_less)

lemma uid_timestamp_take_bit: "uid_timestamp u = ucast (take_bit 64 (drop_bit 32 u))"
proof -
  have "push_bit 64 1 - 1 = (mask 64 :: 128 word)" by (simp add: mask_eq_exp_minus_1 push_bit_eq_mult)
  then show ?thesis unfolding uid_timestamp_def by (simp only: take_bit_eq_mask)
qed

lemma uid_counter_take_bit: "uid_counter u = ucast (take_bit 32 u)"
proof -
  have "push_bit 32 1 - 1 = (mask 32 :: 128 word)" by (simp add: mask_eq_exp_minus_1 push_bit_eq_mult)
  then show ?thesis unfolding uid_counter_def by (simp only: take_bit_eq_mask)
qed

lemma bit_uid:
  "bit (uid_participant_id u) n \<longleftrightarrow> n < 32 \<and> bit u (n + 96)"
  "bit (uid_timestamp u) n \<longleftrightarrow> n < 64 \<and> bit u (n + 32)"
  "bit (uid_counter u) n \<longleftrightarrow> n < 32 \<and> bit u n"
  by (auto simp: uid_participant_id_def uid_timestamp_take_bit uid_counter_take_bit bit_simps add.commute)

lemma bit_unique_id_new:
  "n < 128 \<Longrightarrow> bit (unique_id_new p t c) n \<longleftrightarrow> (if n < 32 then bit c n else if n < 96 then bit t (n - 32) else bit p (n - 96))"
  by (auto simp: unique_id_new_def bit_simps dest: bit_imp_le_length)

lemma uid_fields [simp]:
  "uid_participant_id (unique_id_new p t c) = p"
  "uid_timestamp (unique_id_new p t c) = t"
  "uid_counter (unique_id_new p t c) = c"
  by (rule bit_word_eqI; simp add: bit_uid bit_unique_id_new)+

lemma unique_id_new_fields [simp]:
  "unique_id_new (uid_participant_id u) (uid_timestamp u) (uid_counter u) = u"
  by (rule bit_word_eqI) (auto simp: bit_uid bit_unique_id_new)

text \<open>Each identifier is a number with three digits.\<close>

lemma unat_uid_fields:
  "unat (uid_participant_id u) = unat u div 2 ^ 96"
  "unat (uid_timestamp u) = unat u div 2 ^ 32 mod 2 ^ 64"
  "unat (uid_counter u) = unat u mod 2 ^ 32"
proof -
  have lt: "unat u < 2 ^ 128" using unat_bound [of u] by simp
  then have "unat u div 2 ^ 96 < 2 ^ 32" by (simp add: less_mult_imp_div_less)
  then show "unat (uid_participant_id u) = unat u div 2 ^ 96"
    by (simp add: uid_participant_id_def unsigned_ucast_eq unsigned_drop_bit_eq drop_bit_nat_def take_bit_nat_def)
  show "unat (uid_timestamp u) = unat u div 2 ^ 32 mod 2 ^ 64"
    using lt by (simp add: uid_timestamp_take_bit unsigned_ucast_eq unsigned_drop_bit_eq unsigned_take_bit_eq drop_bit_nat_def take_bit_nat_def)
  show "unat (uid_counter u) = unat u mod 2 ^ 32"
    by (simp add: uid_counter_take_bit unsigned_ucast_eq unsigned_take_bit_eq take_bit_nat_def)
qed

lemma unat_uid:
  "unat u = (unat (uid_participant_id u) * 2 ^ 64 + unat (uid_timestamp u)) * 2 ^ 32 + unat (uid_counter u)"
proof -
  have "unat u div 2 ^ 32 div 2 ^ 64 = unat u div 2 ^ 96" by (simp add: div_mult2_eq [symmetric] power_add [symmetric])
  then have "(unat (uid_participant_id u) * 2 ^ 64 + unat (uid_timestamp u)) = unat u div 2 ^ 32"
    unfolding unat_uid_fields by (metis div_mult_mod_eq)
  then show ?thesis unfolding unat_uid_fields(3) by (metis div_mult_mod_eq)
qed

text \<open>Their order is the order of participant, second and counter.\<close>

lemma unat_unique_id_new:
  "unat (unique_id_new p t c) = (unat p * 2 ^ 64 + unat t) * 2 ^ 32 + unat c"
  using unat_uid [of "unique_id_new p t c"] by simp

lemma uid_less_later:
  assumes "uid_participant_id u = uid_participant_id v" "uid_timestamp u < uid_timestamp v"
  shows "u < v"
proof -
  have "unat (uid_counter u) < 2 ^ 32" using unat_bound [of "uid_counter u"] by simp
  moreover have "unat (uid_timestamp u) + 1 \<le> unat (uid_timestamp v)" using assms(2) by (simp add: word_less_nat_alt)
  then have "(unat (uid_timestamp u) + 1) * 2 ^ 32 \<le> unat (uid_timestamp v) * 2 ^ 32" by (rule mult_right_mono) simp
  ultimately show ?thesis
    using unat_uid [of u] unat_uid [of v] assms(1) by (simp add: word_less_nat_alt add_mult_distrib)
qed

lemma uid_less_counter:
  assumes "uid_participant_id u = uid_participant_id v" "uid_timestamp u = uid_timestamp v"
  shows "u < v \<longleftrightarrow> uid_counter u < uid_counter v" "unat v - unat u = unat (uid_counter v) - unat (uid_counter u)"
  using unat_uid [of u] unat_uid [of v] assms by (simp_all add: word_less_nat_alt)

lemma add_to_counter_Some:
  assumes "add_to_counter u delta = Some v"
  shows "uid_participant_id v = uid_participant_id u" "uid_timestamp v = uid_timestamp u"
    "unat v = unat u + unat delta"
proof -
  have v: "v = unique_id_new (uid_participant_id u) (uid_timestamp u) (uid_counter u + delta)"
    and lt: "unat (uid_counter u) + unat delta < 2 ^ 32"
    using assms by (auto simp: add_to_counter_def split: if_splits)
  show "uid_participant_id v = uid_participant_id u" "uid_timestamp v = uid_timestamp u" by (simp_all add: v)
  have "unat (uid_counter u + delta) = unat (uid_counter u) + unat delta"
    using lt by (simp add: unat_word_ariths)
  then show "unat v = unat u + unat delta" using unat_uid [of u] by (simp add: v unat_unique_id_new)
qed

lemma pick_new_after_Some:
  assumes "pick_new_after now u = Some v"
  shows "u < v" "uid_participant_id v = uid_participant_id u"
proof -
  show p: "uid_participant_id v = uid_participant_id u" using assms by (auto simp: pick_new_after_def split: if_splits)
  show "u < v"
  proof (cases "now > uid_timestamp u")
    case True
    then show ?thesis using assms by (intro uid_less_later) (auto simp: pick_new_after_def)
  next
    case False
    then have v: "v = unique_id_new (uid_participant_id u) (uid_timestamp u) (uid_counter u + 1)"
      and lt: "unat (uid_counter u) + 1 < 2 ^ 32"
      using assms by (auto simp: pick_new_after_def split: if_splits)
    have "unat (uid_counter u + 1) = unat (uid_counter u) + 1" using lt by (simp add: unat_word_ariths)
    then show ?thesis by (subst uid_less_counter(1)) (simp_all add: v word_less_nat_alt)
  qed
qed

text \<open>A new identifier can be picked unless the counter of the second is used up.\<close>

lemma pick_new_after_None: "pick_new_after now u = None \<longleftrightarrow> now \<le> uid_timestamp u \<and> uid_counter u = - 1"
proof -
  have "unat (uid_counter u) + 1 < 2 ^ 32 \<longleftrightarrow> uid_counter u \<noteq> - 1"
    using unat_bound [of "uid_counter u"] by (auto simp: word_unat_eq_iff unsigned_minus_1_eq_mask mask_eq_exp_minus_1)
  then show ?thesis by (auto simp: pick_new_after_def not_less)
qed

section \<open>Keys\<close>

lemma uid_bytes_roundtrip: "uid_deserialize (uid_serialize u) = Some u"
  using unat_bound [of u] by (simp add: uid_serialize_def uid_deserialize_def be_value_be_bytes)

text \<open>The order of the encodings is the order of the identifiers, and the first bytes are those of the participant.\<close>

lemma uid_bytes_less: "bytes_less (uid_serialize u) (uid_serialize v) \<longleftrightarrow> u < v"
  using unat_bound [of u] unat_bound [of v]
  by (simp add: uid_serialize_def bytes_less_be_bytes word_less_nat_alt)

lemma uid_bytes_split:
  "uid_serialize u = prefix_for_participant_id (uid_participant_id u) @ be_bytes 12 (unat u)"
  using be_bytes_append [of 4 12 "unat u"]
  by (simp add: uid_serialize_def prefix_for_participant_id_def unat_uid_fields power_mult [of 2 8 12, symmetric])

lemma prefix_less:
  "bytes_less (prefix_for_participant_id p) (prefix_for_participant_id q) \<longleftrightarrow> p < q"
  using unat_bound [of p] unat_bound [of q]
  by (simp add: prefix_for_participant_id_def bytes_less_be_bytes word_less_nat_alt)

lemma prefix_inj: "prefix_for_participant_id p = prefix_for_participant_id q \<longleftrightarrow> p = q"
  using prefix_less [of p q] prefix_less [of q p] by (metis bytes_less_irrefl linorder_less_linear)

lemma length_prefix [simp]: "length (prefix_for_participant_id p) = 4"
  by (simp add: prefix_for_participant_id_def)

end
