(* ===== verification/Simulation.thy ===== *)
theory Simulation
  imports Main
begin

text \<open>
  Labelled steps, their runs, and forward simulations: a detailed system implements an abstract one when an
  invariant is kept and every step, seen through an abstraction function, is an abstract step with the same
  label. A component is compared with its specification by interpreting the locale.
\<close>

inductive lrun :: "('l \<Rightarrow> 's \<Rightarrow> 's \<Rightarrow> bool) \<Rightarrow> 'l list \<Rightarrow> 's \<Rightarrow> 's \<Rightarrow> bool" for step where
  lrun_nil: "lrun step [] s s"
| lrun_snoc: "lrun step ls s s' \<Longrightarrow> step l s' s'' \<Longrightarrow> lrun step (ls @ [l]) s s''"

lemma lrun_append: "lrun step ms s' s'' \<Longrightarrow> lrun step ls s s' \<Longrightarrow> lrun step (ls @ ms) s s''"
  by (induction rule: lrun.induct) (auto simp: lrun_snoc simp flip: append_assoc)

lemma lrun_single: "step l s s' \<Longrightarrow> lrun step [l] s s'"
  using lrun_snoc [OF lrun_nil] by simp

lemma lrun_invariant:
  assumes "lrun step ls s s'" "P s" "\<And>l s s'. P s \<Longrightarrow> step l s s' \<Longrightarrow> P s'"
  shows "P s'"
  using assms by (induction rule: lrun.induct) auto

locale forward_simulation =
  fixes inv :: "'s \<Rightarrow> bool" and step :: "'l \<Rightarrow> 's \<Rightarrow> 's \<Rightarrow> bool"
    and abstract :: "'s \<Rightarrow> 'a" and astep :: "'l \<Rightarrow> 'a \<Rightarrow> 'a \<Rightarrow> bool"
  assumes inv_step: "inv s \<Longrightarrow> step l s s' \<Longrightarrow> inv s'"
    and simulates: "inv s \<Longrightarrow> step l s s' \<Longrightarrow> astep l (abstract s) (abstract s')"
begin

lemma run_inv: "lrun step ls s s' \<Longrightarrow> inv s \<Longrightarrow> inv s'"
  using lrun_invariant [of step ls s s' inv] inv_step by blast

lemma run_simulates: "lrun step ls s s' \<Longrightarrow> inv s \<Longrightarrow> lrun astep ls (abstract s) (abstract s')"
proof (induction rule: lrun.induct)
  case (lrun_snoc ls s s' l s'')
  then show ?case using run_inv simulates lrun.lrun_snoc by metis
qed (rule lrun_nil)

end

end
