(* ===== verification/AssetQueues.thy ===== *)
theory AssetQueues
  imports UniqueIds Simulation "HOL-Library.Multiset"
begin

text \<open>
  The queues a node keeps its own triples and presignatures in (\<^verbatim>\<open>ColdQueue\<close> and \<^verbatim>\<open>DoubleQueue\<close> of
  \<^verbatim>\<open>crates/node/src/assets.rs\<close>). The cold queue is sorted into three sections by whether an asset satisfies a
  condition on the participants that are alive; the hot queue is a channel of new assets. The condition is
  an argument, as are the time and the condition value that the fetcher returns when an operation reads
  them. Each operation runs under the lock of the queue, so tasks interleave operation by operation. A
  panic has the value \<open>None\<close>.

  The queues are shown to implement a bag of assets: every asset that was added is given out or discarded
  at most once, given out only while it satisfies the condition and discarded only while it does not.
\<close>

section \<open>The cold queue\<close>

type_synonym 't asset = "unique_id \<times> 't"

record ('t, 'c) cold_queue =
  cold_ready :: nat
  cold_available :: nat
  cold_assets :: "'t asset list"
  last_condition_value :: 'c
  next_fetch_due :: nat

text \<open>Times are in nanoseconds.\<close>

abbreviation CONDITION_REFRESH_INTERVAL :: nat where
  "CONDITION_REFRESH_INTERVAL \<equiv> 1000000000"

definition cold_queue_new :: "'c \<Rightarrow> nat \<Rightarrow> ('t, 'c) cold_queue" where
  "cold_queue_new initial now = \<lparr>cold_ready = 0, cold_available = 0, cold_assets = [],
     last_condition_value = initial, next_fetch_due = now\<rparr>"

definition update_condition_value :: "nat \<Rightarrow> 'c \<Rightarrow> ('t, 'c) cold_queue \<Rightarrow> ('t, 'c) cold_queue" where
  "update_condition_value now fetched self =
     (let self = self\<lparr>next_fetch_due := now + CONDITION_REFRESH_INTERVAL\<rparr>
      in if fetched \<noteq> last_condition_value self
         then self\<lparr>last_condition_value := fetched, cold_ready := 0, cold_available := length (cold_assets self)\<rparr>
         else self)"

definition update_condition_value_if_due :: "nat \<Rightarrow> 'c \<Rightarrow> ('t, 'c) cold_queue \<Rightarrow> ('t, 'c) cold_queue" where
  "update_condition_value_if_due now fetched self =
     (if now < next_fetch_due self then self else update_condition_value now fetched self)"

datatype 't cold_queue_take_result = Taken "'t asset" | NotTakenButSomeMayBeAvailable | NotTakenAndNoneAvailable

definition cold_take ::
    "('c \<Rightarrow> 't \<Rightarrow> bool) \<Rightarrow> nat \<Rightarrow> 'c \<Rightarrow> ('t, 'c) cold_queue \<Rightarrow> ('t cold_queue_take_result \<times> ('t, 'c) cold_queue) option" where
  "cold_take condition now fetched self =
     (let self = update_condition_value_if_due now fetched self
      in if cold_available self = 0 then Some (NotTakenAndNoneAvailable, self)
         else case cold_assets self of
           [] \<Rightarrow> None
         | (i, value) # rest \<Rightarrow>
             let self = self\<lparr>cold_assets := rest, cold_available := cold_available self - 1\<rparr>
             in if cold_ready self > 0 then Some (Taken (i, value), self\<lparr>cold_ready := cold_ready self - 1\<rparr>)
                else if condition (last_condition_value self) value then Some (Taken (i, value), self)
                else Some (NotTakenButSomeMayBeAvailable, self\<lparr>cold_assets := rest @ [(i, value)]\<rparr>))"

datatype 't cold_queue_discard_result = Discarded "'t asset" | NotDiscardedButSomeMayBeAvailable | NotDiscardedAndNoneAvailable

definition cold_discard ::
    "('c \<Rightarrow> 't \<Rightarrow> bool) \<Rightarrow> nat \<Rightarrow> 'c \<Rightarrow> ('t, 'c) cold_queue \<Rightarrow> ('t cold_queue_discard_result \<times> ('t, 'c) cold_queue) option" where
  "cold_discard condition now fetched self =
     (let self = update_condition_value_if_due now fetched self
      in if cold_ready self = length (cold_assets self) then Some (NotDiscardedAndNoneAvailable, self)
         else if cold_assets self = [] then None
         else
           let (i, value) = last (cold_assets self); rest = butlast (cold_assets self);
               unknown = cold_available self > length rest;
               self = self\<lparr>cold_assets := rest, cold_available := cold_available self - (if unknown then 1 else 0)\<rparr>
           in if \<not> (unknown \<and> condition (last_condition_value self) value) then Some (Discarded (i, value), self)
              else Some (NotDiscardedButSomeMayBeAvailable,
                self\<lparr>cold_assets := (i, value) # rest, cold_ready := cold_ready self + 1,
                  cold_available := cold_available self + 1\<rparr>))"

text \<open>The two ways to add an asset; the flag tells whether it was enqueued.\<close>

definition add_if_condition_satisfied ::
    "('c \<Rightarrow> 't \<Rightarrow> bool) \<Rightarrow> nat \<Rightarrow> 'c \<Rightarrow> 't asset \<Rightarrow> ('t, 'c) cold_queue \<Rightarrow> bool \<times> ('t, 'c) cold_queue" where
  "add_if_condition_satisfied condition now fetched a self =
     (let self = update_condition_value_if_due now fetched self
      in if condition (last_condition_value self) (snd a)
         then (True, self\<lparr>cold_assets := a # cold_assets self, cold_ready := cold_ready self + 1,
           cold_available := cold_available self + 1\<rparr>)
         else (False, self))"

definition add_if_condition_not_satisfied ::
    "('c \<Rightarrow> 't \<Rightarrow> bool) \<Rightarrow> nat \<Rightarrow> 'c \<Rightarrow> 't asset \<Rightarrow> ('t, 'c) cold_queue \<Rightarrow> bool \<times> ('t, 'c) cold_queue" where
  "add_if_condition_not_satisfied condition now fetched a self =
     (let self = update_condition_value_if_due now fetched self
      in if condition (last_condition_value self) (snd a) then (False, self)
         else (True, self\<lparr>cold_assets := cold_assets self @ [a]\<rparr>))"

section \<open>The double queue\<close>

record ('t, 'c) double_queue =
  hot_queue :: "'t asset list"
  cold_part :: "('t, 'c) cold_queue"

definition double_queue_new :: "'c \<Rightarrow> nat \<Rightarrow> ('t, 'c) double_queue" where
  "double_queue_new initial now = \<lparr>hot_queue = [], cold_part = cold_queue_new initial now\<rparr>"

definition dq_add_owned :: "'t asset \<Rightarrow> ('t, 'c) double_queue \<Rightarrow> ('t, 'c) double_queue" where
  "dq_add_owned a self = self\<lparr>hot_queue := hot_queue self @ [a]\<rparr>"

text \<open>
  \<^verbatim>\<open>take_owned\<close> as a task: before its first statement, at the head of the loop, waiting for a new asset or
  for a second to pass, and finished. While it waits, \<open>received\<close> tells which of the two happens first; the
  channel can only win when it is not empty.
\<close>

datatype 't taker = TakeStart | TakeLoop | TakeWait | TakeDone "'t asset"

fun take_owned_step ::
    "('c \<Rightarrow> 't \<Rightarrow> bool) \<Rightarrow> nat \<Rightarrow> 'c \<Rightarrow> bool \<Rightarrow> 't taker \<Rightarrow> ('t, 'c) double_queue \<Rightarrow> ('t taker \<times> ('t, 'c) double_queue) option" where
  "take_owned_step condition now fetched received TakeStart self =
     Some (TakeLoop, self\<lparr>cold_part := update_condition_value now fetched (cold_part self)\<rparr>)"
| "take_owned_step condition now fetched received TakeLoop self =
     (case cold_take condition now fetched (cold_part self) of
        None \<Rightarrow> None
      | Some (Taken a, cold) \<Rightarrow> Some (TakeDone a, self\<lparr>cold_part := cold\<rparr>)
      | Some (NotTakenButSomeMayBeAvailable, cold) \<Rightarrow> Some (TakeLoop, self\<lparr>cold_part := cold\<rparr>)
      | Some (NotTakenAndNoneAvailable, cold) \<Rightarrow> Some (TakeWait, self\<lparr>cold_part := cold\<rparr>))"
| "take_owned_step condition now fetched received TakeWait self =
     (case hot_queue self of
        a # rest \<Rightarrow>
          if received then
            (case add_if_condition_not_satisfied condition now fetched a (cold_part self) of
               (True, cold) \<Rightarrow> Some (TakeLoop, \<lparr>hot_queue = rest, cold_part = cold\<rparr>)
             | (False, cold) \<Rightarrow> Some (TakeDone a, \<lparr>hot_queue = rest, cold_part = cold\<rparr>))
          else Some (TakeLoop, self)
      | [] \<Rightarrow> Some (TakeLoop, self))"
| "take_owned_step condition now fetched received (TakeDone a) self = Some (TakeDone a, self)"

text \<open>
  \<^verbatim>\<open>maybe_discard_owned\<close>: first the cold queue, then what is buffered in the hot queue. A new asset that does
  not satisfy the condition is dropped there. The readings of clock and fetcher are functions of the number
  of elements left.
\<close>

fun discard_cold_loop ::
    "('c \<Rightarrow> 't \<Rightarrow> bool) \<Rightarrow> (nat \<Rightarrow> nat) \<Rightarrow> (nat \<Rightarrow> 'c) \<Rightarrow> nat \<Rightarrow> unique_id list \<Rightarrow> ('t, 'c) cold_queue \<Rightarrow>
       (nat \<times> unique_id list \<times> ('t, 'c) cold_queue) option" where
  "discard_cold_loop condition now fetched 0 removed cold = Some (0, removed, cold)"
| "discard_cold_loop condition now fetched (Suc n) removed cold =
     (case cold_discard condition (now (Suc n)) (fetched (Suc n)) cold of
        None \<Rightarrow> None
      | Some (Discarded a, cold) \<Rightarrow> discard_cold_loop condition now fetched n (removed @ [fst a]) cold
      | Some (NotDiscardedButSomeMayBeAvailable, cold) \<Rightarrow> discard_cold_loop condition now fetched n removed cold
      | Some (NotDiscardedAndNoneAvailable, cold) \<Rightarrow> Some (Suc n, removed, cold))"

fun discard_hot_loop ::
    "('c \<Rightarrow> 't \<Rightarrow> bool) \<Rightarrow> (nat \<Rightarrow> nat) \<Rightarrow> (nat \<Rightarrow> 'c) \<Rightarrow> nat \<Rightarrow> ('t, 'c) double_queue \<Rightarrow> ('t, 'c) double_queue" where
  "discard_hot_loop condition now fetched 0 self = self"
| "discard_hot_loop condition now fetched (Suc n) self =
     (case hot_queue self of
        [] \<Rightarrow> self
      | a # rest \<Rightarrow> discard_hot_loop condition now fetched n \<lparr>hot_queue = rest,
          cold_part = snd (add_if_condition_satisfied condition (now (Suc n)) (fetched (Suc n)) a (cold_part self))\<rparr>)"

definition dq_maybe_discard_owned ::
    "('c \<Rightarrow> 't \<Rightarrow> bool) \<Rightarrow> (nat \<Rightarrow> nat) \<Rightarrow> (nat \<Rightarrow> 'c) \<Rightarrow> nat \<Rightarrow> ('t, 'c) double_queue \<Rightarrow>
       (unique_id list \<times> ('t, 'c) double_queue) option" where
  "dq_maybe_discard_owned condition now fetched n self =
     (case discard_cold_loop condition now fetched n []
         (update_condition_value (now (Suc n)) (fetched (Suc n)) (cold_part self)) of
        None \<Rightarrow> None
      | Some (left, removed, cold) \<Rightarrow>
          Some (removed, discard_hot_loop condition now fetched left (self\<lparr>cold_part := cold\<rparr>)))"

abbreviation dq_available :: "('t, 'c) double_queue \<Rightarrow> nat" where
  "dq_available self \<equiv> length (hot_queue self) + cold_available (cold_part self)"

abbreviation dq_offline :: "('t, 'c) double_queue \<Rightarrow> nat" where
  "dq_offline self \<equiv> length (cold_assets (cold_part self)) - cold_available (cold_part self)"

section \<open>The sections of the cold queue\<close>

definition cold_ok :: "('c \<Rightarrow> 't \<Rightarrow> bool) \<Rightarrow> ('t, 'c) cold_queue \<Rightarrow> bool" where
  "cold_ok condition q \<longleftrightarrow> cold_ready q \<le> cold_available q \<and> cold_available q \<le> length (cold_assets q) \<and>
     list_all (\<lambda>a. condition (last_condition_value q) (snd a)) (take (cold_ready q) (cold_assets q)) \<and>
     list_all (\<lambda>a. \<not> condition (last_condition_value q) (snd a)) (drop (cold_available q) (cold_assets q))"

lemma cold_ok_new: "cold_ok condition (cold_queue_new initial now)"
  by (simp add: cold_ok_def cold_queue_new_def)

lemma update_condition_value_ok:
  assumes "cold_ok condition q"
  shows "cold_ok condition (update_condition_value now v q)"
    "cold_assets (update_condition_value now v q) = cold_assets q"
    "last_condition_value (update_condition_value now v q) = v"
  using assms by (auto simp: update_condition_value_def Let_def cold_ok_def)

lemma update_if_due_ok:
  assumes "cold_ok condition q"
  shows "cold_ok condition (update_condition_value_if_due now v q)"
    "cold_assets (update_condition_value_if_due now v q) = cold_assets q"
    "last_condition_value q = v \<Longrightarrow> last_condition_value (update_condition_value_if_due now v q) = v"
    "last_condition_value q = v \<Longrightarrow> cold_available (update_condition_value_if_due now v q) = cold_available q"
  using assms update_condition_value_ok [OF assms]
  by (auto simp: update_condition_value_if_due_def update_condition_value_def Let_def)

text \<open>Taking: never a panic, and what is taken satisfies the condition.\<close>

lemma cold_take_cases:
  assumes ok: "cold_ok condition q"
  shows "\<exists>r q'. cold_take condition now v q = Some (r, q') \<and> cold_ok condition q' \<and>
    last_condition_value q' = last_condition_value (update_condition_value_if_due now v q) \<and>
    (case r of
       Taken a \<Rightarrow> condition (last_condition_value q') (snd a) \<and> mset (cold_assets q) = add_mset a (mset (cold_assets q'))
     | NotTakenButSomeMayBeAvailable \<Rightarrow> mset (cold_assets q') = mset (cold_assets q) \<and>
         Suc (cold_available q') = cold_available (update_condition_value_if_due now v q)
     | NotTakenAndNoneAvailable \<Rightarrow> mset (cold_assets q') = mset (cold_assets q) \<and> cold_available q' = 0)"
proof -
  define u where "u = update_condition_value_if_due now v q"
  have u: "cold_ok condition u" "cold_assets u = cold_assets q" using update_if_due_ok [OF ok] by (auto simp: u_def)
  show ?thesis
  proof (cases "cold_available u = 0")
    case True
    then show ?thesis using u by (auto simp: cold_take_def Let_def u_def)
  next
    case False
    then obtain i x rest where q: "cold_assets u = (i, x) # rest"
      using u(1) by (cases "cold_assets u") (auto simp: cold_ok_def)
    define w where "w = u\<lparr>cold_assets := rest, cold_available := cold_available u - 1\<rparr>"
    have res: "cold_take condition now v q =
      (if cold_ready u > 0 then Some (Taken (i, x), w\<lparr>cold_ready := cold_ready u - 1\<rparr>)
       else if condition (last_condition_value u) x then Some (Taken (i, x), w)
       else Some (NotTakenButSomeMayBeAvailable, w\<lparr>cold_assets := rest @ [(i, x)]\<rparr>))"
      using False q by (simp add: cold_take_def Let_def w_def flip: u_def)
    have parts: "cold_ready u \<le> cold_available u" "cold_available u \<le> Suc (length rest)"
      "list_all (\<lambda>a. condition (last_condition_value u) (snd a)) (take (cold_ready u) ((i, x) # rest))"
      "list_all (\<lambda>a. \<not> condition (last_condition_value u) (snd a)) (drop (cold_available u - 1) rest)"
      using u(1) q False by (auto simp: cold_ok_def drop_Cons')
    consider "cold_ready u > 0" | "cold_ready u = 0" "condition (last_condition_value u) x"
      | "cold_ready u = 0" "\<not> condition (last_condition_value u) x" by blast
    then show ?thesis
    proof cases
      case 1
      with parts have "cold_ok condition (w\<lparr>cold_ready := cold_ready u - 1\<rparr>)" "condition (last_condition_value u) x"
        using False by (auto simp: cold_ok_def w_def take_Cons')
      with 1 res q u(2) show ?thesis by (auto simp: w_def simp flip: u_def)
    next
      case 2
      with parts have "cold_ok condition w" using False by (auto simp: cold_ok_def w_def)
      with 2 res q u(2) show ?thesis by (auto simp: w_def simp flip: u_def)
    next
      case 3
      with parts have "cold_ok condition (w\<lparr>cold_assets := rest @ [(i, x)]\<rparr>)" using False by (auto simp: cold_ok_def w_def)
      with 3 res q u(2) False show ?thesis by (auto simp: w_def simp flip: u_def)
    qed
  qed
qed

text \<open>Discarding: never a panic, and what is discarded does not satisfy the condition.\<close>

lemma cold_discard_cases:
  assumes ok: "cold_ok condition q"
  shows "\<exists>r q'. cold_discard condition now v q = Some (r, q') \<and> cold_ok condition q' \<and>
    last_condition_value q' = last_condition_value (update_condition_value_if_due now v q) \<and>
    (case r of
       Discarded a \<Rightarrow> \<not> condition (last_condition_value q') (snd a) \<and> mset (cold_assets q) = add_mset a (mset (cold_assets q'))
     | _ \<Rightarrow> mset (cold_assets q') = mset (cold_assets q))"
proof -
  define u where "u = update_condition_value_if_due now v q"
  have u: "cold_ok condition u" "cold_assets u = cold_assets q" using update_if_due_ok [OF ok] by (auto simp: u_def)
  show ?thesis
  proof (cases "cold_ready u = length (cold_assets u)")
    case True
    then show ?thesis using u by (auto simp: cold_discard_def Let_def u_def)
  next
    case False
    then have "cold_assets u \<noteq> []" using u(1) by (auto simp: cold_ok_def)
    then obtain i x rest where q: "cold_assets u = rest @ [(i, x)]" by (metis prod.exhaust rev_exhaust)
    have lt: "cold_ready u \<le> length rest" using False q u(1) by (auto simp: cold_ok_def)
    define unknown where "unknown \<longleftrightarrow> cold_available u > length rest"
    define w where "w = u\<lparr>cold_assets := rest, cold_available := cold_available u - (if unknown then 1 else 0)\<rparr>"
    have res: "cold_discard condition now v q =
      (if unknown \<and> condition (last_condition_value u) x
       then Some (NotDiscardedButSomeMayBeAvailable, w\<lparr>cold_assets := (i, x) # rest, cold_ready := cold_ready u + 1,
         cold_available := cold_available w + 1\<rparr>)
       else Some (Discarded (i, x), w))"
      using False q by (simp add: cold_discard_def Let_def w_def unknown_def flip: u_def)
    have parts: "cold_ready u \<le> cold_available u" "cold_available u \<le> Suc (length rest)"
      "list_all (\<lambda>a. condition (last_condition_value u) (snd a)) (take (cold_ready u) rest)"
      "list_all (\<lambda>a. \<not> condition (last_condition_value u) (snd a)) (drop (cold_available u) rest)"
      "unknown \<or> \<not> condition (last_condition_value u) x"
      using u(1) q lt by (auto simp: cold_ok_def unknown_def)
    show ?thesis
    proof (cases "unknown \<and> condition (last_condition_value u) x")
      case True
      with parts lt have "cold_ok condition (w\<lparr>cold_assets := (i, x) # rest, cold_ready := cold_ready u + 1,
         cold_available := cold_available w + 1\<rparr>)"
        by (auto simp: cold_ok_def w_def unknown_def)
      with True res q u(2) show ?thesis by (auto simp: w_def simp flip: u_def)
    next
      case False
      with parts lt have "cold_ok condition w" by (auto simp: cold_ok_def w_def unknown_def)
      with False res q u(2) parts(5) show ?thesis by (auto simp: w_def simp flip: u_def)
    qed
  qed
qed

lemma add_satisfied_cases:
  assumes "cold_ok condition q" "add_if_condition_satisfied condition now v a q = (b, q')"
  shows "cold_ok condition q'" "b \<longleftrightarrow> condition (last_condition_value q') (snd a)"
    "mset (cold_assets q') = (if b then add_mset a (mset (cold_assets q)) else mset (cold_assets q))"
  using assms(2) update_if_due_ok [OF assms(1), where now = now and v = v]
  by (auto simp: add_if_condition_satisfied_def Let_def cold_ok_def split: if_splits)

lemma add_not_satisfied_cases:
  assumes "cold_ok condition q" "add_if_condition_not_satisfied condition now v a q = (b, q')"
  shows "cold_ok condition q'" "b \<longleftrightarrow> \<not> condition (last_condition_value q') (snd a)"
    "mset (cold_assets q') = (if b then add_mset a (mset (cold_assets q)) else mset (cold_assets q))"
    "last_condition_value q' = last_condition_value (update_condition_value_if_due now v q)"
    "cold_available q' = cold_available (update_condition_value_if_due now v q)"
  using assms(2) update_if_due_ok [OF assms(1), where now = now and v = v]
  by (auto simp: add_if_condition_not_satisfied_def Let_def cold_ok_def split: if_splits)

section \<open>The specification: a bag of assets\<close>

datatype ('t, 'c) asset_event = Added "'t asset" | Given "'t asset" 'c | Dropped "'t asset" 'c | Silent | Panicked

definition bag_step ::
    "('c \<Rightarrow> 't \<Rightarrow> bool) \<Rightarrow> ('t, 'c) asset_event \<Rightarrow> 't asset multiset \<Rightarrow> 't asset multiset \<Rightarrow> bool" where
  "bag_step condition l M M' = (case l of
     Added a \<Rightarrow> M' = add_mset a M
   | Given a c \<Rightarrow> condition c (snd a) \<and> M = add_mset a M'
   | Dropped a c \<Rightarrow> \<not> condition c (snd a) \<and> M = add_mset a M'
   | Silent \<Rightarrow> M' = M
   | Panicked \<Rightarrow> False)"

text \<open>The assets that were added, given out and dropped along a run.\<close>

definition added :: "('t, 'c) asset_event list \<Rightarrow> 't asset multiset" where
  "added ls = mset (concat (map (\<lambda>l. case l of Added a \<Rightarrow> [a] | _ \<Rightarrow> []) ls))"

definition given :: "('t, 'c) asset_event list \<Rightarrow> 't asset multiset" where
  "given ls = mset (concat (map (\<lambda>l. case l of Given a _ \<Rightarrow> [a] | _ \<Rightarrow> []) ls))"

definition dropped :: "('t, 'c) asset_event list \<Rightarrow> 't asset multiset" where
  "dropped ls = mset (concat (map (\<lambda>l. case l of Dropped a _ \<Rightarrow> [a] | _ \<Rightarrow> []) ls))"

lemma bag_conservation:
  "lrun (bag_step condition) ls M M' \<Longrightarrow> M + added ls = M' + given ls + dropped ls \<and> Panicked \<notin> set ls"
proof (induction rule: lrun.induct)
  case (lrun_snoc ls M M' l M'')
  then show ?case by (cases l) (auto simp: bag_step_def added_def given_def dropped_def)
qed (simp add: added_def given_def dropped_def)

section \<open>The system\<close>

text \<open>
  The queue with any number of tasks that take assets, producers that add them and tasks that discard them.
  A discarding task proceeds in the steps of its two loops.
\<close>

record ('t, 'c) asset_system =
  as_queue :: "('t, 'c) double_queue"
  as_tasks :: "nat \<Rightarrow> 't taker"

definition asset_system_new :: "'c \<Rightarrow> nat \<Rightarrow> ('t, 'c) asset_system" where
  "asset_system_new initial now = \<lparr>as_queue = double_queue_new initial now, as_tasks = (\<lambda>_. TakeStart)\<rparr>"

inductive asset_step ::
    "('c \<Rightarrow> 't \<Rightarrow> bool) \<Rightarrow> ('t, 'c) asset_event \<Rightarrow> ('t, 'c) asset_system \<Rightarrow> ('t, 'c) asset_system \<Rightarrow> bool" for condition where
  step_add: "asset_step condition (Added a) s (s\<lparr>as_queue := dq_add_owned a (as_queue s)\<rparr>)"
| step_take: "(\<And>a. as_tasks s i \<noteq> TakeDone a) \<Longrightarrow>
     take_owned_step condition now v received (as_tasks s i) (as_queue s) = Some (t, q) \<Longrightarrow>
     asset_step condition (case t of TakeDone a \<Rightarrow> Given a (last_condition_value (cold_part q)) | _ \<Rightarrow> Silent)
       s \<lparr>as_queue = q, as_tasks = (as_tasks s)(i := t)\<rparr>"
| step_take_panics: "take_owned_step condition now v received (as_tasks s i) (as_queue s) = None \<Longrightarrow>
     asset_step condition Panicked s s"
| step_discard_starts:
     "asset_step condition Silent s
       (s\<lparr>as_queue := (as_queue s)\<lparr>cold_part := update_condition_value now v (cold_part (as_queue s))\<rparr>\<rparr>)"
| step_discard: "cold_discard condition now v (cold_part (as_queue s)) = Some (r, cold) \<Longrightarrow>
     asset_step condition (case r of Discarded a \<Rightarrow> Dropped a (last_condition_value cold) | _ \<Rightarrow> Silent)
       s (s\<lparr>as_queue := (as_queue s)\<lparr>cold_part := cold\<rparr>\<rparr>)"
| step_discard_panics: "cold_discard condition now v (cold_part (as_queue s)) = None \<Longrightarrow>
     asset_step condition Panicked s s"
| step_discard_hot: "hot_queue (as_queue s) = a # rest \<Longrightarrow>
     add_if_condition_satisfied condition now v a (cold_part (as_queue s)) = (b, cold) \<Longrightarrow>
     asset_step condition (if b then Silent else Dropped a (last_condition_value cold))
       s (s\<lparr>as_queue := \<lparr>hot_queue = rest, cold_part = cold\<rparr>\<rparr>)"

definition dq_bag :: "('t, 'c) double_queue \<Rightarrow> 't asset multiset" where
  "dq_bag q = mset (hot_queue q) + mset (cold_assets (cold_part q))"

abbreviation dq_ok :: "('c \<Rightarrow> 't \<Rightarrow> bool) \<Rightarrow> ('t, 'c) double_queue \<Rightarrow> bool" where
  "dq_ok condition q \<equiv> cold_ok condition (cold_part q)"

lemma take_owned_step_cases:
  assumes ok: "dq_ok condition q" and pc: "\<And>a. pc \<noteq> TakeDone a"
  shows "\<exists>pc' q'. take_owned_step condition now v received pc q = Some (pc', q') \<and> dq_ok condition q' \<and>
    (case pc' of TakeDone a \<Rightarrow> condition (last_condition_value (cold_part q')) (snd a) \<and> dq_bag q = add_mset a (dq_bag q')
     | _ \<Rightarrow> dq_bag q' = dq_bag q)"
proof (cases pc)
  case TakeStart
  then show ?thesis using update_condition_value_ok [OF ok] by (auto simp: dq_bag_def)
next
  case TakeLoop
  obtain r cold where r: "cold_take condition now v (cold_part q) = Some (r, cold)" "cold_ok condition cold"
    "case r of
       Taken a \<Rightarrow> condition (last_condition_value cold) (snd a) \<and> mset (cold_assets (cold_part q)) = add_mset a (mset (cold_assets cold))
     | NotTakenButSomeMayBeAvailable \<Rightarrow> mset (cold_assets cold) = mset (cold_assets (cold_part q)) \<and>
         Suc (cold_available cold) = cold_available (update_condition_value_if_due now v (cold_part q))
     | NotTakenAndNoneAvailable \<Rightarrow> mset (cold_assets cold) = mset (cold_assets (cold_part q)) \<and> cold_available cold = 0"
    using cold_take_cases [OF ok, of now v] by blast
  with TakeLoop show ?thesis by (cases r) (auto simp: dq_bag_def)
next
  case TakeWait
  show ?thesis
  proof (cases "hot_queue q = [] \<or> \<not> received")
    case True
    with TakeWait ok show ?thesis by (auto simp: dq_bag_def split: list.splits)
  next
    case False
    then obtain a rest where h: "hot_queue q = a # rest" by (cases "hot_queue q") auto
    obtain b cold where b: "add_if_condition_not_satisfied condition now v a (cold_part q) = (b, cold)" by fastforce
    note c = add_not_satisfied_cases [OF ok b]
    from False h b TakeWait c show ?thesis by (cases b) (auto simp: dq_bag_def)
  qed
qed (use pc in auto)

interpretation asset_bag: forward_simulation "\<lambda>s. dq_ok condition (as_queue s)" "asset_step condition"
    "\<lambda>s. dq_bag (as_queue s)" "bag_step condition"
  for condition :: "'c \<Rightarrow> 't \<Rightarrow> bool"
proof
  fix s s' :: "('t, 'c) asset_system" and l
  assume ok: "dq_ok condition (as_queue s)" and step: "asset_step condition l s s'"
  from step have "dq_ok condition (as_queue s') \<and> bag_step condition l (dq_bag (as_queue s)) (dq_bag (as_queue s'))"
  proof cases
    case (step_add a)
    with ok show ?thesis by (simp add: dq_add_owned_def bag_step_def dq_bag_def)
  next
    case (step_take i now v received t q)
    obtain pc' q' where "take_owned_step condition now v received (as_tasks s i) (as_queue s) = Some (pc', q')" "dq_ok condition q'"
      "case pc' of TakeDone a \<Rightarrow> condition (last_condition_value (cold_part q')) (snd a) \<and> dq_bag (as_queue s) = add_mset a (dq_bag q')
       | _ \<Rightarrow> dq_bag q' = dq_bag (as_queue s)"
      using take_owned_step_cases [OF ok step_take(3), of now v received] by blast
    with step_take show ?thesis by (cases t) (auto simp: bag_step_def)
  next
    case (step_take_panics now v received i)
    have "\<nexists>a. as_tasks s i = TakeDone a" using step_take_panics(3) by auto
    then show ?thesis using take_owned_step_cases [OF ok, of "as_tasks s i" now v received] step_take_panics(3) by auto
  next
    case (step_discard_starts now v)
    with ok show ?thesis using update_condition_value_ok [OF ok] by (simp add: bag_step_def dq_bag_def)
  next
    case (step_discard now v r cold)
    then show ?thesis using cold_discard_cases [OF ok, of now v] by (cases r) (auto simp: bag_step_def dq_bag_def)
  next
    case (step_discard_panics now v)
    then show ?thesis using cold_discard_cases [OF ok, of now v] by auto
  next
    case (step_discard_hot a rest now v b cold)
    then show ?thesis using add_satisfied_cases [OF ok step_discard_hot(4)] by (auto simp: bag_step_def dq_bag_def)
  qed
  then show "dq_ok condition (as_queue s')" "bag_step condition l (dq_bag (as_queue s)) (dq_bag (as_queue s'))" by auto
qed

lemma asset_system_new_ok: "dq_ok condition (as_queue (asset_system_new initial now))"
  "dq_bag (as_queue (asset_system_new initial now)) = {#}"
  by (simp_all add: asset_system_new_def double_queue_new_def cold_ok_new dq_bag_def) (simp add: cold_queue_new_def)

text \<open>
  C35. The queues implement a bag of assets, however the tasks that add, take and discard interleave and
  whenever the condition value changes. Every run of the system is a run of the bag with the same events:
  an asset is given out only while it satisfies the condition value last fetched and discarded only while
  it does not. No operation panics. The assets added are exactly those still in the queues, those given out
  and those discarded, so no asset is ever handed out twice.
\<close>

theorem asset_queue_is_bag:
  assumes "lrun (asset_step condition) ls (asset_system_new initial now) s"
  shows "lrun (bag_step condition) ls {#} (dq_bag (as_queue s)) \<and> Panicked \<notin> set ls \<and>
    added ls = dq_bag (as_queue s) + given ls + dropped ls"
proof -
  have run: "lrun (bag_step condition) ls {#} (dq_bag (as_queue s))"
    using asset_bag.run_simulates [OF assms] asset_system_new_ok by metis
  then show ?thesis using bag_conservation [OF run] by simp
qed

definition ex_condition :: "nat \<Rightarrow> nat \<Rightarrow> bool" where
  "ex_condition c x \<longleftrightarrow> x mod 2 = c"

lemma ex_asset_run:
  "\<exists>s. lrun (asset_step ex_condition)
     [Added (1, 4), Added (2, 7), Silent, Silent, Silent, Silent, Given (2, 7) 1]
     (asset_system_new 0 0) s \<and> dq_bag (as_queue s) = {#(1, 4)#}"
proof -
  let ?step = "asset_step ex_condition"
  let ?cold = "\<lambda>as. \<lparr>cold_ready = 0, cold_available = 0, cold_assets = as, last_condition_value = 1 :: nat, next_fetch_due = 1000000000\<rparr>"
  let ?s = "\<lambda>hot as t. (\<lparr>as_queue = \<lparr>hot_queue = hot, cold_part = ?cold as\<rparr>, as_tasks = (\<lambda>_. TakeStart)(0 := t)\<rparr> :: (nat, nat) asset_system)"
  let ?init = "asset_system_new 0 0 :: (nat, nat) asset_system"
  let ?one = "?init\<lparr>as_queue := dq_add_owned (1, 4) (as_queue ?init)\<rparr>"
  let ?both = "?one\<lparr>as_queue := dq_add_owned (2, 7) (as_queue ?one)\<rparr>"
  have "?step (Added (1, 4)) ?init ?one" by (rule step_add)
  moreover have "?step (Added (2, 7)) ?one ?both" by (rule step_add)
  moreover have "?step Silent ?both (?s [(1, 4), (2, 7)] [] TakeLoop)"
    using step_take [of ?both 0 ex_condition 0 1 True]
    by (simp add: asset_system_new_def double_queue_new_def cold_queue_new_def dq_add_owned_def update_condition_value_def Let_def)
  moreover have "?step Silent (?s [(1, 4), (2, 7)] [] TakeLoop) (?s [(1, 4), (2, 7)] [] TakeWait)"
    using step_take [of "?s [(1, 4), (2, 7)] [] TakeLoop" 0 ex_condition 0 1 True]
    by (simp add: cold_take_def update_condition_value_if_due_def)
  moreover have "?step Silent (?s [(1, 4), (2, 7)] [] TakeWait) (?s [(2, 7)] [(1, 4)] TakeLoop)"
    using step_take [of "?s [(1, 4), (2, 7)] [] TakeWait" 0 ex_condition 0 1 True]
    by (simp add: add_if_condition_not_satisfied_def update_condition_value_if_due_def ex_condition_def)
  moreover have "?step Silent (?s [(2, 7)] [(1, 4)] TakeLoop) (?s [(2, 7)] [(1, 4)] TakeWait)"
    using step_take [of "?s [(2, 7)] [(1, 4)] TakeLoop" 0 ex_condition 0 1 True]
    by (simp add: cold_take_def update_condition_value_if_due_def)
  moreover have "?step (Given (2, 7) 1) (?s [(2, 7)] [(1, 4)] TakeWait) (?s [] [(1, 4)] (TakeDone (2, 7)))"
    using step_take [of "?s [(2, 7)] [(1, 4)] TakeWait" 0 ex_condition 0 1 True]
    by (simp add: add_if_condition_not_satisfied_def update_condition_value_if_due_def ex_condition_def)
  ultimately have "lrun ?step ([] @ [Added (1, 4)] @ [Added (2, 7)] @ [Silent] @ [Silent] @ [Silent] @ [Silent] @ [Given (2, 7) 1]) ?init
      (?s [] [(1, 4)] (TakeDone (2, 7)))"
    by (intro lrun_append [OF _ lrun_single] lrun_append [OF _ lrun_nil] lrun_single)
  then show ?thesis by (intro exI conjI) (auto simp: dq_bag_def)
qed

theorem asset_queue_is_bag_witness:
  "\<exists>s. lrun (asset_step ex_condition)
     [Added (1, 4), Added (2, 7), Silent, Silent, Silent, Silent, Given (2, 7) 1]
     (asset_system_new 0 0) s \<and> dq_bag (as_queue s) = {#(1, 4)#} \<and>
     lrun (bag_step ex_condition) [Added (1, 4), Added (2, 7), Silent, Silent, Silent, Silent, Given (2, 7) 1]
       {#} (dq_bag (as_queue s))"
proof -
  obtain s where s: "lrun (asset_step ex_condition)
     [Added (1, 4), Added (2, 7), Silent, Silent, Silent, Silent, Given (2, 7) 1]
     (asset_system_new 0 0) s" "dq_bag (as_queue s) = {#(1, 4)#}"
    using ex_asset_run by blast
  then show ?thesis using asset_queue_is_bag [OF s(1)] by blast
qed

section \<open>A task that takes an asset\<close>

text \<open>
  A task on its own: nobody else uses the queues meanwhile and the fetcher keeps returning the same value.
  The clock is read anew in every step.
\<close>

fun take_owned_run ::
    "('c \<Rightarrow> 't \<Rightarrow> bool) \<Rightarrow> (nat \<Rightarrow> nat) \<Rightarrow> 'c \<Rightarrow> nat \<Rightarrow> 't taker \<Rightarrow> ('t, 'c) double_queue \<Rightarrow> ('t taker \<times> ('t, 'c) double_queue) option" where
  "take_owned_run condition now v 0 pc self = Some (pc, self)"
| "take_owned_run condition now v (Suc k) pc self =
     (case take_owned_step condition (now 0) v True pc self of
        None \<Rightarrow> None
      | Some (pc, self) \<Rightarrow> take_owned_run condition (\<lambda>i. now (Suc i)) v k pc self)"

text \<open>The two ways such a task ends: with an asset, or waiting because no asset satisfies the condition.\<close>

definition take_ends :: "('c \<Rightarrow> 't \<Rightarrow> bool) \<Rightarrow> 'c \<Rightarrow> ('t, 'c) double_queue \<Rightarrow> 't taker \<times> ('t, 'c) double_queue \<Rightarrow> bool" where
  "take_ends condition v q end = (case end of
     (TakeDone a, q') \<Rightarrow> condition v (snd a) \<and> dq_bag q = add_mset a (dq_bag q')
   | (TakeWait, q') \<Rightarrow> hot_queue q' = [] \<and> dq_bag q' = dq_bag q \<and> (\<forall>a \<in># dq_bag q. \<not> condition v (snd a))
   | _ \<Rightarrow> False)"

lemma take_ends_bag: "dq_bag q = dq_bag q' \<Longrightarrow> take_ends condition v q end = take_ends condition v q' end"
  by (auto simp: take_ends_def split: prod.split taker.split)

lemma take_loop_ends:
  assumes "dq_ok condition q" "last_condition_value (cold_part q) = v"
  shows "\<exists>k \<le> 1 + cold_available (cold_part q) + 2 * length (hot_queue q). \<exists>e.
    take_owned_run condition now v k TakeLoop q = Some e \<and> take_ends condition v q e"
  using assms
proof (induction "cold_available (cold_part q) + 2 * length (hot_queue q)" arbitrary: q now rule: less_induct)
  case less
  note due = update_if_due_ok(3,4) [OF less(2,3), of "now 0"]
  obtain r cold where take: "cold_take condition (now 0) v (cold_part q) = Some (r, cold)" and cold: "cold_ok condition cold"
    "last_condition_value cold = v" and r: "case r of
       Taken a \<Rightarrow> condition (last_condition_value cold) (snd a) \<and> mset (cold_assets (cold_part q)) = add_mset a (mset (cold_assets cold))
     | NotTakenButSomeMayBeAvailable \<Rightarrow> mset (cold_assets cold) = mset (cold_assets (cold_part q)) \<and>
         Suc (cold_available cold) = cold_available (cold_part q)
     | NotTakenAndNoneAvailable \<Rightarrow> mset (cold_assets cold) = mset (cold_assets (cold_part q)) \<and> cold_available cold = 0"
    using cold_take_cases [OF less(2), of "now 0" v] unfolding due by blast
  define q' where "q' = q\<lparr>cold_part := cold\<rparr>"
  show ?case
  proof (cases r)
    case (Taken a)
    have "take_owned_run condition now v 1 TakeLoop q = Some (TakeDone a, q')"
      using take Taken by (simp add: q'_def)
    moreover have "take_ends condition v q (TakeDone a, q')" using r cold(2) Taken by (simp add: take_ends_def dq_bag_def q'_def)
    ultimately show ?thesis by (intro exI [of _ 1]) auto
  next
    case NotTakenButSomeMayBeAvailable
    have bag: "dq_bag q' = dq_bag q" using r NotTakenButSomeMayBeAvailable by (simp add: q'_def dq_bag_def)
    obtain k e where k: "k \<le> 1 + cold_available (cold_part q') + 2 * length (hot_queue q')"
      "take_owned_run condition (\<lambda>i. now (Suc i)) v k TakeLoop q' = Some e" "take_ends condition v q' e"
      using less(1) [of q' "\<lambda>i. now (Suc i)"] r cold NotTakenButSomeMayBeAvailable by (auto simp: q'_def)
    then have "take_owned_run condition now v (Suc k) TakeLoop q = Some e"
      using take NotTakenButSomeMayBeAvailable by (simp add: q'_def)
    moreover have "Suc k \<le> 1 + cold_available (cold_part q) + 2 * length (hot_queue q)"
      using k(1) r NotTakenButSomeMayBeAvailable by (simp add: q'_def)
    ultimately show ?thesis using k(3) take_ends_bag [OF bag] by blast
  next
    case NotTakenAndNoneAvailable
    have bag: "dq_bag q' = dq_bag q" using r NotTakenAndNoneAvailable by (simp add: q'_def dq_bag_def)
    have first: "take_owned_step condition (now 0) v True TakeLoop q = Some (TakeWait, q')"
      using take NotTakenAndNoneAvailable by (simp add: q'_def)
    have none: "cold_available cold = 0" using r NotTakenAndNoneAvailable by simp
    show ?thesis
    proof (cases "hot_queue q")
      case Nil
      have "\<forall>a \<in># dq_bag q. \<not> condition v (snd a)"
        using cold none Nil unfolding bag [symmetric] by (auto simp: dq_bag_def q'_def cold_ok_def list_all_iff)
      then have "take_ends condition v q (TakeWait, q')" using bag Nil by (simp add: take_ends_def q'_def)
      then show ?thesis using first by (intro exI [of _ 1]) auto
    next
      case (Cons a rest)
      obtain b cold' where b: "add_if_condition_not_satisfied condition (now 1) v a cold = (b, cold')" by fastforce
      note c = add_not_satisfied_cases [OF cold(1) b] and due' = update_if_due_ok(3,4) [OF cold, of "now 1"]
      define q2 where "q2 = \<lparr>hot_queue = rest, cold_part = cold'\<rparr>"
      show ?thesis
      proof (cases b)
        case False
        have "take_owned_run condition now v 2 TakeLoop q = Some (TakeDone a, q2)"
          using first Cons b False by (simp add: numeral_2_eq_2 q'_def q2_def)
        moreover have "take_ends condition v q (TakeDone a, q2)"
          using c due' False Cons r NotTakenAndNoneAvailable by (simp add: take_ends_def dq_bag_def q2_def)
        ultimately show ?thesis using Cons by (intro exI [of _ 2]) auto
      next
        case True
        have bag2: "dq_bag q2 = dq_bag q"
          using c True Cons r NotTakenAndNoneAvailable by (simp add: dq_bag_def q2_def)
        obtain k e where k: "k \<le> 1 + cold_available (cold_part q2) + 2 * length (hot_queue q2)"
          "take_owned_run condition (\<lambda>i. now (Suc (Suc i))) v k TakeLoop q2 = Some e" "take_ends condition v q2 e"
          using less(1) [of q2 "\<lambda>i. now (Suc (Suc i))"] c due' none Cons by (auto simp: q2_def)
        then have "take_owned_run condition now v (Suc (Suc k)) TakeLoop q = Some e"
          using first Cons b True by (simp add: q'_def q2_def)
        moreover have "Suc (Suc k) \<le> 1 + cold_available (cold_part q) + 2 * length (hot_queue q)"
          using k(1) c due' none Cons by (simp add: q2_def)
        ultimately show ?thesis using k(3) take_ends_bag [OF bag2] by blast
      qed
    qed
  qed
qed

text \<open>
  C36. A task that takes an asset ends: while nobody else uses the queues and the alive participants do not
  change, it needs a bounded number of steps, whatever the clock reads. It ends with an asset that satisfies
  the condition and is removed from the queues, or it waits for new assets because none of those queued
  satisfies the condition, and then it has lost none of them.
\<close>

theorem take_owned_returns:
  assumes "dq_ok condition q"
  shows "\<exists>k \<le> 2 + length (cold_assets (cold_part q)) + 2 * length (hot_queue q). \<exists>e.
    take_owned_run condition now v k TakeStart q = Some e \<and> take_ends condition v q e"
proof -
  define q' where "q' = q\<lparr>cold_part := update_condition_value (now 0) v (cold_part q)\<rparr>"
  note u = update_condition_value_ok [OF assms]
  have q': "dq_ok condition q'" "last_condition_value (cold_part q') = v" "dq_bag q' = dq_bag q" "hot_queue q' = hot_queue q"
    "cold_available (cold_part q') \<le> length (cold_assets (cold_part q))"
    using u(1,2) [of "now 0" v] u(3) [where now = "now 0" and v = v] by (auto simp: q'_def dq_bag_def cold_ok_def)
  obtain k e where "k \<le> 1 + cold_available (cold_part q') + 2 * length (hot_queue q')"
    "take_owned_run condition (\<lambda>i. now (Suc i)) v k TakeLoop q' = Some e" "take_ends condition v q' e"
    using take_loop_ends [OF q'(1,2)] by blast
  then show ?thesis using q'(3-5) take_ends_bag [OF q'(3)] by (intro exI [of _ "Suc k"]) (auto simp: q'_def)
qed

theorem take_owned_returns_witness:
  "\<exists>k e. k \<le> 5 \<and> take_owned_run ex_condition (\<lambda>_. 0) 1 k TakeStart
      \<lparr>hot_queue = [(2, 7)], cold_part = \<lparr>cold_ready = 0, cold_available = 1, cold_assets = [(1, 4)],
        last_condition_value = 1, next_fetch_due = 5\<rparr>\<rparr> = Some e \<and>
    take_ends ex_condition 1 \<lparr>hot_queue = [(2, 7)], cold_part = \<lparr>cold_ready = 0, cold_available = 1, cold_assets = [(1, 4)],
        last_condition_value = 1, next_fetch_due = 5\<rparr>\<rparr> e"
proof -
  have "dq_ok ex_condition \<lparr>hot_queue = [(2, 7)], cold_part = \<lparr>cold_ready = 0, cold_available = 1, cold_assets = [(1, 4)],
      last_condition_value = 1, next_fetch_due = 5\<rparr>\<rparr>" by (simp add: cold_ok_def)
  from take_owned_returns [OF this, of "\<lambda>_. 0" 1] show ?thesis by auto
qed

end
