(* ===== verification/AssetStorage.thy ===== *)
theory AssetStorage
  imports AssetQueues
begin

text \<open>
  The persistent storage of triples and presignatures (\<^verbatim>\<open>DistributedAssetStorage\<close> of
  \<^verbatim>\<open>crates/node/src/assets.rs\<close>): the queues of the previous theory for the assets this node owns, and a
  column of the database for all of them, under keys made of the domain and the identifier. The database and
  the encoding of assets come from third-party code: they are the fields of a record, and \<open>asset_db_laws\<close>
  states what an ordered key-value store and a lossless encoding do.
\<close>

section \<open>The database\<close>

record ('d, 't) asset_db =
  db_get :: "'d \<Rightarrow> nat list \<Rightarrow> nat list option"
  db_put :: "nat list \<Rightarrow> nat list \<Rightarrow> 'd \<Rightarrow> 'd"
  db_delete :: "nat list \<Rightarrow> 'd \<Rightarrow> 'd"
  db_iter_range :: "'d \<Rightarrow> nat list \<Rightarrow> nat list \<Rightarrow> (nat list \<times> nat list) list"
  db_encode :: "'t \<Rightarrow> nat list"
  db_decode :: "nat list \<Rightarrow> 't option"

definition in_range :: "nat list \<Rightarrow> nat list \<Rightarrow> nat list \<Rightarrow> bool" where
  "in_range start end key \<longleftrightarrow> \<not> bytes_less key start \<and> bytes_less key end"

definition asset_db_laws :: "('d, 't) asset_db \<Rightarrow> bool" where
  "asset_db_laws ops \<longleftrightarrow>
     (\<forall>k v d k'. db_get ops (db_put ops k v d) k' = (if k' = k then Some v else db_get ops d k')) \<and>
     (\<forall>k d k'. db_get ops (db_delete ops k d) k' = (if k' = k then None else db_get ops d k')) \<and>
     (\<forall>d start end. distinct (map fst (db_iter_range ops d start end)) \<and>
        sorted_wrt (\<lambda>a b. bytes_less (fst a) (fst b)) (db_iter_range ops d start end) \<and>
        (\<forall>k v. (k, v) \<in> set (db_iter_range ops d start end) \<longleftrightarrow> db_get ops d k = Some v \<and> in_range start end k)) \<and>
     (\<forall>x. db_decode ops (db_encode ops x) = Some x)"

section \<open>Keys\<close>

definition make_prefix_range :: "32 word \<Rightarrow> 64 word option \<Rightarrow> (nat list \<times> nat list) option" where
  "make_prefix_range participant_id domain_id =
     (let domain = (case domain_id of Some d \<Rightarrow> be_bytes 8 (unat d) | None \<Rightarrow> [])
      in if unat participant_id + 1 < 2 ^ 32
         then Some (domain @ prefix_for_participant_id participant_id, domain @ prefix_for_participant_id (participant_id + 1))
         else None)"

definition make_key :: "64 word option \<Rightarrow> unique_id \<Rightarrow> nat list" where
  "make_key domain_id i = (case domain_id of Some d \<Rightarrow> be_bytes 8 (unat d) | None \<Rightarrow> []) @ uid_serialize i"

definition decode_key :: "nat list \<Rightarrow> 64 word option \<Rightarrow> unique_id option" where
  "decode_key key domain_id = (case domain_id of
     Some _ \<Rightarrow> if length key < 8 then None else uid_deserialize (drop 8 key)
   | None \<Rightarrow> uid_deserialize key)"

section \<open>The storage\<close>

type_synonym 't alive_queue = "('t, 32 word list) double_queue"

record ('d, 't) asset_storage =
  ast_db :: 'd
  ast_domain_id :: "64 word option"
  ast_my_participant_id :: "32 word"
  ast_owned_queue :: "'t alive_queue"
  ast_last_id :: "unique_id option"

text \<open>\<^verbatim>\<open>new\<close>: the owned assets of the database are read into the hot queue.\<close>

fun load_owned ::
    "('d, 't) asset_db \<Rightarrow> 64 word option \<Rightarrow> (nat list \<times> nat list) list \<Rightarrow> 't alive_queue \<Rightarrow> unique_id option \<Rightarrow>
       ('t alive_queue \<times> unique_id option) option" where
  "load_owned ops domain_id [] queue last_id = Some (queue, last_id)"
| "load_owned ops domain_id ((key, value) # items) queue last_id =
     (case (decode_key key domain_id, db_decode ops value) of
        (Some i, Some x) \<Rightarrow> load_owned ops domain_id items (dq_add_owned (i, x) queue) (Some i)
      | _ \<Rightarrow> None)"

definition asset_storage_new ::
    "('d, 't) asset_db \<Rightarrow> nat \<Rightarrow> 'd \<Rightarrow> 64 word option \<Rightarrow> 32 word \<Rightarrow> ('d, 't) asset_storage option" where
  "asset_storage_new ops now db domain_id me =
     (case make_prefix_range me domain_id of
        None \<Rightarrow> None
      | Some (start, end) \<Rightarrow>
          (case load_owned ops domain_id (db_iter_range ops db start end) (double_queue_new [] now) None of
             None \<Rightarrow> None
           | Some (queue, last_id) \<Rightarrow> Some \<lparr>ast_db = db, ast_domain_id = domain_id, ast_my_participant_id = me,
               ast_owned_queue = queue, ast_last_id = last_id\<rparr>))"

definition generate_and_reserve_id_range ::
    "64 word \<Rightarrow> 32 word \<Rightarrow> ('d, 't) asset_storage \<Rightarrow> (unique_id \<times> ('d, 't) asset_storage) option" where
  "generate_and_reserve_id_range now how_many self =
     (if how_many > 0 then
        case (case ast_last_id self of
            Some last_id \<Rightarrow> pick_new_after now last_id
          | None \<Rightarrow> Some (unique_id_new (ast_my_participant_id self) now 0)) of
          None \<Rightarrow> None
        | Some start \<Rightarrow>
            (case add_to_counter start (how_many - 1) of
               None \<Rightarrow> None
             | Some end \<Rightarrow> Some (start, self\<lparr>ast_last_id := Some end\<rparr>))
      else None)"

text \<open>\<^verbatim>\<open>take_owned\<close> once the queue has returned an asset to its task.\<close>

definition storage_taken :: "('d, 't) asset_db \<Rightarrow> 't asset \<Rightarrow> ('d, 't) asset_storage \<Rightarrow> ('d, 't) asset_storage" where
  "storage_taken ops a self = self\<lparr>ast_db := db_delete ops (make_key (ast_domain_id self) (fst a)) (ast_db self)\<rparr>"

definition storage_add_unowned :: "('d, 't) asset_db \<Rightarrow> 't asset \<Rightarrow> ('d, 't) asset_storage \<Rightarrow> ('d, 't) asset_storage" where
  "storage_add_unowned ops a self =
     self\<lparr>ast_db := db_put ops (make_key (ast_domain_id self) (fst a)) (db_encode ops (snd a)) (ast_db self)\<rparr>"

definition storage_add_owned :: "('d, 't) asset_db \<Rightarrow> 't asset \<Rightarrow> ('d, 't) asset_storage \<Rightarrow> ('d, 't) asset_storage" where
  "storage_add_owned ops a self =
     (let self = self\<lparr>ast_db := db_put ops (make_key (ast_domain_id self) (fst a)) (db_encode ops (snd a)) (ast_db self)\<rparr>
      in self\<lparr>ast_owned_queue := dq_add_owned a (ast_owned_queue self)\<rparr>)"

definition storage_maybe_discard_owned ::
    "('d, 't) asset_db \<Rightarrow> (32 word list \<Rightarrow> 't \<Rightarrow> bool) \<Rightarrow> (nat \<Rightarrow> nat) \<Rightarrow> (nat \<Rightarrow> 32 word list) \<Rightarrow> nat \<Rightarrow>
       ('d, 't) asset_storage \<Rightarrow> ('d, 't) asset_storage option" where
  "storage_maybe_discard_owned ops condition now alive n self =
     (case dq_maybe_discard_owned condition now alive n (ast_owned_queue self) of
        None \<Rightarrow> None
      | Some (removed, queue) \<Rightarrow> Some (self\<lparr>ast_owned_queue := queue,
          ast_db := fold (\<lambda>i. db_delete ops (make_key (ast_domain_id self) i)) removed (ast_db self)\<rparr>))"

definition take_unowned ::
    "('d, 't) asset_db \<Rightarrow> unique_id \<Rightarrow> ('d, 't) asset_storage \<Rightarrow> 't option \<times> ('d, 't) asset_storage" where
  "take_unowned ops i self =
     (let key = make_key (ast_domain_id self) i
      in case db_get ops (ast_db self) key of
           None \<Rightarrow> (None, self)
         | Some value \<Rightarrow> (db_decode ops value, self\<lparr>ast_db := db_delete ops key (ast_db self)\<rparr>))"

text \<open>\<^verbatim>\<open>clean_db\<close> deletes the owned assets that some participant is missing for.\<close>

fun clean_items :: "('d, 't) asset_db \<Rightarrow> ('t \<Rightarrow> bool) \<Rightarrow> (nat list \<times> nat list) list \<Rightarrow> nat list list option" where
  "clean_items ops keep [] = Some []"
| "clean_items ops keep ((key, value) # items) = (case (db_decode ops value, clean_items ops keep items) of
     (Some x, Some keys) \<Rightarrow> Some (if keep x then keys else key # keys)
   | _ \<Rightarrow> None)"

definition clean_db ::
    "('d, 't) asset_db \<Rightarrow> ('t \<Rightarrow> bool) \<Rightarrow> 32 word \<Rightarrow> 64 word option \<Rightarrow> 'd \<Rightarrow> 'd option" where
  "clean_db ops is_subset_of_active me domain_id db =
     (case make_prefix_range me domain_id of
        None \<Rightarrow> None
      | Some (start, end) \<Rightarrow>
          (case clean_items ops is_subset_of_active (db_iter_range ops db start end) of
             None \<Rightarrow> None
           | Some keys \<Rightarrow> Some (fold (db_delete ops) keys db)))"

section \<open>Keys and ranges\<close>

lemma domain_bytes_inj: "be_bytes 8 (unat (d :: 64 word)) = be_bytes 8 (unat d') \<longleftrightarrow> d = d'"
  using be_bytes_inj [of 8 "unat d" "unat d'"] unat_bound [of d] unat_bound [of d'] by (auto simp: word_unat_eq_iff)

lemma decode_make_key: "decode_key (make_key domain_id i) domain_id = Some i"
  by (auto simp: decode_key_def make_key_def uid_bytes_roundtrip split: option.split)

lemma make_key_inj: "make_key domain_id i = make_key domain_id j \<longleftrightarrow> i = j"
  using decode_make_key by (metis option.inject)

lemma make_key_less: "bytes_less (make_key domain_id i) (make_key domain_id j) \<longleftrightarrow> i < j"
  by (simp add: make_key_def uid_bytes_less)

lemma prefix_Suc:
  assumes "unat (p :: 32 word) + 1 < 2 ^ 32"
  shows "unat (p + 1) = unat p + 1"
  using assms by (simp add: unat_word_ariths)

text \<open>Without the domain: the identifiers of a participant are a range.\<close>

lemma uid_in_range:
  assumes "unat p + 1 < 2 ^ 32"
  shows "in_range (prefix_for_participant_id p) (prefix_for_participant_id (p + 1)) (uid_serialize u) \<longleftrightarrow> uid_participant_id u = p"
proof -
  let ?q = "uid_participant_id u"
  have p1: "unat (p + 1) = unat p + 1" by (rule prefix_Suc [OF assms])
  have "bytes_less (uid_serialize u) (prefix_for_participant_id r) \<longleftrightarrow> ?q < r" for r
  proof (cases "?q = r")
    case True
    then show ?thesis using bytes_less_same_prefix [of "prefix_for_participant_id r" "be_bytes 12 (unat u)" "[]"]
      by (simp add: uid_bytes_split)
  next
    case False
    then show ?thesis
      using bytes_less_append [of "prefix_for_participant_id ?q" "prefix_for_participant_id r" "be_bytes 12 (unat u)" "[]"]
      by (simp add: uid_bytes_split prefix_inj prefix_less)
  qed
  then show ?thesis unfolding in_range_def word_less_nat_alt p1 word_unat_eq_iff [of ?q p] by (simp add: word_less_nat_alt p1) linarith
qed

lemma in_range_append: "in_range (xs @ start) (xs @ end) (xs @ key) = in_range start end key"
  by (simp add: in_range_def)

lemma not_in_range_other:
  assumes "length xs = length ys" "xs \<noteq> ys"
  shows "\<not> in_range (xs @ start) (xs @ end) (ys @ key)"
proof -
  have "bytes_less xs ys \<or> bytes_less ys xs" using assms by (induction xs ys rule: list_induct2) auto
  moreover have "\<not> (bytes_less xs ys \<and> bytes_less ys xs)" using assms(1) by (induction xs ys rule: list_induct2) auto
  ultimately show ?thesis
    using assms bytes_less_append [of ys xs key start] bytes_less_append [of ys xs key "end"] by (simp add: in_range_def)
qed

lemma key_in_range:
  assumes "(domain_id = None) = (other = None)"
  shows "case make_prefix_range p domain_id of
      None \<Rightarrow> p = - 1
    | Some (start, end) \<Rightarrow> in_range start end (make_key other u) = (other = domain_id \<and> uid_participant_id u = p)"
proof (cases "unat p + 1 < 2 ^ 32")
  case True
  show ?thesis
  proof (cases domain_id)
    case None
    then show ?thesis using assms True uid_in_range [OF True, of u] by (cases other) (auto simp: make_prefix_range_def make_key_def)
  next
    case (Some d)
    then obtain d' where d': "other = Some d'" using assms by (cases other) auto
    show ?thesis
    proof (cases "d = d'")
      case True
      then show ?thesis using Some d' \<open>unat p + 1 < 2 ^ 32\<close> uid_in_range [of p u]
        by (simp add: make_prefix_range_def make_key_def in_range_append Let_def)
    next
      case False
      then show ?thesis using Some d' True not_in_range_other [of "be_bytes 8 (unat d)" "be_bytes 8 (unat d')"]
        by (simp add: make_prefix_range_def make_key_def domain_bytes_inj Let_def)
    qed
  qed
next
  case False
  then have "unat p = 2 ^ 32 - 1" using unat_bound [of p] by simp
  then have "p = - 1" by (simp add: word_unat_eq_iff unsigned_minus_1_eq_mask mask_eq_exp_minus_1)
  with False show ?thesis by (simp add: make_prefix_range_def)
qed

text \<open>
  C38. The range that is read when a node starts holds exactly the keys of its own assets. For every
  participant but the one with the largest identifier, for which the range cannot be formed, a key lies
  between the two bounds exactly when it belongs to the same domain and its identifier carries that
  participant; in a column without domains, exactly when its identifier carries that participant.
\<close>

theorem prefix_range_exact:
  assumes "(domain_id = None) = (other = None)"
  shows "case make_prefix_range p domain_id of
      None \<Rightarrow> p = - 1
    | Some (start, end) \<Rightarrow> in_range start end (make_key other u) = (other = domain_id \<and> uid_participant_id u = p)"
  by (rule key_in_range [OF assms])

theorem prefix_range_exact_witness:
  "make_prefix_range 5 (Some 1) = Some ([0, 0, 0, 0, 0, 0, 0, 1, 0, 0, 0, 5], [0, 0, 0, 0, 0, 0, 0, 1, 0, 0, 0, 6]) \<and>
   in_range [0, 0, 0, 0, 0, 0, 0, 1, 0, 0, 0, 5] [0, 0, 0, 0, 0, 0, 0, 1, 0, 0, 0, 6] (make_key (Some 1) (unique_id_new 5 1700000000 3))"
proof -
  have r: "make_prefix_range 5 (Some 1) = Some ([0, 0, 0, 0, 0, 0, 0, 1, 0, 0, 0, 5], [0, 0, 0, 0, 0, 0, 0, 1, 0, 0, 0, 6])"
    by (simp add: make_prefix_range_def prefix_for_participant_id_def be_bytes_def Let_def)
  then show ?thesis using prefix_range_exact [of "Some 1" "Some 1" 5 "unique_id_new 5 1700000000 3"] by simp
qed

section \<open>Reserved identifiers\<close>

lemma generate_range_Some:
  assumes "generate_and_reserve_id_range now n st = Some (start, st')"
  shows "\<exists>end. st' = st\<lparr>ast_last_id := Some end\<rparr> \<and> unat end + 1 = unat start + unat n \<and>
    uid_participant_id start = uid_participant_id end \<and>
    uid_participant_id start = (case ast_last_id st of Some l \<Rightarrow> uid_participant_id l | None \<Rightarrow> ast_my_participant_id st) \<and>
    (\<forall>l. ast_last_id st = Some l \<longrightarrow> l < start)"
proof -
  have n: "n > 0" using assms by (auto simp: generate_and_reserve_id_range_def split: if_splits)
  obtain e where e: "add_to_counter start (n - 1) = Some e" "st' = st\<lparr>ast_last_id := Some e\<rparr>"
    and start: "(case ast_last_id st of Some l \<Rightarrow> pick_new_after now l
      | None \<Rightarrow> Some (unique_id_new (ast_my_participant_id st) now 0)) = Some start"
    using assms n by (auto simp: generate_and_reserve_id_range_def split: option.splits)
  have "unat (n - 1) = unat n - 1" using n by (simp add: unat_minus_one)
  moreover have "unat n > 0" using n by (simp add: word_less_nat_alt)
  ultimately have "unat e + 1 = unat start + unat n" using add_to_counter_Some(3) [OF e(1)] by simp
  then show ?thesis using e add_to_counter_Some(1) [OF e(1)] start pick_new_after_Some
    by (auto split: option.splits)
qed

text \<open>A sequence of reservations.\<close>

fun reserve_all ::
    "(64 word \<times> 32 word) list \<Rightarrow> ('d, 't) asset_storage \<Rightarrow> ((unique_id \<times> 32 word) list \<times> ('d, 't) asset_storage) option" where
  "reserve_all [] st = Some ([], st)"
| "reserve_all ((now, n) # rest) st =
     (case generate_and_reserve_id_range now n st of
        None \<Rightarrow> None
      | Some (start, st) \<Rightarrow>
          (case reserve_all rest st of None \<Rightarrow> None | Some (rs, st) \<Rightarrow> Some ((start, n) # rs, st)))"

text \<open>The identifiers of a reserved range, as numbers.\<close>

definition reserved :: "unique_id \<times> 32 word \<Rightarrow> nat set" where
  "reserved r = {unat (fst r) ..< unat (fst r) + unat (snd r)}"

lemma reserved_participant:
  assumes "generate_and_reserve_id_range now n st = Some (start, st')" "unat u \<in> reserved (start, n)"
  shows "uid_participant_id u = uid_participant_id start"
proof -
  obtain e where e: "unat e + 1 = unat start + unat n" "uid_participant_id start = uid_participant_id e"
    using generate_range_Some [OF assms(1)] by blast
  have "unat start \<le> unat u" "unat u \<le> unat e" using assms(2) e(1) by (auto simp: reserved_def)
  then have "unat start div 2 ^ 96 \<le> unat u div 2 ^ 96" "unat u div 2 ^ 96 \<le> unat e div 2 ^ 96"
    by (auto intro: div_le_mono)
  then show ?thesis using e(2) by (simp add: unat_uid_fields word_unat_eq_iff [where 'a = 32])
qed

lemma reserve_all_ranges:
  assumes "reserve_all reqs st = Some (rs, st')"
    and "\<And>l. ast_last_id st = Some l \<Longrightarrow> uid_participant_id l = ast_my_participant_id st"
  shows "sorted_wrt (\<lambda>r r'. unat (fst r) + unat (snd r) \<le> unat (fst r')) rs \<and>
    (\<forall>r \<in> set rs. (\<forall>l. ast_last_id st = Some l \<longrightarrow> l < fst r) \<and>
      (\<forall>u. unat u \<in> reserved r \<longrightarrow> uid_participant_id u = ast_my_participant_id st))"
  using assms
proof (induction reqs arbitrary: st rs)
  case (Cons req reqs)
  obtain now n where req: "req = (now, n)" by (cases req)
  obtain start st1 rs1 where s: "generate_and_reserve_id_range now n st = Some (start, st1)"
    "reserve_all reqs st1 = Some (rs1, st')" "rs = (start, n) # rs1"
    using Cons(2) by (auto simp: req split: option.splits)
  obtain e where e: "st1 = st\<lparr>ast_last_id := Some e\<rparr>" "unat e + 1 = unat start + unat n"
      "uid_participant_id start = uid_participant_id e"
      "uid_participant_id start = (case ast_last_id st of Some l \<Rightarrow> uid_participant_id l | None \<Rightarrow> ast_my_participant_id st)"
      "\<forall>l. ast_last_id st = Some l \<longrightarrow> l < start"
    using generate_range_Some [OF s(1)] by blast
  have me: "uid_participant_id start = ast_my_participant_id st" using e(4) Cons(3) by (auto split: option.splits)
  have IH: "sorted_wrt (\<lambda>r r'. unat (fst r) + unat (snd r) \<le> unat (fst r')) rs1 \<and>
    (\<forall>r \<in> set rs1. e < fst r \<and> (\<forall>u. unat u \<in> reserved r \<longrightarrow> uid_participant_id u = ast_my_participant_id st))"
  proof -
    have last: "ast_last_id st1 = Some e" "ast_my_participant_id st1 = ast_my_participant_id st" by (simp_all add: e(1))
    have "uid_participant_id l = ast_my_participant_id st1" if "ast_last_id st1 = Some l" for l
      using that last e(3) me by simp
    from Cons(1) [OF s(2) this] show ?thesis unfolding last by blast
  qed
  have "start \<le> e" using e(2) s(1) by (auto simp: word_le_nat_alt generate_and_reserve_id_range_def word_less_nat_alt split: if_splits)
  then have "\<forall>r \<in> set rs1. start < fst r" using IH by auto
  moreover have "\<forall>r \<in> set rs1. unat start + unat n \<le> unat (fst r)" using IH e(2) by (auto simp: word_less_nat_alt)
  moreover have "\<forall>u. unat u \<in> reserved (start, n) \<longrightarrow> uid_participant_id u = ast_my_participant_id st"
    using reserved_participant [OF s(1)] me by simp
  ultimately show ?case using IH e(5) s(3) by auto
qed simp

section \<open>Starting from the database\<close>

lemma load_owned_Some:
  assumes "load_owned ops domain_id items queue last_id = Some (queue', last_id')"
  shows "\<exists>as. length as = length items \<and>
    list_all2 (\<lambda>(k, v) (i, x). decode_key k domain_id = Some i \<and> db_decode ops v = Some x) items as \<and>
    queue' = queue\<lparr>hot_queue := hot_queue queue @ as\<rparr> \<and>
    last_id' = (if as = [] then last_id else Some (fst (last as)))"
  using assms
proof (induction items arbitrary: queue last_id)
  case (Cons item items)
  obtain k v where item: "item = (k, v)" by (cases item)
  obtain i x where ix: "decode_key k domain_id = Some i" "db_decode ops v = Some x"
    "load_owned ops domain_id items (dq_add_owned (i, x) queue) (Some i) = Some (queue', last_id')"
    using Cons(2) by (auto simp: item split: option.splits)
  obtain as where "length as = length items"
    "list_all2 (\<lambda>(k, v) (i, x). decode_key k domain_id = Some i \<and> db_decode ops v = Some x) items as"
    "queue' = (dq_add_owned (i, x) queue)\<lparr>hot_queue := hot_queue (dq_add_owned (i, x) queue) @ as\<rparr>"
    "last_id' = (if as = [] then Some i else Some (fst (last as)))"
    using Cons(1) [OF ix(3)] by blast
  then show ?case using ix item by (intro exI [of _ "(i, x) # as"]) (auto simp: dq_add_owned_def)
qed simp

text \<open>A column that was written by storages of this kind: with domains or without.\<close>

definition column_ok :: "('d, 't) asset_db \<Rightarrow> 'd \<Rightarrow> 64 word option \<Rightarrow> bool" where
  "column_ok ops db domain_id \<longleftrightarrow>
     (\<forall>k v. db_get ops db k = Some v \<longrightarrow> (\<exists>d u. k = make_key d u \<and> (d = None) = (domain_id = None)))"

lemma iter_own_items:
  assumes laws: "asset_db_laws ops" and col: "column_ok ops db domain_id"
    and range: "make_prefix_range me domain_id = Some (start, end)"
  shows "(k, v) \<in> set (db_iter_range ops db start end) \<longleftrightarrow>
    db_get ops db k = Some v \<and> (\<exists>u. k = make_key domain_id u \<and> uid_participant_id u = me)"
proof -
  have "(k, v) \<in> set (db_iter_range ops db start end) \<longleftrightarrow> db_get ops db k = Some v \<and> in_range start end k"
    using laws by (simp add: asset_db_laws_def)
  moreover have "in_range start end k \<longleftrightarrow> (\<exists>u. k = make_key domain_id u \<and> uid_participant_id u = me)"
    if stored: "db_get ops db k = Some v"
  proof -
    obtain d u where "k = make_key d u" "(domain_id = None) = (d = None)"
      using col stored unfolding column_ok_def by metis
    moreover from this have "in_range start end (make_key d u) = (d = domain_id \<and> uid_participant_id u = me)"
      using key_in_range [of domain_id d me u] range by simp
    moreover have "in_range start end (make_key domain_id w) = (uid_participant_id w = me)" for w
      using key_in_range [of domain_id domain_id me w] range by simp
    ultimately show ?thesis by metis
  qed
  ultimately show ?thesis by blast
qed

lemma loaded_assets:
  assumes laws: "asset_db_laws ops" and col: "column_ok ops db domain_id"
    and range: "make_prefix_range me domain_id = Some (start, end)"
    and as: "list_all2 (\<lambda>(k, v) (i, x). decode_key k domain_id = Some i \<and> db_decode ops v = Some x) (db_iter_range ops db start end) as"
  shows "map (\<lambda>(k, v). (k, db_decode ops v)) (db_iter_range ops db start end) = map (\<lambda>(i, x). (make_key domain_id i, Some x)) as"
    "sorted_wrt (<) (map fst as)" "\<And>i x. (i, x) \<in> set as \<Longrightarrow> uid_participant_id i = me"
proof -
  let ?items = "db_iter_range ops db start end"
  have len: "length as = length ?items" using as by (simp add: list_all2_lengthD)
  have nth: "fst (?items ! j) = make_key domain_id (fst (as ! j)) \<and> db_decode ops (snd (?items ! j)) = Some (snd (as ! j)) \<and>
      uid_participant_id (fst (as ! j)) = me" if j: "j < length as" for j
  proof -
    obtain k v i x where jx: "?items ! j = (k, v)" "as ! j = (i, x)" by (metis surj_pair)
    have "(k, v) \<in> set ?items" using jx j len by (metis nth_mem)
    then obtain u where "k = make_key domain_id u" "uid_participant_id u = me"
      using iter_own_items [OF laws col range] by blast
    then show ?thesis using list_all2_nthD2 [OF as j] jx by (simp add: decode_make_key)
  qed
  then show "map (\<lambda>(k, v). (k, db_decode ops v)) ?items = map (\<lambda>(i, x). (make_key domain_id i, Some x)) as"
    using len by (auto simp: list_eq_iff_nth_eq split_beta)
  show "uid_participant_id i = me" if "(i, x) \<in> set as" for i x
    using that nth by (auto simp: in_set_conv_nth) (metis fst_conv)
  have "sorted_wrt (\<lambda>a b. bytes_less (fst a) (fst b)) ?items" using laws by (simp add: asset_db_laws_def)
  then show "sorted_wrt (<) (map fst as)"
    using nth len by (auto simp: sorted_wrt_iff_nth_less make_key_less)
qed

text \<open>
  What a node starts with: the assets it owns in the database, and a last identifier that none of theirs exceeds.
\<close>

lemma asset_storage_new_Some:
  assumes laws: "asset_db_laws ops" and col: "column_ok ops db domain_id"
    and new: "asset_storage_new ops now db domain_id me = Some st"
  shows "ast_db st = db" "ast_my_participant_id st = me"
    "(i, x) \<in># dq_bag (ast_owned_queue st) \<longleftrightarrow> uid_participant_id i = me \<and>
       (\<exists>v. db_get ops db (make_key domain_id i) = Some v \<and> db_decode ops v = Some x)"
    "ast_last_id st = Some l \<Longrightarrow> uid_participant_id l = me"
    "uid_participant_id u = me \<Longrightarrow> db_get ops db (make_key domain_id u) = Some v \<Longrightarrow> \<exists>l. ast_last_id st = Some l \<and> u \<le> l"
proof -
  obtain start "end" queue last_id where r: "make_prefix_range me domain_id = Some (start, end)"
    "load_owned ops domain_id (db_iter_range ops db start end) (double_queue_new [] now) None = Some (queue, last_id)"
    and st: "st = \<lparr>ast_db = db, ast_domain_id = domain_id, ast_my_participant_id = me, ast_owned_queue = queue, ast_last_id = last_id\<rparr>"
    using new by (auto simp: asset_storage_new_def split: option.splits)
  let ?items = "db_iter_range ops db start end"
  obtain as where as: "list_all2 (\<lambda>(k, v) (i, x). decode_key k domain_id = Some i \<and> db_decode ops v = Some x) ?items as"
    "queue = (double_queue_new [] now)\<lparr>hot_queue := as\<rparr>" "last_id = (if as = [] then None else Some (fst (last as)))"
    using load_owned_Some [OF r(2)] by (auto simp: double_queue_new_def)
  note l = loaded_assets [OF laws col r(1) as(1)] and own = iter_own_items [OF laws col r(1)]
  have mem: "(i, x) \<in> set as \<longleftrightarrow> (\<exists>v. (make_key domain_id i, v) \<in> set ?items \<and> db_decode ops v = Some x)" for i x
  proof -
    have "(i, x) \<in> set as \<longleftrightarrow> (make_key domain_id i, Some x) \<in> set (map (\<lambda>(i, x). (make_key domain_id i, Some x)) as)"
      by (auto simp: make_key_inj)
    also have "\<dots> \<longleftrightarrow> (\<exists>v. (make_key domain_id i, v) \<in> set ?items \<and> db_decode ops v = Some x)"
      unfolding l(1) [symmetric] by (force simp: image_iff)
    finally show ?thesis .
  qed
  show "ast_db st = db" "ast_my_participant_id st = me" by (simp_all add: st)
  show "(i, x) \<in># dq_bag (ast_owned_queue st) \<longleftrightarrow> uid_participant_id i = me \<and>
       (\<exists>v. db_get ops db (make_key domain_id i) = Some v \<and> db_decode ops v = Some x)"
    using mem [of i x] own by (auto simp: st as(2) dq_bag_def double_queue_new_def cold_queue_new_def make_key_inj)
  show "uid_participant_id l = me" if "ast_last_id st = Some l"
    using that l(3) [of "fst (last as)" "snd (last as)"] by (auto simp: st as(3) split: if_splits)
  show "\<exists>l. ast_last_id st = Some l \<and> u \<le> l" if "uid_participant_id u = me" "db_get ops db (make_key domain_id u) = Some v"
  proof -
    have "(make_key domain_id u, v) \<in> set ?items" using own that by blast
    then have "(make_key domain_id u, db_decode ops v) \<in> set (map (\<lambda>(i, x). (make_key domain_id i, Some x)) as)"
      unfolding l(1) [symmetric] by force
    then obtain x where "(u, x) \<in> set as" by (auto simp: make_key_inj)
    then obtain j where "j < length as" "fst (as ! j) = u" by (metis fst_conv in_set_conv_nth)
    then show ?thesis using l(2) by (cases "j = length as - 1")
      (auto simp: st as(3) last_conv_nth sorted_wrt_iff_nth_less intro!: less_imp_le)
  qed
qed

text \<open>
  C37. Identifiers a node reserves after it has started never collide, neither with each other nor with an
  asset of its own in the database, as long as the counter of a second does not run out: the ranges
  reserved one after the other are disjoint and increasing, every identifier in them carries the node's
  participant, and none of them is the identifier of an asset that is stored in the database.
\<close>

theorem reserved_ids_fresh:
  assumes "asset_db_laws ops" "column_ok ops db domain_id"
    and "asset_storage_new ops now db domain_id me = Some st"
    and "reserve_all requests st = Some (rs, st')"
  shows "sorted_wrt (\<lambda>r r'. \<forall>n \<in> reserved r. \<forall>n' \<in> reserved r'. n < n') rs \<and>
    (\<forall>r \<in> set rs. \<forall>u. unat u \<in> reserved r \<longrightarrow> uid_participant_id u = me \<and>
      db_get ops db (make_key domain_id u) = None)"
proof -
  note new = asset_storage_new_Some [OF assms(1-3)]
  have "sorted_wrt (\<lambda>r r'. unat (fst r) + unat (snd r) \<le> unat (fst r')) rs \<and>
    (\<forall>r \<in> set rs. (\<forall>l. ast_last_id st = Some l \<longrightarrow> l < fst r) \<and>
      (\<forall>u. unat u \<in> reserved r \<longrightarrow> uid_participant_id u = me))"
    using reserve_all_ranges [OF assms(4)] new(2,4) by simp
  then have r: "sorted_wrt (\<lambda>r r'. unat (fst r) + unat (snd r) \<le> unat (fst r')) rs"
    "\<And>r l. r \<in> set rs \<Longrightarrow> ast_last_id st = Some l \<Longrightarrow> l < fst r"
    "\<And>r u. r \<in> set rs \<Longrightarrow> unat u \<in> reserved r \<Longrightarrow> uid_participant_id u = me" by blast+
  have "db_get ops db (make_key domain_id u) = None" if ru: "r \<in> set rs" "unat u \<in> reserved r" for r u
  proof (rule ccontr)
    assume "db_get ops db (make_key domain_id u) \<noteq> None"
    then obtain l where "ast_last_id st = Some l" "u \<le> l" using new(5) r(3) [OF ru] by blast
    then show False using r(2) [OF ru(1)] ru(2) by (force simp: reserved_def word_less_nat_alt word_le_nat_alt)
  qed
  moreover have "sorted_wrt (\<lambda>r r'. \<forall>n \<in> reserved r. \<forall>n' \<in> reserved r'. n < n') rs"
    using r(1) by (rule sorted_wrt_mono_rel [rotated]) (auto simp: reserved_def)
  ultimately show ?thesis using r(3) by blast
qed

text \<open>A database of one column as a sorted association list, and numbers as assets.\<close>

fun col_put :: "nat list \<Rightarrow> nat list \<Rightarrow> (nat list \<times> nat list) list \<Rightarrow> (nat list \<times> nat list) list" where
  "col_put k v [] = [(k, v)]"
| "col_put k v ((k', v') # rest) =
     (if k = k' then (k, v) # rest else if bytes_less k k' then (k, v) # (k', v') # rest else (k', v') # col_put k v rest)"

lemma bytes_less_trans: "bytes_less xs ys \<Longrightarrow> bytes_less ys zs \<Longrightarrow> bytes_less xs zs"
proof (induction xs ys arbitrary: zs rule: bytes_less.induct)
  case (2 y ys)
  then show ?case by (cases zs) auto
next
  case (3 x xs y ys)
  then show ?case by (cases zs) auto
qed simp

lemma bytes_less_total: "xs \<noteq> ys \<Longrightarrow> bytes_less xs ys \<or> bytes_less ys xs"
proof (induction xs ys rule: bytes_less.induct)
  case (1 xs)
  then show ?case by (cases xs) auto
qed auto

lemma col_put_props:
  assumes "sorted_wrt bytes_less (map fst db)"
  shows "sorted_wrt bytes_less (map fst (col_put k v db)) \<and> fst ` set (col_put k v db) = insert k (fst ` set db) \<and>
    map_of (col_put k v db) = (map_of db)(k \<mapsto> v)"
  using assms
proof (induction db)
  case (Cons a db)
  obtain k' v' where a: "a = (k', v')" by (cases a)
  then show ?case using Cons bytes_less_total [of k k'] bytes_less_trans [of k k'] by (auto simp: fun_eq_iff)
qed simp

typedef column = "{db :: (nat list \<times> nat list) list. sorted_wrt bytes_less (map fst db)}"
  by (rule exI [of _ "[]"]) simp

setup_lifting type_definition_column

lift_definition column_get :: "column \<Rightarrow> nat list \<Rightarrow> nat list option" is map_of .

lift_definition column_put :: "nat list \<Rightarrow> nat list \<Rightarrow> column \<Rightarrow> column" is col_put
  using col_put_props by blast

lift_definition column_delete :: "nat list \<Rightarrow> column \<Rightarrow> column" is "\<lambda>k. filter (\<lambda>a. fst a \<noteq> k)"
  by (simp add: sorted_wrt_map sorted_wrt_filter)

lift_definition column_range :: "column \<Rightarrow> nat list \<Rightarrow> nat list \<Rightarrow> (nat list \<times> nat list) list" is
  "\<lambda>db start end. filter (\<lambda>a. in_range start end (fst a)) db" .

lift_definition column_empty :: column is "[]"
  by simp

definition nat_column :: "(column, nat) asset_db" where
  "nat_column = \<lparr>db_get = column_get, db_put = column_put, db_delete = column_delete, db_iter_range = column_range,
     db_encode = (\<lambda>n. [n]), db_decode = (\<lambda>bs. case bs of [n] \<Rightarrow> Some n | _ \<Rightarrow> None)\<rparr>"

lemma lookup_filter: "map_of (filter (\<lambda>a. fst a \<noteq> k) db) k' = (if k' = k then None else map_of db k')"
  by (induction db) auto

lemma sorted_distinct: "sorted_wrt bytes_less ks \<Longrightarrow> distinct ks"
  by (induction ks) auto

lemma nat_column_laws: "asset_db_laws nat_column"
proof -
  have put: "column_get (column_put k v d) k' = (if k' = k then Some v else column_get d k')" for k v d k'
    by transfer (use col_put_props in auto)
  have del: "column_get (column_delete k d) k' = (if k' = k then None else column_get d k')" for k d k'
    by transfer (rule lookup_filter)
  have sorted: "sorted_wrt (\<lambda>a b. bytes_less (fst a) (fst b)) (column_range d start end)" for d start "end"
    by transfer (simp add: sorted_wrt_map sorted_wrt_filter)
  then have dist: "distinct (map fst (column_range d start end))" for d start "end"
    by (intro sorted_distinct) (simp add: sorted_wrt_map)
  have mem: "(k, v) \<in> set (column_range d start end) \<longleftrightarrow> column_get d k = Some v \<and> in_range start end k" for k v d start "end"
    by transfer (auto dest!: sorted_distinct)
  show ?thesis using put del sorted dist mem by (simp add: asset_db_laws_def nat_column_def)
qed

lemma column_single_get: "column_get (column_put k v column_empty) k' = (if k' = k then Some v else None)"
  by transfer simp

lemma column_single_range:
  "column_range (column_put k v column_empty) start end = (if in_range start end k then [(k, v)] else [])"
  by transfer simp

definition ex_column :: column where
  "ex_column = column_put (make_key None (unique_id_new 5 100 7)) [4] column_empty"

lemma ex_column_new:
  "\<exists>st. asset_storage_new nat_column 0 ex_column None 5 = Some st \<and> ast_last_id st = Some (unique_id_new 5 100 7) \<and>
    ast_my_participant_id st = 5"
proof -
  obtain start "end" where r: "make_prefix_range 5 None = Some (start, end)" by (simp add: make_prefix_range_def)
  then have "in_range start end (make_key None (unique_id_new 5 100 7))"
    using key_in_range [of None None 5 "unique_id_new 5 100 7"] by simp
  then show ?thesis using r by (simp add: asset_storage_new_def nat_column_def ex_column_def column_single_range decode_make_key)
qed

theorem reserved_ids_fresh_witness:
  "\<exists>st st'. asset_storage_new nat_column 0 ex_column None 5 = Some st \<and>
     reserve_all [(100, 3)] st = Some ([(unique_id_new 5 100 8, 3)], st') \<and>
     db_get nat_column ex_column (make_key None (unique_id_new 5 100 9)) = None"
proof -
  obtain st where st: "asset_storage_new nat_column 0 ex_column None 5 = Some st" "ast_last_id st = Some (unique_id_new 5 100 7)"
    using ex_column_new by blast
  have col: "column_ok nat_column ex_column None"
    by (auto simp: column_ok_def nat_column_def ex_column_def column_single_get split: if_splits)
  have res: "reserve_all [(100, 3)] st = Some ([(unique_id_new 5 100 8, 3)], st\<lparr>ast_last_id := Some (unique_id_new 5 100 10)\<rparr>)"
    using st(2) by (simp add: generate_and_reserve_id_range_def pick_new_after_def add_to_counter_def)
  have "unat (unique_id_new 5 100 9) \<in> reserved (unique_id_new 5 100 8, 3)"
    by (simp add: reserved_def unat_unique_id_new)
  then show ?thesis using reserved_ids_fresh [OF nat_column_laws col st(1) res] st(1) res by auto
qed

section \<open>Discarded assets and the database\<close>

text \<open>
  An asset that is discarded straight from the hot queue leaves the queues but not the database: only the
  identifiers removed from the cold queue are deleted there.
\<close>

lemma discarded_new_asset_stays:
  assumes "hot_queue (ast_owned_queue st) = [a]" "cold_assets (cold_part (ast_owned_queue st)) = []"
    and "dq_ok condition (ast_owned_queue st)" "\<not> condition alive (snd a)"
  shows "\<exists>st'. storage_maybe_discard_owned ops condition now (\<lambda>_. alive) (Suc n) st = Some st' \<and>
    dq_bag (ast_owned_queue st') = {#} \<and> ast_db st' = ast_db st"
proof -
  let ?q = "ast_owned_queue st"
  define u where "u = update_condition_value (now (Suc (Suc n))) alive (cold_part ?q)"
  have u: "cold_ok condition u" "cold_assets u = []" "last_condition_value u = alive"
    using update_condition_value_ok [OF assms(3)] assms(2) by (simp_all add: u_def)
  define w where "w = update_condition_value_if_due (now (Suc n)) alive u"
  have w: "cold_ok condition w" "cold_assets w = []" "last_condition_value w = alive"
    using update_if_due_ok [OF u(1)] u by (simp_all add: w_def)
  have cold: "discard_cold_loop condition now (\<lambda>_. alive) (Suc n) [] u = Some (Suc n, [], w)"
    using w by (simp add: cold_discard_def Let_def cold_ok_def flip: w_def)
  define x where "x = update_condition_value_if_due (now (Suc n)) alive w"
  have x: "cold_assets x = []" "last_condition_value x = alive"
    using update_if_due_ok [OF w(1)] w by (simp_all add: x_def)
  have "discard_hot_loop condition now (\<lambda>_. alive) k \<lparr>hot_queue = [], cold_part = x\<rparr> = \<lparr>hot_queue = [], cold_part = x\<rparr>" for k
    by (cases k) auto
  then have "dq_maybe_discard_owned condition now (\<lambda>_. alive) (Suc n) ?q = Some ([], \<lparr>hot_queue = [], cold_part = x\<rparr>)"
    using cold assms(1,4) x unfolding dq_maybe_discard_owned_def u_def [symmetric]
    by (simp add: add_if_condition_satisfied_def Let_def flip: x_def)
  then show ?thesis using x by (simp add: storage_maybe_discard_owned_def dq_bag_def)
qed

text \<open>The node finds it again when it restarts.\<close>

lemma discarded_new_asset_returns:
  assumes "asset_db_laws ops" "column_ok ops (ast_db st) (ast_domain_id st)"
    and "hot_queue (ast_owned_queue st) = [(i, x)]" "cold_assets (cold_part (ast_owned_queue st)) = []"
    and "dq_ok condition (ast_owned_queue st)" "\<not> condition alive x"
    and "db_get ops (ast_db st) (make_key (ast_domain_id st) i) = Some (db_encode ops x)" "uid_participant_id i = me"
    and "storage_maybe_discard_owned ops condition now (\<lambda>_. alive) (Suc n) st = Some st'"
    and "asset_storage_new ops later (ast_db st') (ast_domain_id st) me = Some restarted"
  shows "(i, x) \<notin># dq_bag (ast_owned_queue st') \<and> (i, x) \<in># dq_bag (ast_owned_queue restarted)"
proof -
  have st': "dq_bag (ast_owned_queue st') = {#}" "ast_db st' = ast_db st"
    using discarded_new_asset_stays [OF assms(3,4,5), of alive ops now n] assms(6,9) by auto
  have "db_decode ops (db_encode ops x) = Some x" using assms(1) by (simp add: asset_db_laws_def)
  then show ?thesis using asset_storage_new_Some(3) [OF assms(1,2), of later me restarted i x] assms(7,8,10) st' by auto
qed

end
