(* ===== verification/Spec2Isabelle.thy ===== *)
theory Spec2Isabelle
  imports ContractTee KeyGeneration AssetStorage
begin

text \<open>
  Verification of the contract of the MPC network (header to follow).
\<close>

end
